(* ===== verification/Prelude.thy ===== *)
theory Prelude
  imports Complex_Main "HOL-Library.Sublist"
begin

text \<open>
  Shared vocabulary of the development.

  A Python \<open>str\<close> is a \<open>string\<close>; each \<open>char\<close> stands for one code point below 256, and
  on texts over these code points every string operation below is exact: lower-casing,
  whitespace and line-boundary classes follow the Unicode tables for Latin-1. A Python
  \<open>dict\<close> is an association list in insertion order; a raised exception is the left
  part of a sum. Identifiers and clock readings come from the record \<open>world\<close>: the
  successive values that the operating system hands to the program are functions of
  the number of reads made so far, so a run is a deterministic function of the world
  it starts in.
\<close>

named_theorems frame_simps \<open>what an operation leaves unchanged\<close>
named_theorems inv_intros \<open>an operation keeps its component's invariant\<close>

text \<open>A predicate on an optional value computes.\<close>

declare option.pred_inject [code]

section \<open>Python text\<close>

definition ord :: "char \<Rightarrow> nat" where
  "ord c = of_char c"

definition lower_char :: "char \<Rightarrow> char" where
  "lower_char c =
     (if 65 \<le> ord c \<and> ord c \<le> 90 \<or> 192 \<le> ord c \<and> ord c \<le> 222 \<and> ord c \<noteq> 215
      then char_of (ord c + 32) else c)"

definition lower :: "string \<Rightarrow> string" where
  "lower s = map lower_char s"

text \<open>\<open>str.isspace\<close>, the separators of \<open>str.split()\<close> and the class \<open>\\s\<close>.\<close>

definition is_space :: "char \<Rightarrow> bool" where
  "is_space c =
     (let n = ord c in 9 \<le> n \<and> n \<le> 13 \<or> 28 \<le> n \<and> n \<le> 32 \<or> n = 133 \<or> n = 160)"

fun words_acc :: "string \<Rightarrow> string \<Rightarrow> string list" where
  "words_acc w [] = (if w = [] then [] else [rev w])"
| "words_acc w (c # cs) =
     (if is_space c then (if w = [] then words_acc [] cs else rev w # words_acc [] cs)
      else words_acc (c # w) cs)"

text \<open>\<open>str.split()\<close> without an argument.\<close>

definition split_ws :: "string \<Rightarrow> string list" where
  "split_ws s = words_acc [] s"

fun join :: "string \<Rightarrow> string list \<Rightarrow> string" where
  "join sep [] = []"
| "join sep [x] = x"
| "join sep (x # y # xs) = x @ sep @ join sep (y # xs)"

definition lstrip :: "string \<Rightarrow> string" where
  "lstrip s = dropWhile is_space s"

definition rstrip_if :: "(char \<Rightarrow> bool) \<Rightarrow> string \<Rightarrow> string" where
  "rstrip_if p s = rev (dropWhile p (rev s))"

definition strip :: "string \<Rightarrow> string" where
  "strip s = rstrip_if is_space (lstrip s)"

definition replace_char :: "char \<Rightarrow> char \<Rightarrow> string \<Rightarrow> string" where
  "replace_char a b s = map (\<lambda>c. if c = a then b else c) s"

text \<open>\<open>" ".join(s.split())\<close>: every run of whitespace becomes one blank.\<close>

definition collapse :: "string \<Rightarrow> string" where
  "collapse s = join '' '' (split_ws s)"

text \<open>\<open>str.partition\<close> at a one-character separator: the flag says whether it occurs.\<close>

definition partition_at :: "char \<Rightarrow> string \<Rightarrow> string \<times> bool \<times> string" where
  "partition_at c s =
     (let h = takeWhile (\<lambda>x. x \<noteq> c) s; r = dropWhile (\<lambda>x. x \<noteq> c) s
      in (h, r \<noteq> [], drop 1 r))"

text \<open>\<open>str.split(c)\<close> at a one-character separator.\<close>

fun split_at_acc :: "char \<Rightarrow> string \<Rightarrow> string \<Rightarrow> string list" where
  "split_at_acc c w [] = [rev w]"
| "split_at_acc c w (x # xs) =
     (if x = c then rev w # split_at_acc c [] xs else split_at_acc c (x # w) xs)"

definition split_at :: "char \<Rightarrow> string \<Rightarrow> string list" where
  "split_at c s = split_at_acc c [] s"

text \<open>The line boundaries of \<open>str.splitlines\<close>; a carriage return takes a following
  line feed with it.\<close>

definition is_linebreak :: "char \<Rightarrow> bool" where
  "is_linebreak c = (let n = ord c in 10 \<le> n \<and> n \<le> 13 \<or> 28 \<le> n \<and> n \<le> 30 \<or> n = 133)"

fun lines_acc :: "string \<Rightarrow> string \<Rightarrow> string list" where
  "lines_acc w [] = (if w = [] then [] else [rev w])"
| "lines_acc w (c # cs) =
     (if is_linebreak c
      then rev w # (case cs of
                      d # ds \<Rightarrow> if ord c = 13 \<and> ord d = 10 then lines_acc [] ds else lines_acc [] cs
                    | [] \<Rightarrow> lines_acc [] cs)
      else lines_acc (c # w) cs)"

definition splitlines :: "string \<Rightarrow> string list" where
  "splitlines s = lines_acc [] s"

text \<open>\<open>s[-n:]\<close> for positive \<open>n\<close>.\<close>

definition last_n :: "nat \<Rightarrow> string \<Rightarrow> string" where
  "last_n n s = drop (length s - n) s"

section \<open>Decimal numerals\<close>

definition digit_char :: "nat \<Rightarrow> char" where
  "digit_char n = char_of (48 + n)"

fun nat_str :: "nat \<Rightarrow> string" where
  "nat_str n = (if n < 10 then [digit_char n] else nat_str (n div 10) @ [digit_char (n mod 10)])"

declare nat_str.simps [simp del]

definition int_str :: "int \<Rightarrow> string" where
  "int_str i = (if i < 0 then ''-'' @ nat_str (nat (- i)) else nat_str (nat i))"

section \<open>Dictionaries and finite lists\<close>

text \<open>\<open>d[k] = v\<close>: an existing key keeps its place, a new one goes last.\<close>

fun dset :: "'k \<Rightarrow> 'v \<Rightarrow> ('k \<times> 'v) list \<Rightarrow> ('k \<times> 'v) list" where
  "dset k v [] = [(k, v)]"
| "dset k v ((k', v') # d) = (if k' = k then (k, v) # d else (k', v') # dset k v d)"

definition ddel :: "'k \<Rightarrow> ('k \<times> 'v) list \<Rightarrow> ('k \<times> 'v) list" where
  "ddel k d = filter (\<lambda>(k', _). k' \<noteq> k) d"

text \<open>\<open>list(dict.fromkeys(xs))\<close>: the first occurrence of every element, in order.\<close>

fun dedup_acc :: "'a list \<Rightarrow> 'a list \<Rightarrow> 'a list" where
  "dedup_acc seen [] = []"
| "dedup_acc seen (x # xs) =
     (if x \<in> set seen then dedup_acc seen xs else x # dedup_acc (x # seen) xs)"

definition dedup :: "'a list \<Rightarrow> 'a list" where
  "dedup xs = dedup_acc [] xs"

text \<open>\<open>xs[-n:]\<close> for positive \<open>n\<close>, and appending to \<open>deque(maxlen=n)\<close>.\<close>

definition keep_last :: "nat \<Rightarrow> 'a list \<Rightarrow> 'a list" where
  "keep_last n xs = drop (length xs - n) xs"

section \<open>Lemmas\<close>

text \<open>The printable ASCII characters, evaluated once.\<close>

lemma is_space_ascii [simp]:
  "is_space (CHR '' '')" "\<not> is_space (CHR ''!'')" "\<not> is_space (CHR ''#'')"
  "\<not> is_space (CHR ''$'')" "\<not> is_space (CHR ''%'')" "\<not> is_space (CHR ''&'')"
  "\<not> is_space (CHR ''('')" "\<not> is_space (CHR '')'')" "\<not> is_space (CHR ''*'')"
  "\<not> is_space (CHR ''+'')" "\<not> is_space (CHR '','')" "\<not> is_space (CHR ''-'')"
  "\<not> is_space (CHR ''.'')" "\<not> is_space (CHR ''/'')" "\<not> is_space (CHR ''0'')"
  "\<not> is_space (CHR ''1'')" "\<not> is_space (CHR ''2'')" "\<not> is_space (CHR ''3'')"
  "\<not> is_space (CHR ''4'')" "\<not> is_space (CHR ''5'')" "\<not> is_space (CHR ''6'')"
  "\<not> is_space (CHR ''7'')" "\<not> is_space (CHR ''8'')" "\<not> is_space (CHR ''9'')"
  "\<not> is_space (CHR '':'')" "\<not> is_space (CHR '';'')" "\<not> is_space (CHR ''<'')"
  "\<not> is_space (CHR ''='')" "\<not> is_space (CHR ''>'')" "\<not> is_space (CHR ''?'')"
  "\<not> is_space (CHR ''@'')" "\<not> is_space (CHR ''A'')" "\<not> is_space (CHR ''B'')"
  "\<not> is_space (CHR ''C'')" "\<not> is_space (CHR ''D'')" "\<not> is_space (CHR ''E'')"
  "\<not> is_space (CHR ''F'')" "\<not> is_space (CHR ''G'')" "\<not> is_space (CHR ''H'')"
  "\<not> is_space (CHR ''I'')" "\<not> is_space (CHR ''J'')" "\<not> is_space (CHR ''K'')"
  "\<not> is_space (CHR ''L'')" "\<not> is_space (CHR ''M'')" "\<not> is_space (CHR ''N'')"
  "\<not> is_space (CHR ''O'')" "\<not> is_space (CHR ''P'')" "\<not> is_space (CHR ''Q'')"
  "\<not> is_space (CHR ''R'')" "\<not> is_space (CHR ''S'')" "\<not> is_space (CHR ''T'')"
  "\<not> is_space (CHR ''U'')" "\<not> is_space (CHR ''V'')" "\<not> is_space (CHR ''W'')"
  "\<not> is_space (CHR ''X'')" "\<not> is_space (CHR ''Y'')" "\<not> is_space (CHR ''Z'')"
  "\<not> is_space (CHR ''['')" "\<not> is_space (CHR '']'')" "\<not> is_space (CHR ''^'')"
  "\<not> is_space (CHR ''_'')" "\<not> is_space (CHR ''a'')" "\<not> is_space (CHR ''b'')"
  "\<not> is_space (CHR ''c'')" "\<not> is_space (CHR ''d'')" "\<not> is_space (CHR ''e'')"
  "\<not> is_space (CHR ''f'')" "\<not> is_space (CHR ''g'')" "\<not> is_space (CHR ''h'')"
  "\<not> is_space (CHR ''i'')" "\<not> is_space (CHR ''j'')" "\<not> is_space (CHR ''k'')"
  "\<not> is_space (CHR ''l'')" "\<not> is_space (CHR ''m'')" "\<not> is_space (CHR ''n'')"
  "\<not> is_space (CHR ''o'')" "\<not> is_space (CHR ''p'')" "\<not> is_space (CHR ''q'')"
  "\<not> is_space (CHR ''r'')" "\<not> is_space (CHR ''s'')" "\<not> is_space (CHR ''t'')"
  "\<not> is_space (CHR ''u'')" "\<not> is_space (CHR ''v'')" "\<not> is_space (CHR ''w'')"
  "\<not> is_space (CHR ''x'')" "\<not> is_space (CHR ''y'')" "\<not> is_space (CHR ''z'')"
  "\<not> is_space (CHR ''{'')" "\<not> is_space (CHR ''|'')" "\<not> is_space (CHR ''}'')"
  "\<not> is_space (CHR ''~'')"
  by (simp_all add: is_space_def ord_def)

lemma lower_char_ascii [simp]:
  "lower_char (CHR '' '') = (CHR '' '')" "lower_char (CHR ''!'') = (CHR ''!'')"
  "lower_char (CHR ''#'') = (CHR ''#'')" "lower_char (CHR ''$'') = (CHR ''$'')"
  "lower_char (CHR ''%'') = (CHR ''%'')" "lower_char (CHR ''&'') = (CHR ''&'')"
  "lower_char (CHR ''('') = (CHR ''('')" "lower_char (CHR '')'') = (CHR '')'')"
  "lower_char (CHR ''*'') = (CHR ''*'')" "lower_char (CHR ''+'') = (CHR ''+'')"
  "lower_char (CHR '','') = (CHR '','')" "lower_char (CHR ''-'') = (CHR ''-'')"
  "lower_char (CHR ''.'') = (CHR ''.'')" "lower_char (CHR ''/'') = (CHR ''/'')"
  "lower_char (CHR ''0'') = (CHR ''0'')" "lower_char (CHR ''1'') = (CHR ''1'')"
  "lower_char (CHR ''2'') = (CHR ''2'')" "lower_char (CHR ''3'') = (CHR ''3'')"
  "lower_char (CHR ''4'') = (CHR ''4'')" "lower_char (CHR ''5'') = (CHR ''5'')"
  "lower_char (CHR ''6'') = (CHR ''6'')" "lower_char (CHR ''7'') = (CHR ''7'')"
  "lower_char (CHR ''8'') = (CHR ''8'')" "lower_char (CHR ''9'') = (CHR ''9'')"
  "lower_char (CHR '':'') = (CHR '':'')" "lower_char (CHR '';'') = (CHR '';'')"
  "lower_char (CHR ''<'') = (CHR ''<'')" "lower_char (CHR ''='') = (CHR ''='')"
  "lower_char (CHR ''>'') = (CHR ''>'')" "lower_char (CHR ''?'') = (CHR ''?'')"
  "lower_char (CHR ''@'') = (CHR ''@'')" "lower_char (CHR ''A'') = (CHR ''a'')"
  "lower_char (CHR ''B'') = (CHR ''b'')" "lower_char (CHR ''C'') = (CHR ''c'')"
  "lower_char (CHR ''D'') = (CHR ''d'')" "lower_char (CHR ''E'') = (CHR ''e'')"
  "lower_char (CHR ''F'') = (CHR ''f'')" "lower_char (CHR ''G'') = (CHR ''g'')"
  "lower_char (CHR ''H'') = (CHR ''h'')" "lower_char (CHR ''I'') = (CHR ''i'')"
  "lower_char (CHR ''J'') = (CHR ''j'')" "lower_char (CHR ''K'') = (CHR ''k'')"
  "lower_char (CHR ''L'') = (CHR ''l'')" "lower_char (CHR ''M'') = (CHR ''m'')"
  "lower_char (CHR ''N'') = (CHR ''n'')" "lower_char (CHR ''O'') = (CHR ''o'')"
  "lower_char (CHR ''P'') = (CHR ''p'')" "lower_char (CHR ''Q'') = (CHR ''q'')"
  "lower_char (CHR ''R'') = (CHR ''r'')" "lower_char (CHR ''S'') = (CHR ''s'')"
  "lower_char (CHR ''T'') = (CHR ''t'')" "lower_char (CHR ''U'') = (CHR ''u'')"
  "lower_char (CHR ''V'') = (CHR ''v'')" "lower_char (CHR ''W'') = (CHR ''w'')"
  "lower_char (CHR ''X'') = (CHR ''x'')" "lower_char (CHR ''Y'') = (CHR ''y'')"
  "lower_char (CHR ''Z'') = (CHR ''z'')" "lower_char (CHR ''['') = (CHR ''['')"
  "lower_char (CHR '']'') = (CHR '']'')" "lower_char (CHR ''^'') = (CHR ''^'')"
  "lower_char (CHR ''_'') = (CHR ''_'')" "lower_char (CHR ''a'') = (CHR ''a'')"
  "lower_char (CHR ''b'') = (CHR ''b'')" "lower_char (CHR ''c'') = (CHR ''c'')"
  "lower_char (CHR ''d'') = (CHR ''d'')" "lower_char (CHR ''e'') = (CHR ''e'')"
  "lower_char (CHR ''f'') = (CHR ''f'')" "lower_char (CHR ''g'') = (CHR ''g'')"
  "lower_char (CHR ''h'') = (CHR ''h'')" "lower_char (CHR ''i'') = (CHR ''i'')"
  "lower_char (CHR ''j'') = (CHR ''j'')" "lower_char (CHR ''k'') = (CHR ''k'')"
  "lower_char (CHR ''l'') = (CHR ''l'')" "lower_char (CHR ''m'') = (CHR ''m'')"
  "lower_char (CHR ''n'') = (CHR ''n'')" "lower_char (CHR ''o'') = (CHR ''o'')"
  "lower_char (CHR ''p'') = (CHR ''p'')" "lower_char (CHR ''q'') = (CHR ''q'')"
  "lower_char (CHR ''r'') = (CHR ''r'')" "lower_char (CHR ''s'') = (CHR ''s'')"
  "lower_char (CHR ''t'') = (CHR ''t'')" "lower_char (CHR ''u'') = (CHR ''u'')"
  "lower_char (CHR ''v'') = (CHR ''v'')" "lower_char (CHR ''w'') = (CHR ''w'')"
  "lower_char (CHR ''x'') = (CHR ''x'')" "lower_char (CHR ''y'') = (CHR ''y'')"
  "lower_char (CHR ''z'') = (CHR ''z'')" "lower_char (CHR ''{'') = (CHR ''{'')"
  "lower_char (CHR ''|'') = (CHR ''|'')" "lower_char (CHR ''}'') = (CHR ''}'')"
  "lower_char (CHR ''~'') = (CHR ''~'')"
  by (simp_all add: lower_char_def ord_def char_of_def bit_Suc_0_iff)

lemma map_of_dset [simp]: "map_of (dset k v d) = (map_of d)(k \<mapsto> v)"
  by (induction d) (auto simp: fun_eq_iff)

lemma keys_dset: "fst ` set (dset k v d) = insert k (fst ` set d)"
proof (induction d)
  case Nil
  then show ?case by simp
next
  case (Cons p d)
  then show ?case by (cases p) (simp add: insert_commute)
qed

lemma distinct_dset [intro]: "distinct (map fst d) \<Longrightarrow> distinct (map fst (dset k v d))"
proof (induction d)
  case Nil
  then show ?case by simp
next
  case (Cons p d)
  obtain k' v' where p: "p = (k', v')" by (cases p)
  have "k' \<notin> fst ` set (dset k v d)" if "k' \<noteq> k"
    using Cons.prems that by (auto simp: keys_dset p)
  then show ?case using Cons by (auto simp: p)
qed

lemma map_of_ddel [simp]: "map_of (ddel k d) = (map_of d)(k := None)"
  by (induction d) (auto simp: ddel_def fun_eq_iff)

lemma distinct_ddel [intro]: "distinct (map fst d) \<Longrightarrow> distinct (map fst (ddel k d))"
  by (simp add: ddel_def distinct_map_filter)

lemma set_dedup_acc: "set (dedup_acc seen xs) = set xs - set seen"
  by (induction seen xs rule: dedup_acc.induct) auto

lemma distinct_dedup_acc: "distinct (dedup_acc seen xs)"
  by (induction seen xs rule: dedup_acc.induct) (auto simp: set_dedup_acc)

lemma set_dedup [simp]: "set (dedup xs) = set xs"
  by (simp add: dedup_def set_dedup_acc)

lemma distinct_dedup [simp]: "distinct (dedup xs)"
  by (simp add: dedup_def distinct_dedup_acc)

lemma length_keep_last [simp]: "length (keep_last n xs) = min n (length xs)"
  by (simp add: keep_last_def)

lemma set_keep_last: "set (keep_last n xs) \<subseteq> set xs"
  by (simp add: keep_last_def set_drop_subset)

lemma distinct_keep_last [intro]: "distinct xs \<Longrightarrow> distinct (keep_last n xs)"
  by (simp add: keep_last_def)

lemma length_lower [simp]: "length (lower s) = length s"
  by (simp add: lower_def)

lemma length_last_n [simp]: "length (last_n n s) = min n (length s)"
  by (simp add: last_n_def)

lemma ord_char_of [simp]: "n < 256 \<Longrightarrow> ord (char_of n) = n"
  by (simp add: ord_def)

lemma ord_bound: "ord c < 256"
  by (simp add: ord_def)

lemma lower_char_not_upper: "\<not> (65 \<le> ord (lower_char c) \<and> ord (lower_char c) \<le> 90)"
  using ord_bound [of c] by (auto simp: lower_char_def)

lemma lower_char_idem [simp]: "lower_char (lower_char c) = lower_char c"
proof (cases "65 \<le> ord c \<and> ord c \<le> 90 \<or> 192 \<le> ord c \<and> ord c \<le> 222 \<and> ord c \<noteq> 215")
  case True
  then have "lower_char c = char_of (ord c + 32)" "ord (lower_char c) = ord c + 32"
    by (auto simp: lower_char_def)
  with True show ?thesis by (auto simp: lower_char_def)
next
  case False
  then have "lower_char c = c" by (simp only: lower_char_def if_False)
  then show ?thesis by simp
qed

lemma lower_idem [simp]: "lower (lower s) = lower s"
  by (simp add: lower_def)

lemma lower_no_upper: "c \<in> set (lower s) \<Longrightarrow> \<not> (65 \<le> ord c \<and> ord c \<le> 90)"
  using lower_char_not_upper by (auto simp: lower_def)

lemma sublist_set: "sublist xs ys \<Longrightarrow> set xs \<subseteq> set ys"
  by (auto simp: sublist_def)

lemma set_words_acc: "\<Union> (set ` set (words_acc w s)) \<subseteq> set w \<union> set s"
proof (induction w s rule: words_acc.induct)
  case (1 w)
  then show ?case by simp
next
  case (2 w c cs)
  then show ?case by (auto split: if_splits)
qed

lemma set_join: "set (join sep xs) \<subseteq> set sep \<union> \<Union> (set ` set xs)"
  by (induction sep xs rule: join.induct) auto

lemma set_collapse: "set (collapse s) \<subseteq> insert (CHR '' '') (set s)"
  using set_join [of "'' ''" "split_ws s"] set_words_acc [of "[]" s]
  by (auto simp: collapse_def split_ws_def)

lemma length_join:
  "length (join sep xs) = sum_list (map length xs) + length sep * (length xs - 1)"
  by (induction sep xs rule: join.induct) (auto simp: algebra_simps)

lemma join_Cons: "xs \<noteq> [] \<Longrightarrow> join sep (x # xs) = x @ sep @ join sep xs"
  by (cases xs) auto

lemma lower_append [simp]: "lower (xs @ ys) = lower xs @ lower ys"
  by (simp add: lower_def)

lemma lower_join: "lower (join sep xs) = join (lower sep) (map lower xs)"
  by (induction sep xs rule: join.induct) (auto simp: lower_def)

lemma sublistI: "ys = us @ xs @ vs \<Longrightarrow> sublist xs ys"
  by simp

lemma sublist_lower: "sublist xs ys \<Longrightarrow> sublist (lower xs) (lower ys)"
  by (auto simp: sublist_def [of xs])

text \<open>A phrase whose words are separated by single blanks survives the collapsing of
  whitespace around and inside the text that contains it.\<close>

fun tight_tail :: "string \<Rightarrow> bool" where
  "tight_tail [] = True"
| "tight_tail (c # cs) =
     (if is_space c then c = CHR '' '' \<and> cs \<noteq> [] \<and> \<not> is_space (hd cs) \<and> tight_tail cs
      else tight_tail cs)"

definition tight :: "string \<Rightarrow> bool" where
  "tight p = (p \<noteq> [] \<and> \<not> is_space (hd p) \<and> tight_tail p)"

lemma words_acc_start: "w \<noteq> [] \<Longrightarrow> \<exists>r. join '' '' (words_acc w v) = rev w @ r"
proof (induction v arbitrary: w)
  case Nil
  then show ?case by simp
next
  case (Cons c v)
  show ?case
  proof (cases "is_space c")
    case True
    with Cons.prems show ?thesis
      by (cases "words_acc [] v = []") (auto simp: join_Cons)
  next
    case False
    from Cons.IH [of "c # w"] obtain r where "join '' '' (words_acc (c # w) v) = rev (c # w) @ r"
      by auto
    with False show ?thesis by simp
  qed
qed

lemma words_acc_tight:
  "tight_tail p \<Longrightarrow> w \<noteq> [] \<or> p \<noteq> [] \<and> \<not> is_space (hd p) \<Longrightarrow>
   \<exists>r. join '' '' (words_acc w (p @ v)) = rev w @ p @ r"
proof (induction p arbitrary: w)
  case Nil
  then show ?case using words_acc_start [of w v] by simp
next
  case (Cons c p)
  show ?case
  proof (cases "is_space c")
    case True
    with Cons.prems have c: "c = CHR '' ''" and p: "p \<noteq> []" "\<not> is_space (hd p)" "tight_tail p"
      and w: "w \<noteq> []" by auto
    from Cons.IH [OF p(3), of "[]"] p obtain r where r: "join '' '' (words_acc [] (p @ v)) = p @ r"
      by auto
    with p(1) have "words_acc [] (p @ v) \<noteq> []" by auto
    with True w c r show ?thesis by (simp add: join_Cons)
  next
    case False
    with Cons.prems have "tight_tail p" by simp
    from Cons.IH [OF this, of "c # w"] False show ?thesis by simp
  qed
qed

lemma words_acc_skip: "\<exists>x w'. join '' '' (words_acc w (u @ s)) = x @ join '' '' (words_acc w' s)"
proof (induction u arbitrary: w)
  case Nil
  show ?case by (intro exI [of _ "[]"] exI [of _ w]) simp
next
  case (Cons c u)
  obtain x w' where IH: "join '' '' (words_acc [] (u @ s)) = x @ join '' '' (words_acc w' s)"
    using Cons.IH by blast
  show ?case
  proof (cases "is_space c \<and> w \<noteq> []")
    case True
    then show ?thesis
    proof (cases "words_acc [] (u @ s) = []")
      case True
      with IH \<open>is_space c \<and> w \<noteq> []\<close> show ?thesis
        by (intro exI [of _ "rev w"] exI [of _ w']) simp
    next
      case False
      with IH \<open>is_space c \<and> w \<noteq> []\<close> show ?thesis
        by (intro exI [of _ "rev w @ '' '' @ x"] exI [of _ w']) (simp add: join_Cons)
    qed
  next
    case False
    then show ?thesis using Cons.IH [of w] Cons.IH [of "c # w"] IH by auto
  qed
qed

lemma sublist_collapse:
  assumes "tight p" "sublist p t"
  shows "sublist p (collapse t)"
proof -
  obtain u v where t: "t = u @ p @ v" using assms(2) by (auto simp: sublist_def)
  obtain x w where x: "join '' '' (words_acc [] (u @ p @ v)) = x @ join '' '' (words_acc w (p @ v))"
    using words_acc_skip by blast
  obtain r where "join '' '' (words_acc w (p @ v)) = rev w @ p @ r"
    using words_acc_tight [of p w v] assms(1) by (auto simp: tight_def)
  with x have "collapse t = (x @ rev w) @ p @ r"
    by (simp add: collapse_def split_ws_def t)
  then show ?thesis by (rule sublistI)
qed

text \<open>A phrase in lower case with single blanks is its own normal form.\<close>

definition plain :: "string \<Rightarrow> bool" where
  "plain p = (tight p \<and> lower p = p)"

lemma words_acc_tight_id:
  "tight_tail p \<Longrightarrow> w \<noteq> [] \<or> p \<noteq> [] \<and> \<not> is_space (hd p) \<Longrightarrow>
   join '' '' (words_acc w p) = rev w @ p"
proof (induction p arbitrary: w)
  case Nil
  then show ?case by simp
next
  case (Cons c p)
  show ?case
  proof (cases "is_space c")
    case True
    with Cons.prems have c: "c = CHR '' ''" and p: "p \<noteq> []" "\<not> is_space (hd p)" "tight_tail p"
      and w: "w \<noteq> []" by auto
    from Cons.IH [OF p(3), of "[]"] p have r: "join '' '' (words_acc [] p) = p" by simp
    with p(1) have "words_acc [] p \<noteq> []" by auto
    with True w c r show ?thesis by (simp add: join_Cons)
  next
    case False
    with Cons.prems have "tight_tail p" by simp
    from Cons.IH [OF this, of "c # w"] False show ?thesis by simp
  qed
qed

lemma plain_normal: "plain p \<Longrightarrow> collapse (lower p) = p"
  using words_acc_tight_id [of p "[]"]
  by (auto simp: plain_def tight_def collapse_def split_ws_def)

lemma plain_occurs: "plain p \<Longrightarrow> sublist p (lower t) \<Longrightarrow> sublist p (collapse (lower t))"
  by (simp add: plain_def sublist_collapse)

text \<open>Splitting ignores surrounding whitespace and commutes with lower-casing.\<close>

lemma words_acc_spaces: "list_all is_space sp \<Longrightarrow> words_acc w (t @ sp) = words_acc w t"
proof (induction t arbitrary: w)
  case Nil
  have "words_acc [] sp = []" using Nil by (induction sp) auto
  with Nil show ?case by (cases sp) auto
qed auto

lemma split_ws_lstrip: "split_ws (lstrip s) = split_ws s"
  by (induction s) (auto simp: split_ws_def lstrip_def)

lemma split_ws_rstrip: "split_ws (rstrip_if is_space s) = split_ws s"
proof -
  have "s = rstrip_if is_space s @ rev (takeWhile is_space (rev s))"
    unfolding rstrip_if_def by (metis rev_append rev_rev_ident takeWhile_dropWhile_id)
  moreover have "list_all is_space (rev (takeWhile is_space (rev s)))"
    by (auto simp: list_all_iff dest: set_takeWhileD)
  ultimately show ?thesis unfolding split_ws_def by (metis words_acc_spaces)
qed

lemma split_ws_strip [simp]: "split_ws (strip s) = split_ws s"
  by (simp add: strip_def split_ws_rstrip split_ws_lstrip)

lemma join_split:
  "x \<in> set xs \<Longrightarrow> \<exists>u v. join sep xs = u @ x @ v \<and> (u = [] \<or> suffix sep u) \<and> (v = [] \<or> prefix sep v)"
proof (induction sep xs rule: join.induct)
  case (2 sep y)
  then show ?case by (intro exI [of _ "[]"] exI [of _ "[]"]) simp
next
  case (3 sep y z zs)
  show ?case
  proof (cases "x = y")
    case True
    then show ?thesis
      by (intro exI [of _ "[]"] exI [of _ "sep @ join sep (z # zs)"]) simp
  next
    case False
    with 3 obtain u v where uv: "join sep (z # zs) = u @ x @ v" "u = [] \<or> suffix sep u"
      "v = [] \<or> prefix sep v" by auto
    then have "join sep (y # z # zs) = (y @ sep @ u) @ x @ v" by simp
    moreover have "suffix sep (y @ sep @ u)" using uv(2)
      by (metis append.right_neutral append_assoc suffix_appendI suffix_def)
    ultimately show ?thesis using uv(3) by blast
  qed
qed simp

lemma sum_length_join: "sum_list (map length xs) \<le> length (join sep xs)"
  by (simp add: length_join)

lemma prefix_take: "prefix (take n xs) xs"
  by (metis append_take_drop_id prefixI)

section \<open>The outside world: identifiers and clocks\<close>

text \<open>
  \<open>w_ms n\<close> is what \<open>int(time.time() * 1000)\<close> and \<open>w_rand n\<close> what
  \<open>secrets.randbits(80)\<close> give to the \<open>n\<close>-th call of \<open>new_ulid\<close>; \<open>w_wall n\<close> is the
  \<open>n\<close>-th reading of \<open>datetime.now(UTC)\<close> in microseconds, \<open>w_mono n\<close> the \<open>n\<close>-th
  reading of \<open>time.monotonic\<close> in seconds.
\<close>

record world =
  w_ms :: "nat \<Rightarrow> nat"
  w_rand :: "nat \<Rightarrow> nat"
  w_ids :: nat
  w_wall :: "nat \<Rightarrow> int"
  w_walls :: nat
  w_mono :: "nat \<Rightarrow> rat"
  w_monos :: nat

definition utc_now :: "'a world_scheme \<Rightarrow> int \<times> 'a world_scheme" where
  "utc_now w = (w_wall w (w_walls w), w\<lparr>w_walls := Suc (w_walls w)\<rparr>)"

definition monotonic :: "'a world_scheme \<Rightarrow> rat \<times> 'a world_scheme" where
  "monotonic w = (w_mono w (w_monos w), w\<lparr>w_monos := Suc (w_monos w)\<rparr>)"

end
