(* ===== verification/Json.thy ===== *)
theory Json
  imports Prelude
begin

text \<open>
  The dynamic values of the program: what \<open>json.loads\<close> and \<open>yaml.safe_load\<close> return, with
  string keys, and tuples, which the redactor also accepts. A finite float is its shortest decimal numeral
  \<open>m * 10 ^ e\<close>, the one that \<open>repr\<close> prints. \<open>None\<close> is \<open>JNull\<close>.
\<close>

datatype json =
    JNull
  | JBool bool
  | JInt int
  | JFloat int int
  | JStr string
  | JList "json list"
  | JTuple "json list"
  | JObj "(string \<times> json) list"

type_synonym jdict = "(string \<times> json) list"

definition float_val :: "int \<Rightarrow> int \<Rightarrow> rat" where
  "float_val m e = (if 0 \<le> e then of_int m * 10 ^ nat e else of_int m / 10 ^ nat (- e))"

text \<open>\<open>bool(value)\<close>.\<close>

fun truthy :: "json \<Rightarrow> bool" where
  "truthy JNull = False"
| "truthy (JBool b) = b"
| "truthy (JInt i) = (i \<noteq> 0)"
| "truthy (JFloat m e) = (m \<noteq> 0)"
| "truthy (JStr s) = (s \<noteq> [])"
| "truthy (JList xs) = (xs \<noteq> [])"
| "truthy (JTuple xs) = (xs \<noteq> [])"
| "truthy (JObj d) = (d \<noteq> [])"

text \<open>\<open>d.get(k)\<close> and \<open>d.get(k, v)\<close>.\<close>

definition dget :: "jdict \<Rightarrow> string \<Rightarrow> json" where
  "dget d k = (case map_of d k of None \<Rightarrow> JNull | Some v \<Rightarrow> v)"

definition dget_or :: "jdict \<Rightarrow> string \<Rightarrow> json \<Rightarrow> json" where
  "dget_or d k v = (case map_of d k of None \<Rightarrow> v | Some x \<Rightarrow> x)"

section \<open>Printing\<close>

definition pad2 :: "nat \<Rightarrow> string" where
  "pad2 n = (if n < 10 then ''0'' @ nat_str n else nat_str n)"

definition float_repr :: "int \<Rightarrow> int \<Rightarrow> string" where
  "float_repr m e =
     (let d = nat_str (nat \<bar>m\<bar>); p = int (length d) + e; sg = (if m < 0 then ''-'' else '''') in
      sg @ (if p \<le> -4 \<or> 16 < p
            then take 1 d @ (if length d = 1 then '''' else ''.'' @ drop 1 d) @ ''e''
                 @ (if p - 1 < 0 then ''-'' else ''+'') @ pad2 (nat \<bar>p - 1\<bar>)
            else if p \<le> 0 then ''0.'' @ replicate (nat (- p)) (CHR ''0'') @ d
            else if int (length d) \<le> p then d @ replicate (nat (p - int (length d))) (CHR ''0'') @ ''.0''
            else take (nat p) d @ ''.'' @ drop (nat p) d))"

definition hex_digit :: "nat \<Rightarrow> char" where
  "hex_digit n = (if n < 10 then char_of (48 + n) else char_of (87 + n))"

definition is_printable :: "char \<Rightarrow> bool" where
  "is_printable c = (let n = ord c in 32 \<le> n \<and> n \<le> 126 \<or> 161 \<le> n \<and> n \<noteq> 173)"

definition escape_char :: "char \<Rightarrow> char \<Rightarrow> string" where
  "escape_char q c =
     (if c = q \<or> ord c = 92 then [CHR 92, c]
      else if ord c = 9 then [CHR 92, CHR ''t'']
      else if ord c = 10 then [CHR 92, CHR ''n'']
      else if ord c = 13 then [CHR 92, CHR ''r'']
      else if is_printable c then [c]
      else [CHR 92, CHR ''x'', hex_digit (ord c div 16), hex_digit (ord c mod 16)])"

definition str_repr :: "string \<Rightarrow> string" where
  "str_repr s =
     (let q = (if CHR 39 \<in> set s \<and> CHR 34 \<notin> set s then CHR 34 else CHR 39)
      in [q] @ concat (map (escape_char q) s) @ [q])"

fun py_repr :: "json \<Rightarrow> string" where
  "py_repr JNull = ''None''"
| "py_repr (JBool b) = (if b then ''True'' else ''False'')"
| "py_repr (JInt i) = int_str i"
| "py_repr (JFloat m e) = float_repr m e"
| "py_repr (JStr s) = str_repr s"
| "py_repr (JList xs) = ''['' @ join '', '' (map py_repr xs) @ '']''"
| "py_repr (JTuple xs) =
     ''('' @ join '', '' (map py_repr xs) @ (if length xs = 1 then '','' else '''') @ '')''"
| "py_repr (JObj d) =
     ''{'' @ join '', '' (map (\<lambda>(k, v). str_repr k @ '': '' @ py_repr v) d) @ ''}''"

text \<open>\<open>str(value)\<close>.\<close>

fun py_str :: "json \<Rightarrow> string" where
  "py_str (JStr s) = s"
| "py_str v = py_repr v"

section \<open>Searching a dictionary for the first matching string\<close>

text \<open>
  \<open>extract_target\<close>, \<open>extract_command\<close>, \<open>_extract_file_path\<close>, \<open>_extract_exec_command\<close> and
  \<open>extract_destination\<close> share one body, up to the tuple of keys: the first key that holds
  a string wins, then the nested dictionaries are searched in order for a non-empty result.
\<close>

fun first_str :: "string list \<Rightarrow> jdict \<Rightarrow> string option" where
  "first_str [] d = None"
| "first_str (k # ks) d = (case dget d k of JStr s \<Rightarrow> Some s | _ \<Rightarrow> first_str ks d)"

fun extract_keyed :: "string list \<Rightarrow> json \<Rightarrow> string option"
and extract_nested :: "string list \<Rightarrow> jdict \<Rightarrow> string option" where
  "extract_keyed ks (JObj d) =
     (case first_str ks d of Some s \<Rightarrow> Some s | None \<Rightarrow> extract_nested ks d)"
| "extract_keyed ks _ = None"
| "extract_nested ks [] = None"
| "extract_nested ks ((k, v) # d) =
     (case extract_keyed ks v of
        Some s \<Rightarrow> if s \<noteq> [] then Some s else extract_nested ks d
      | None \<Rightarrow> extract_nested ks d)"

definition extract_opt :: "string list \<Rightarrow> jdict option \<Rightarrow> string option" where
  "extract_opt ks a = (case a of None \<Rightarrow> None | Some d \<Rightarrow> extract_keyed ks (JObj d))"

text \<open>Every string held at a key of the list, at any depth below dictionaries.\<close>

fun keyed_strings :: "string list \<Rightarrow> json \<Rightarrow> string set" where
  "keyed_strings ks (JObj d) =
     {s. \<exists>k \<in> set ks. map_of d k = Some (JStr s)} \<union> (\<Union>(k, v) \<in> set d. keyed_strings ks v)"
| "keyed_strings ks _ = {}"

lemma dget_simps [simp]:
  "dget [] k = JNull"
  "dget ((k', v) # d) k = (if k' = k then v else dget d k)"
  by (simp_all add: dget_def)

lemma dget_dset [simp]: "dget (dset k v d) k' = (if k' = k then v else dget d k')"
  by (simp add: dget_def)

lemma first_str_Some: "first_str ks d = Some s \<Longrightarrow> \<exists>k \<in> set ks. map_of d k = Some (JStr s)"
  by (induction ks d rule: first_str.induct) (auto simp: dget_def split: json.splits option.splits)

lemma extract_sound:
  "extract_keyed ks v = Some s \<Longrightarrow> s \<in> keyed_strings ks v"
  "extract_nested ks d = Some s \<Longrightarrow> \<exists>(k, v) \<in> set d. s \<in> keyed_strings ks v"
  by (induction ks v and ks d rule: extract_keyed_extract_nested.induct)
    (fastforce split: option.splits if_splits dest: first_str_Some)+

lemma first_str_None:
  "first_str ks d = None \<Longrightarrow> k \<in> set ks \<Longrightarrow> map_of d k \<noteq> Some (JStr s)"
  by (induction ks d rule: first_str.induct) (auto simp: dget_def split: json.splits option.splits)

end
