(* ===== verification/Core.thy ===== *)
theory Core
  imports Json "HOL-Library.List_Lexorder" "HOL-Library.Char_ord"
begin

text \<open>
  The data contracts of \<open>src/zeroadr/core\<close>: identifiers, events, findings, policy decisions,
  approval requests and gate audit records, with their constructors. The string literals of
  the source are constructors of enumeration types; the \<open>_str\<close> functions give the literal
  back where the code compares or prints it. A \<open>datetime\<close> is its number of microseconds
  since the epoch. Identifiers and times are taken from the \<open>world\<close>.
\<close>

section \<open>Exceptions\<close>

text \<open>\<open>LLMProviderError\<close> carries its code and its message; every other exception is its class
  name.\<close>

datatype exn = LLMProviderError string string | PyError string

text \<open>\<open>value or default\<close> for an optional text.\<close>

definition str_or :: "string option \<Rightarrow> string \<Rightarrow> string" where
  "str_or v dflt = (case v of None \<Rightarrow> dflt | Some s \<Rightarrow> if s = [] then dflt else s)"

section \<open>Identifiers\<close>

definition CROCKFORD :: string where
  "CROCKFORD = ''0123456789ABCDEFGHJKMNPQRSTVWXYZ''"

text \<open>The loop of \<open>new_ulid\<close>: the five lowest bits give the next character.\<close>

fun ulid_chars :: "nat \<Rightarrow> nat \<Rightarrow> string" where
  "ulid_chars 0 v = []"
| "ulid_chars (Suc n) v = CROCKFORD ! (v mod 32) # ulid_chars n (v div 32)"

definition ulid_of :: "nat \<Rightarrow> nat \<Rightarrow> string" where
  "ulid_of timestamp_ms random_bits = rev (ulid_chars 26 (timestamp_ms * 2 ^ 80 + random_bits))"

definition new_ulid :: "'a world_scheme \<Rightarrow> string \<times> 'a world_scheme" where
  "new_ulid w = (ulid_of (w_ms w (w_ids w)) (w_rand w (w_ids w)), w\<lparr>w_ids := Suc (w_ids w)\<rparr>)"

section \<open>Events\<close>

datatype event_type =
    SessionStart | AgentInputReceived | ToolCallRequested | ToolCallCompleted
  | ToolCallFailed | PolicyEvaluated | ApprovalResolved

fun event_type_str :: "event_type \<Rightarrow> string" where
  "event_type_str SessionStart = ''session.start''"
| "event_type_str AgentInputReceived = ''agent.input.received''"
| "event_type_str ToolCallRequested = ''tool.call.requested''"
| "event_type_str ToolCallCompleted = ''tool.call.completed''"
| "event_type_str ToolCallFailed = ''tool.call.failed''"
| "event_type_str PolicyEvaluated = ''policy.evaluated''"
| "event_type_str ApprovalResolved = ''approval.resolved''"

datatype source_type = McpGateway | Replay | Hook | EndpointSensor

fun source_type_str :: "source_type \<Rightarrow> string" where
  "source_type_str McpGateway = ''mcp_gateway''"
| "source_type_str Replay = ''replay''"
| "source_type_str Hook = ''hook''"
| "source_type_str EndpointSensor = ''endpoint_sensor''"

datatype user_consent = ConsentExplicit | ConsentAbsent | ConsentUnknown
datatype task_alignment = Aligned | Misaligned | AlignmentUnknown
datatype data_handling = LocalOnly | External | HandlingUnknown
datatype injection_evidence = InjectionPresent | InjectionAbsent | InjectionUnknown

record security_context =
  sc_user_consent :: user_consent
  sc_task_alignment :: task_alignment
  sc_data_handling :: data_handling
  sc_injection_evidence :: injection_evidence

datatype request_id = RStr string | RInt int

record runtime_event =
  ev_id :: string
  ev_type :: event_type
  ev_time :: int
  ev_ingest :: int
  ev_source :: source_type
  ev_session :: string
  ev_request :: "request_id option"
  ev_server :: "string option"
  ev_tool :: "string option"
  ev_capability :: "string option"
  ev_context :: "security_context option"
  ev_arguments :: "jdict option"
  ev_result :: json
  ev_error :: "jdict option"
  ev_raw :: jdict

text \<open>\<open>new_event\<close>: one clock reading serves both times, \<open>raw or {}\<close> is the identity on
  dictionaries.\<close>

definition new_event ::
  "event_type \<Rightarrow> source_type \<Rightarrow> string \<Rightarrow> request_id option \<Rightarrow> string option \<Rightarrow> string option \<Rightarrow>
   string option \<Rightarrow> security_context option \<Rightarrow> jdict option \<Rightarrow> json \<Rightarrow> jdict option \<Rightarrow> jdict \<Rightarrow>
   'a world_scheme \<Rightarrow> runtime_event \<times> 'a world_scheme" where
  "new_event ty src sess req srv tool cap ctx args res err raw w =
     (let (now, w) = utc_now w; (i, w) = new_ulid w in
      (\<lparr>ev_id = i, ev_type = ty, ev_time = now, ev_ingest = now, ev_source = src,
        ev_session = sess, ev_request = req, ev_server = srv, ev_tool = tool,
        ev_capability = cap, ev_context = ctx, ev_arguments = args, ev_result = res,
        ev_error = err, ev_raw = raw\<rparr>, w))"

section \<open>Findings\<close>

datatype severity = Low | Medium | High | Critical

fun severity_str :: "severity \<Rightarrow> string" where
  "severity_str Low = ''low''"
| "severity_str Medium = ''medium''"
| "severity_str High = ''high''"
| "severity_str Critical = ''critical''"

record finding =
  fi_id :: string
  fi_rule :: string
  fi_title :: string
  fi_severity :: severity
  fi_confidence :: rat
  fi_session :: string
  fi_events :: "string list"
  fi_capability :: string
  fi_target :: string
  fi_explanation :: string

definition new_finding ::
  "string \<Rightarrow> string \<Rightarrow> severity \<Rightarrow> rat \<Rightarrow> string \<Rightarrow> string list \<Rightarrow> string \<Rightarrow> string \<Rightarrow> string \<Rightarrow>
   'a world_scheme \<Rightarrow> finding \<times> 'a world_scheme" where
  "new_finding rule title sev conf sess evs cap target expl w =
     (let (i, w) = new_ulid w in
      (\<lparr>fi_id = i, fi_rule = rule, fi_title = title, fi_severity = sev, fi_confidence = conf,
        fi_session = sess, fi_events = evs, fi_capability = cap, fi_target = target,
        fi_explanation = expl\<rparr>, w))"

section \<open>Policy decisions\<close>

datatype policy_action = Allow | Alert | Block | RequireApproval

fun action_str :: "policy_action \<Rightarrow> string" where
  "action_str Allow = ''allow''"
| "action_str Alert = ''alert''"
| "action_str Block = ''block''"
| "action_str RequireApproval = ''require_approval''"

record policy_decision =
  pd_id :: string
  pd_policy :: "string option"
  pd_action :: policy_action
  pd_reason :: string
  pd_session :: string
  pd_event :: string
  pd_findings :: "string list"
  pd_created :: int

definition new_policy_decision ::
  "string option \<Rightarrow> policy_action \<Rightarrow> string \<Rightarrow> string \<Rightarrow> string \<Rightarrow> string list \<Rightarrow>
   'a world_scheme \<Rightarrow> policy_decision \<times> 'a world_scheme" where
  "new_policy_decision pol act reason sess ev fids w =
     (let (i, w) = new_ulid w; (now, w) = utc_now w in
      (\<lparr>pd_id = i, pd_policy = pol, pd_action = act, pd_reason = reason, pd_session = sess,
        pd_event = ev, pd_findings = fids, pd_created = now\<rparr>, w))"

section \<open>Approval requests\<close>

datatype approval_status = Pending | Approved | Denied | Expired

fun status_str :: "approval_status \<Rightarrow> string" where
  "status_str Pending = ''pending''"
| "status_str Approved = ''approved''"
| "status_str Denied = ''denied''"
| "status_str Expired = ''expired''"

datatype gate_stage = StageAgentInput | StagePreTool | StageToolResult

record approval_request =
  ap_id :: string
  ap_decision :: string
  ap_session :: string
  ap_event :: string
  ap_request :: "request_id option"
  ap_policy :: "string option"
  ap_reason :: string
  ap_findings :: "string list"
  ap_tool :: "string option"
  ap_capability :: "string option"
  ap_arguments :: "jdict option"
  ap_stage :: gate_stage
  ap_result_preview :: json
  ap_evidence_preview :: json
  ap_status :: approval_status
  ap_created :: int
  ap_resolved_at :: "int option"
  ap_resolved_by :: "string option"
  ap_comment :: "string option"

definition new_approval_request ::
  "string \<Rightarrow> string \<Rightarrow> string \<Rightarrow> request_id option \<Rightarrow> string option \<Rightarrow> string \<Rightarrow> string list \<Rightarrow>
   string option \<Rightarrow> string option \<Rightarrow> jdict option \<Rightarrow> gate_stage \<Rightarrow> json \<Rightarrow> json \<Rightarrow>
   'a world_scheme \<Rightarrow> approval_request \<times> 'a world_scheme" where
  "new_approval_request dec sess ev req pol reason fids tool cap args stage respv evpv w =
     (let (i, w) = new_ulid w; (now, w) = utc_now w in
      (\<lparr>ap_id = i, ap_decision = dec, ap_session = sess, ap_event = ev, ap_request = req,
        ap_policy = pol, ap_reason = reason, ap_findings = fids, ap_tool = tool,
        ap_capability = cap, ap_arguments = args, ap_stage = stage, ap_result_preview = respv,
        ap_evidence_preview = evpv, ap_status = Pending, ap_created = now,
        ap_resolved_at = None, ap_resolved_by = None, ap_comment = None\<rparr>, w))"

section \<open>Gate audit records\<close>

datatype gate_mode = Shadow | Enforce
datatype gate_review = Rules | Hybrid

record runtime_gate_record =
  rg_id :: string
  rg_session :: string
  rg_event :: string
  rg_created :: int
  rg_stage :: gate_stage
  rg_mode :: gate_mode
  rg_review :: gate_review
  rg_base :: policy_action
  rg_proposed :: policy_action
  rg_effective :: policy_action
  rg_findings :: "string list"
  rg_rules :: "string list"
  rg_adjudication :: "string option"
  rg_approval :: "string option"
  rg_verdict :: "string option"
  rg_confidence :: "rat option"
  rg_capability :: "string option"
  rg_target_sha256 :: "string option"
  rg_executed :: bool
  rg_delivered :: bool
  rg_compromised :: bool
  rg_truncated :: bool
  rg_latency_ms :: int
  rg_error :: "string option"

record tool_result_gate_record =
  tg_id :: string
  tg_session :: string
  tg_event :: string
  tg_request :: "request_id option"
  tg_created :: int
  tg_mode :: gate_mode
  tg_review :: gate_review
  tg_base :: policy_action
  tg_proposed :: policy_action
  tg_effective :: policy_action
  tg_findings :: "string list"
  tg_rules :: "string list"
  tg_adjudication :: "string option"
  tg_approval :: "string option"
  tg_approval_status :: "approval_status option"
  tg_verdict :: "string option"
  tg_confidence :: "rat option"
  tg_bytes :: nat
  tg_truncated :: bool
  tg_latency_ms :: int
  tg_error :: "string option"
  tg_preview :: json

record session_trace =
  st_session :: string
  st_events :: "runtime_event list"
  st_findings :: "finding list"
  st_decisions :: "policy_decision list"

section \<open>What a constructor fills in\<close>

lemma new_ulid_frame [frame_simps]:
  "w_ms (snd (new_ulid w)) = w_ms w" "w_rand (snd (new_ulid w)) = w_rand w"
  "w_wall (snd (new_ulid w)) = w_wall w" "w_walls (snd (new_ulid w)) = w_walls w"
  "w_ids (snd (new_ulid w)) = Suc (w_ids w)"
  "world.more (snd (new_ulid w)) = world.more w"
  by (simp_all add: new_ulid_def)

lemma new_finding_sel [simp]:
  "fi_rule (fst (new_finding r t s c se ev ca ta ex w)) = r"
  "fi_title (fst (new_finding r t s c se ev ca ta ex w)) = t"
  "fi_severity (fst (new_finding r t s c se ev ca ta ex w)) = s"
  "fi_confidence (fst (new_finding r t s c se ev ca ta ex w)) = c"
  "fi_session (fst (new_finding r t s c se ev ca ta ex w)) = se"
  "fi_events (fst (new_finding r t s c se ev ca ta ex w)) = ev"
  "fi_capability (fst (new_finding r t s c se ev ca ta ex w)) = ca"
  "fi_target (fst (new_finding r t s c se ev ca ta ex w)) = ta"
  "fi_explanation (fst (new_finding r t s c se ev ca ta ex w)) = ex"
  "fi_id (fst (new_finding r t s c se ev ca ta ex w)) = fst (new_ulid w)"
  "snd (new_finding r t s c se ev ca ta ex w) = snd (new_ulid w)"
  by (simp_all add: new_finding_def case_prod_beta Let_def)

lemma new_event_sel [simp]:
  "ev_type (fst (new_event ty src se rq sv to ca cx ar re er ra w)) = ty"
  "ev_source (fst (new_event ty src se rq sv to ca cx ar re er ra w)) = src"
  "ev_session (fst (new_event ty src se rq sv to ca cx ar re er ra w)) = se"
  "ev_request (fst (new_event ty src se rq sv to ca cx ar re er ra w)) = rq"
  "ev_server (fst (new_event ty src se rq sv to ca cx ar re er ra w)) = sv"
  "ev_tool (fst (new_event ty src se rq sv to ca cx ar re er ra w)) = to"
  "ev_capability (fst (new_event ty src se rq sv to ca cx ar re er ra w)) = ca"
  "ev_arguments (fst (new_event ty src se rq sv to ca cx ar re er ra w)) = ar"
  "ev_result (fst (new_event ty src se rq sv to ca cx ar re er ra w)) = re"
  "ev_error (fst (new_event ty src se rq sv to ca cx ar re er ra w)) = er"
  "ev_raw (fst (new_event ty src se rq sv to ca cx ar re er ra w)) = ra"
  by (simp_all add: new_event_def case_prod_beta Let_def)

lemma new_policy_decision_sel [simp]:
  "pd_policy (fst (new_policy_decision p a r se ev fs w)) = p"
  "pd_action (fst (new_policy_decision p a r se ev fs w)) = a"
  "pd_reason (fst (new_policy_decision p a r se ev fs w)) = r"
  "pd_session (fst (new_policy_decision p a r se ev fs w)) = se"
  "pd_event (fst (new_policy_decision p a r se ev fs w)) = ev"
  "pd_findings (fst (new_policy_decision p a r se ev fs w)) = fs"
  by (simp_all add: new_policy_decision_def case_prod_beta Let_def)

lemma new_approval_request_sel [simp]:
  "ap_session (fst (new_approval_request d se ev rq p r fs t c a sg rp ep w)) = se"
  "ap_event (fst (new_approval_request d se ev rq p r fs t c a sg rp ep w)) = ev"
  "ap_arguments (fst (new_approval_request d se ev rq p r fs t c a sg rp ep w)) = a"
  "ap_stage (fst (new_approval_request d se ev rq p r fs t c a sg rp ep w)) = sg"
  "ap_status (fst (new_approval_request d se ev rq p r fs t c a sg rp ep w)) = Pending"
  by (simp_all add: new_approval_request_def case_prod_beta Let_def)

section \<open>Identifiers sort by creation time\<close>

lemma length_ulid_chars [simp]: "length (ulid_chars n v) = n"
  by (induction n v rule: ulid_chars.induct) auto

lemma crockford_length: "length CROCKFORD = 32"
  by (simp add: CROCKFORD_def)

lemma crockford_sorted: "sorted_wrt (<) CROCKFORD"
  unfolding CROCKFORD_def by code_simp

lemma crockford_mono: "i < j \<Longrightarrow> j < 32 \<Longrightarrow> CROCKFORD ! i < CROCKFORD ! j"
  using crockford_sorted by (simp add: sorted_wrt_iff_nth_less crockford_length)

lemma ulid_chars_set: "set (ulid_chars n v) \<subseteq> set CROCKFORD"
  by (induction n v rule: ulid_chars.induct) (auto simp: crockford_length)

lemma lex_less_append:
  fixes xs ys :: string
  shows "length xs = length ys \<Longrightarrow> xs < ys \<Longrightarrow> xs @ us < ys @ vs"
  by (induction xs ys rule: list_induct2) auto

lemma lex_less_last:
  fixes xs :: string
  shows "a < b \<Longrightarrow> xs @ [a] < xs @ [b]"
  by (induction xs) auto

lemma ulid_chars_mono:
  "v < v' \<Longrightarrow> v' < 32 ^ n \<Longrightarrow> rev (ulid_chars n v) < rev (ulid_chars n v')"
proof (induction n arbitrary: v v')
  case 0
  then show ?case by simp
next
  case (Suc n)
  from Suc.prems have hi: "v' div 32 < 32 ^ n"
    by (simp add: div_less_iff_less_mult mult.commute)
  show ?case
  proof (cases "v div 32 < v' div 32")
    case True
    from Suc.IH [OF this hi] show ?thesis by (simp add: lex_less_append)
  next
    case False
    with Suc.prems(1) have "v div 32 = v' div 32"
      by (meson div_le_mono le_antisym less_imp_le_nat not_less)
    moreover with Suc.prems(1) have "v mod 32 < v' mod 32"
      by (metis div_mult_mod_eq nat_add_left_cancel_less)
    ultimately show ?thesis
      by (simp add: lex_less_last crockford_mono)
  qed
qed

lemma ulid_value_less:
  assumes "r < 2 ^ 80" "r' < 2 ^ 80" "t < t' \<or> t = t' \<and> r < r'"
  shows "t * 2 ^ 80 + r < t' * 2 ^ 80 + (r' :: nat)"
proof (cases "t < t'")
  case True
  then have "(t + 1) * 2 ^ 80 \<le> t' * 2 ^ 80" by (intro mult_le_mono1) simp
  moreover have "(t + 1) * 2 ^ 80 = t * 2 ^ 80 + (2 ^ 80 :: nat)" by simp
  ultimately show ?thesis using assms(1) by linarith
next
  case False
  with assms(3) show ?thesis by simp
qed

lemma ulid_value_bound:
  assumes "t < 2 ^ 50" "r < 2 ^ 80"
  shows "t * 2 ^ 80 + r < (32 ^ 26 :: nat)"
proof -
  have "t * 2 ^ 80 + r < (t + 1) * 2 ^ 80" using assms(2) by simp
  also have "\<dots> \<le> 2 ^ 50 * 2 ^ 80" using assms(1) by (intro mult_le_mono1) simp
  also have "\<dots> = (32 ^ 26 :: nat)" by simp
  finally show ?thesis .
qed

lemma ulid_of_less:
  assumes "r < 2 ^ 80" "r' < 2 ^ 80" "t' < 2 ^ 50" "t < t' \<or> t = t' \<and> r < r'"
  shows "ulid_of t r < ulid_of t' r'"
  unfolding ulid_of_def
  using ulid_chars_mono ulid_value_less [OF assms(1,2,4)] ulid_value_bound [OF assms(3,2)] by blast

text \<open>Identifiers made by \<open>new_ulid\<close> have 26 characters of the Crockford alphabet; for
  timestamps below 2^50 milliseconds and 80 random bits they are distinct for distinct
  inputs, and sorting them as strings sorts them by creation time.\<close>

theorem ulid_sorts_by_time:
  assumes "r < 2 ^ 80" "r' < 2 ^ 80" "t < 2 ^ 50" "t' < 2 ^ 50"
  shows "length (ulid_of t r) = 26 \<and> set (ulid_of t r) \<subseteq> set CROCKFORD \<and>
    (ulid_of t r = ulid_of t' r' \<longleftrightarrow> t = t' \<and> r = r') \<and>
    (ulid_of t r < ulid_of t' r' \<longleftrightarrow> t < t' \<or> t = t' \<and> r < r')"
proof -
  have shape: "length (ulid_of t r) = 26" "set (ulid_of t r) \<subseteq> set CROCKFORD"
    using ulid_chars_set by (simp_all add: ulid_of_def)
  have less: "ulid_of t r < ulid_of t' r'" if "t < t' \<or> t = t' \<and> r < r'"
    using assms that by (intro ulid_of_less)
  have greater: "ulid_of t' r' < ulid_of t r" if "t' < t \<or> t' = t \<and> r' < r"
    using assms that by (intro ulid_of_less)
  have "ulid_of t r = ulid_of t' r' \<longleftrightarrow> t = t' \<and> r = r'"
    using less greater by (metis less_irrefl linorder_neqE_nat)
  moreover have "ulid_of t r < ulid_of t' r' \<longleftrightarrow> t < t' \<or> t = t' \<and> r < r'"
    using less greater by (metis less_asym less_irrefl linorder_neqE_nat)
  ultimately show ?thesis using shape by blast
qed

theorem ulid_sorts_by_time_witness:
  "ulid_of 1700000000000 7 < ulid_of 1700000000001 3"
  using ulid_sorts_by_time [of 7 3 1700000000000 1700000000001] by simp

end
