(* ===== verification/Normalization.thy ===== *)
theory Normalization
  imports Core
begin

text \<open>
  \<open>src/zeroadr/normalization/capability_mapper.py\<close>: the capability of a tool is read off
  its name and description by an ordered list of keyword groups; the target is the first
  string found at a known key.
\<close>

record capability_mapping =
  cm_capability :: "string option"
  cm_target :: "string option"

definition READ_NAMES :: "string list" where
  "READ_NAMES = [''read'', ''get'', ''open'', ''cat'']"

definition WRITE_NAMES :: "string list" where
  "WRITE_NAMES = [''write'', ''edit'', ''save'', ''put'']"

definition SHELL_NAMES :: "string list" where
  "SHELL_NAMES = [''run'', ''exec'', ''shell'', ''bash'', ''spawn'']"

definition NETWORK_NAMES :: "string list" where
  "NETWORK_NAMES = [''fetch'', ''request'', ''http'', ''curl'', ''wget'', ''navigate'']"

definition NETWORK_POST_NAMES :: "string list" where
  "NETWORK_POST_NAMES = [''post'', ''http_post'', ''webhook'']"

definition MESSAGE_SEND_NAMES :: "string list" where
  "MESSAGE_SEND_NAMES = [''send_message'', ''message_send'']"

definition EMAIL_SEND_NAMES :: "string list" where
  "EMAIL_SEND_NAMES = [''send_email'', ''email_send'']"

definition DATA_READ_NAMES :: "string list" where
  "DATA_READ_NAMES =
     [''search'', ''query'', ''lookup'', ''list'', ''monitor'', ''database'', ''inspect'', ''view'']"

definition DATA_TRANSFORM_NAMES :: "string list" where
  "DATA_TRANSFORM_NAMES =
     [''summar'', ''analy'', ''calculat'', ''validat'', ''verify'', ''report'', ''forecast'',
      ''recommend'', ''classif'', ''convert'', ''parse'', ''format'', ''evaluat'']"

definition SYSTEM_MANAGE_NAMES :: "string list" where
  "SYSTEM_MANAGE_NAMES = [''manage'', ''update'', ''backup'', ''configure'', ''maintain'']"

definition TARGET_KEYS :: "string list" where
  "TARGET_KEYS =
     [''path'', ''file'', ''filename'', ''command'', ''cmd'', ''url'', ''uri'', ''endpoint'']"

definition any_in :: "string list \<Rightarrow> string \<Rightarrow> bool" where
  "any_in names haystack = (\<exists>n \<in> set names. sublist n haystack)"

definition capability_haystack :: "string option \<Rightarrow> string option \<Rightarrow> string" where
  "capability_haystack tool_name description =
     lower (join '' '' (filter (\<lambda>s. s \<noteq> []) (List.map_filter id [tool_name, description])))"

definition capability_of :: "string \<Rightarrow> string option" where
  "capability_of haystack =
     (if any_in EMAIL_SEND_NAMES haystack then Some ''email.send''
      else if any_in MESSAGE_SEND_NAMES haystack then Some ''message.send''
      else if any_in NETWORK_POST_NAMES haystack then Some ''network.http_post''
      else if any_in NETWORK_NAMES haystack then Some ''network.connect''
      else if any_in WRITE_NAMES haystack then Some ''filesystem.write''
      else if any_in READ_NAMES haystack \<or> sublist ''filesystem_read'' haystack
           then Some ''filesystem.read''
      else if any_in SHELL_NAMES haystack then Some ''shell.exec''
      else if any_in DATA_READ_NAMES haystack then Some ''data.read''
      else if any_in DATA_TRANSFORM_NAMES haystack then Some ''data.transform''
      else if any_in SYSTEM_MANAGE_NAMES haystack then Some ''system.manage''
      else None)"

definition extract_target :: "jdict option \<Rightarrow> string option" where
  "extract_target arguments = extract_opt TARGET_KEYS arguments"

definition map_capability ::
  "string option \<Rightarrow> jdict option \<Rightarrow> string option \<Rightarrow> capability_mapping" where
  "map_capability tool_name arguments description =
     \<lparr>cm_capability = capability_of (capability_haystack tool_name description),
      cm_target = extract_target arguments\<rparr>"

section \<open>Paths\<close>

text \<open>\<open>PurePosixPath\<close>: empty and \<open>.\<close> components vanish; exactly two leading slashes are a
  root of their own. \<open>path_name\<close> is the attribute \<open>name\<close>.\<close>

definition path_parts :: "string \<Rightarrow> string list" where
  "path_parts s = filter (\<lambda>p. p \<noteq> [] \<and> p \<noteq> ''.'') (split_at (CHR ''/'') s)"

definition path_root :: "string \<Rightarrow> string" where
  "path_root s =
     (if \<not> prefix ''/'' s then []
      else if prefix ''//'' s \<and> \<not> prefix ''///'' s then ''//'' else ''/'')"

definition path_str :: "string \<Rightarrow> string" where
  "path_str s =
     (let r = path_root s @ join ''/'' (path_parts s) in if r = [] then ''.'' else r)"

definition path_name :: "string \<Rightarrow> string" where
  "path_name s = (if path_parts s = [] then [] else last (path_parts s))"

definition normalize_path_display :: "string \<Rightarrow> string" where
  "normalize_path_display p = (if prefix ''~/'' p then p else path_str p)"

section \<open>Properties\<close>

lemma any_in_sublist: "any_in ns h \<Longrightarrow> sublist h h' \<Longrightarrow> any_in ns h'"
  unfolding any_in_def using sublist_order.order.trans by blast

text \<open>The target that the detectors see really occurs in the arguments.\<close>

lemma extract_target_sound:
  "extract_target (Some d) = Some s \<Longrightarrow> s \<in> keyed_strings TARGET_KEYS (JObj d)"
  unfolding extract_target_def extract_opt_def option.case by (rule extract_sound(1))

end
