(* ===== verification/FileDetect.thy ===== *)
theory FileDetect
  imports Normalization
begin

text \<open>\<open>src/zeroadr/detection/sensitive_file.py\<close>: reads of credential and environment files.\<close>

definition CRITICAL_SUFFIXES :: "string list" where
  "CRITICAL_SUFFIXES =
     [''/.ssh/id_rsa'', ''/.ssh/id_ed25519'', ''/.aws/credentials'', ''/.kube/config'',
      ''/.npmrc'', ''/.pypirc'']"

definition CRITICAL_NAMES :: "string list" where
  "CRITICAL_NAMES = [''.npmrc'', ''.pypirc'']"

definition classify_sensitive_path :: "string \<Rightarrow> severity option" where
  "classify_sensitive_path path_value =
     (let normalized = replace_char (CHR 92) (CHR ''/'') path_value in
      if suffix ''.env.example'' normalized then None
      else if path_name normalized = ''.env'' then Some High
      else let expanded_suffix =
             (if prefix ''~/'' normalized then ''/'' @ drop 2 normalized
              else if prefix ''/'' normalized then normalized else ''/'' @ normalized) in
           if \<exists>s \<in> set CRITICAL_SUFFIXES. suffix s expanded_suffix then Some Critical
           else if path_name normalized \<in> set CRITICAL_NAMES then Some Critical
           else None)"

definition detect_sensitive_file ::
  "runtime_event \<Rightarrow> 'a world_scheme \<Rightarrow> finding list \<times> 'a world_scheme" where
  "detect_sensitive_file event w =
     (if ev_capability event \<noteq> Some ''filesystem.read'' then ([], w)
      else case extract_target (ev_arguments event) of
        None \<Rightarrow> ([], w)
      | Some target \<Rightarrow>
      if target = [] then ([], w)
      else case classify_sensitive_path target of
        None \<Rightarrow> ([], w)
      | Some sev \<Rightarrow>
          (let (f, w) = new_finding ''sensitive-file-access''
             (if sev = Critical then ''Critical credential file access''
              else ''Sensitive configuration access'')
             sev (if sev = Critical then 95 / 100 else 85 / 100)
             (ev_session event) [ev_id event] ''filesystem.read''
             (normalize_path_display target)
             (''Tool call requested access to sensitive path '' @ target @ ''.'') w
           in ([f], w)))"

end
