(* ===== verification/PyRegex.thy ===== *)
theory PyRegex
  imports Prelude
begin

text \<open>
  The fragment of Python's \<open>re\<close> module that the detectors and the redactor use: literal
  text, character classes with (possibly lazy) repetition, concatenation, alternation and
  \<open>\\b\<close>. A position is the character before it and the text after it. \<open>rmatch\<close> lists the
  end positions of all matches that start at a position, in the order in which the
  backtracking engine tries them, so its head is the match that Python reports. Repetition
  ranges over single characters only, as in every pattern of the program.
\<close>

section \<open>Syntax and matcher\<close>

type_synonym pos = "char option \<times> string"

datatype regex =
    RLit string
  | RRep "char \<Rightarrow> bool" nat "nat option" bool
  | RSeq regex regex
  | RAlt regex regex
  | RWordB

definition is_word :: "char \<Rightarrow> bool" where
  "is_word c =
     (let n = ord c in
        48 \<le> n \<and> n \<le> 57 \<or> 65 \<le> n \<and> n \<le> 90 \<or> n = 95 \<or> 97 \<le> n \<and> n \<le> 122
        \<or> n = 170 \<or> n = 178 \<or> n = 179 \<or> n = 181 \<or> n = 185 \<or> n = 186
        \<or> 188 \<le> n \<and> n \<le> 190 \<or> 192 \<le> n \<and> n \<noteq> 215 \<and> n \<noteq> 247)"

definition opt_word :: "char option \<Rightarrow> bool" where
  "opt_word c = (case c of None \<Rightarrow> False | Some x \<Rightarrow> is_word x)"

definition next_char :: "string \<Rightarrow> char option" where
  "next_char s = (case s of [] \<Rightarrow> None | c # _ \<Rightarrow> Some c)"

definition at_boundary :: "pos \<Rightarrow> bool" where
  "at_boundary p = (opt_word (fst p) \<noteq> opt_word (next_char (snd p)))"

fun lit_ends :: "string \<Rightarrow> char option \<Rightarrow> string \<Rightarrow> pos list" where
  "lit_ends [] pr s = [(pr, s)]"
| "lit_ends (x # xs) pr [] = []"
| "lit_ends (x # xs) pr (c # cs) = (if x = c then lit_ends xs (Some c) cs else [])"

text \<open>The positions after none, one, two, \<dots> characters of the class, at most \<open>mx\<close>.\<close>

fun rep_ends :: "(char \<Rightarrow> bool) \<Rightarrow> nat option \<Rightarrow> char option \<Rightarrow> string \<Rightarrow> pos list" where
  "rep_ends p mx pr [] = [(pr, [])]"
| "rep_ends p mx pr (c # cs) =
     (pr, c # cs) #
       (if p c \<and> mx \<noteq> Some 0
        then rep_ends p (map_option (\<lambda>n. n - 1) mx) (Some c) cs else [])"

fun rmatch :: "regex \<Rightarrow> pos \<Rightarrow> pos list" where
  "rmatch (RLit l) q = lit_ends l (fst q) (snd q)"
| "rmatch (RRep p m n greedy) q =
     (let es = drop m (rep_ends p n (fst q) (snd q)) in if greedy then rev es else es)"
| "rmatch (RSeq a b) q = concat (map (rmatch b) (rmatch a q))"
| "rmatch (RAlt a b) q = rmatch a q @ rmatch b q"
| "rmatch RWordB q = (if at_boundary q then [q] else [])"

fun rseq :: "regex list \<Rightarrow> regex" where
  "rseq [] = RLit []"
| "rseq [r] = r"
| "rseq (r # q # rs) = RSeq r (rseq (q # rs))"

fun ralt :: "regex list \<Rightarrow> regex" where
  "ralt [] = RRep (\<lambda>_. False) 1 None True"
| "ralt [r] = r"
| "ralt (r # q # rs) = RAlt r (ralt (q # rs))"

section \<open>Classes\<close>

definition in_range :: "char \<Rightarrow> char \<Rightarrow> char \<Rightarrow> bool" where
  "in_range a b c = (ord a \<le> ord c \<and> ord c \<le> ord b)"

definition cls_digit :: "char \<Rightarrow> bool" where
  "cls_digit = in_range (CHR ''0'') (CHR ''9'')"

definition cls_lower :: "char \<Rightarrow> bool" where
  "cls_lower = in_range (CHR ''a'') (CHR ''z'')"

definition cls_upper :: "char \<Rightarrow> bool" where
  "cls_upper = in_range (CHR ''A'') (CHR ''Z'')"

definition cls_alnum :: "char \<Rightarrow> bool" where
  "cls_alnum c = (cls_digit c \<or> cls_lower c \<or> cls_upper c)"

definition cls_dot :: "char \<Rightarrow> bool" where
  "cls_dot c = (ord c \<noteq> 10)"

abbreviation star :: "(char \<Rightarrow> bool) \<Rightarrow> regex" where
  "star p \<equiv> RRep p 0 None True"

abbreviation plus1 :: "(char \<Rightarrow> bool) \<Rightarrow> regex" where
  "plus1 p \<equiv> RRep p 1 None True"

abbreviation exactly :: "nat \<Rightarrow> (char \<Rightarrow> bool) \<Rightarrow> regex" where
  "exactly n p \<equiv> RRep p n (Some n) True"

abbreviation atleast :: "nat \<Rightarrow> (char \<Rightarrow> bool) \<Rightarrow> regex" where
  "atleast n p \<equiv> RRep p n None True"

abbreviation one :: "(char \<Rightarrow> bool) \<Rightarrow> regex" where
  "one p \<equiv> RRep p 1 (Some 1) True"

section \<open>Searching, iterating, substituting\<close>

text \<open>\<open>re.search\<close>: the first start position with a match, with the match's end.\<close>

fun re_find :: "regex \<Rightarrow> char option \<Rightarrow> string \<Rightarrow> (string \<times> pos) option" where
  "re_find r pr [] = (case rmatch r (pr, []) of [] \<Rightarrow> None | e # _ \<Rightarrow> Some ([], e))"
| "re_find r pr (c # cs) =
     (case rmatch r (pr, c # cs) of
        [] \<Rightarrow> re_find r (Some c) cs
      | e # _ \<Rightarrow> Some (c # cs, e))"

definition re_search :: "regex \<Rightarrow> string \<Rightarrow> bool" where
  "re_search r s = (re_find r None s \<noteq> None)"

text \<open>\<open>re.finditer\<close> for patterns that match no empty text: start offset and matched text;
  the second argument counts the characters still covered by the last match.\<close>

fun re_iter :: "regex \<Rightarrow> nat \<Rightarrow> nat \<Rightarrow> char option \<Rightarrow> string \<Rightarrow> (nat \<times> string) list" where
  "re_iter r k i pr [] = []"
| "re_iter r (Suc k) i pr (c # cs) = re_iter r k (Suc i) (Some c) cs"
| "re_iter r 0 i pr (c # cs) =
     (case rmatch r (pr, c # cs) of
        [] \<Rightarrow> re_iter r 0 (Suc i) (Some c) cs
      | e # _ \<Rightarrow>
          (let n = length (c # cs) - length (snd e)
           in (i, take n (c # cs)) # re_iter r (n - 1) (Suc i) (Some c) cs))"

definition finditer :: "regex \<Rightarrow> string \<Rightarrow> (nat \<times> string) list" where
  "finditer r s = re_iter r 0 0 None s"

text \<open>\<open>re.sub\<close> with a constant replacement, for the same patterns.\<close>

fun re_subst :: "regex \<Rightarrow> string \<Rightarrow> nat \<Rightarrow> char option \<Rightarrow> string \<Rightarrow> string" where
  "re_subst r new k pr [] = []"
| "re_subst r new (Suc k) pr (c # cs) = re_subst r new k (Some c) cs"
| "re_subst r new 0 pr (c # cs) =
     (case rmatch r (pr, c # cs) of
        [] \<Rightarrow> c # re_subst r new 0 (Some c) cs
      | e # _ \<Rightarrow> new @ re_subst r new (length (c # cs) - length (snd e) - 1) (Some c) cs)"

definition re_sub :: "regex \<Rightarrow> string \<Rightarrow> string \<Rightarrow> string" where
  "re_sub r new s = re_subst r new 0 None s"

section \<open>What the matcher computes\<close>

lemma opt_word_simps [simp]: "opt_word None = False" "opt_word (Some c) = is_word c"
  by (simp_all add: opt_word_def)

lemma next_char_simps [simp]: "next_char [] = None" "next_char (c # cs) = Some c"
  by (simp_all add: next_char_def)

text \<open>A declarative reading of a pattern, against which the matcher is checked.\<close>

fun prev_of :: "char option \<Rightarrow> string \<Rightarrow> char option" where
  "prev_of pr [] = pr"
| "prev_of pr (c # u) = prev_of (Some c) u"

definition ends_at :: "pos \<Rightarrow> string \<Rightarrow> pos \<Rightarrow> bool" where
  "ends_at p t q = (snd p = t @ snd q \<and> fst q = prev_of (fst p) t)"

fun matches :: "regex \<Rightarrow> pos \<Rightarrow> pos \<Rightarrow> bool" where
  "matches (RLit l) p q = ends_at p l q"
| "matches (RRep c m n g) p q =
     (\<exists>t. ends_at p t q \<and> list_all c t \<and> m \<le> length t \<and> (\<forall>k. n = Some k \<longrightarrow> length t \<le> k))"
| "matches (RSeq a b) p q = (\<exists>x. matches a p x \<and> matches b x q)"
| "matches (RAlt a b) p q = (matches a p q \<or> matches b p q)"
| "matches RWordB p q = (p = q \<and> at_boundary p)"

lemma ends_at_Nil [simp]: "ends_at p [] q \<longleftrightarrow> p = q"
  by (cases p; cases q) (auto simp: ends_at_def)

lemma ends_at_Cons:
  "ends_at (pr, s) (x # t) q \<longleftrightarrow> (\<exists>cs. s = x # cs \<and> ends_at (Some x, cs) t q)"
  by (auto simp: ends_at_def)

lemma set_lit_ends: "q \<in> set (lit_ends l pr s) \<longleftrightarrow> ends_at (pr, s) l q"
  by (induction l pr s rule: lit_ends.induct) (auto simp: ends_at_Cons)

lemma nth_rep_ends:
  "(i < length (rep_ends c n pr s) \<and> rep_ends c n pr s ! i = q) \<longleftrightarrow>
     (\<exists>t. length t = i \<and> ends_at (pr, s) t q \<and> list_all c t \<and> (\<forall>k. n = Some k \<longrightarrow> i \<le> k))"
proof (induction c n pr s arbitrary: i rule: rep_ends.induct)
  case (1 p mx pr)
  show ?case by (cases i; cases q) (auto simp: ends_at_def)
next
  case (2 p mx pr c cs)
  show ?case
  proof (cases i)
    case 0
    then show ?thesis by auto
  next
    case (Suc j)
    have rhs: "(\<exists>t. length t = Suc j \<and> ends_at (pr, c # cs) t q \<and> list_all p t \<and>
                 (\<forall>k. mx = Some k \<longrightarrow> Suc j \<le> k)) \<longleftrightarrow>
               p c \<and> mx \<noteq> Some 0 \<and>
               (\<exists>t. length t = j \<and> ends_at (Some c, cs) t q \<and> list_all p t \<and>
                 (\<forall>k. map_option (\<lambda>n. n - 1) mx = Some k \<longrightarrow> j \<le> k))"
      (is "?L \<longleftrightarrow> ?R")
    proof
      assume ?L
      then obtain x t where "length t = j" "ends_at (pr, c # cs) (x # t) q" "list_all p (x # t)"
        "\<forall>k. mx = Some k \<longrightarrow> Suc j \<le> k"
        by (auto simp: length_Suc_conv)
      then show ?R by (cases mx) (auto simp: ends_at_Cons)
    next
      assume r: ?R
      then obtain t where "length t = j" "ends_at (Some c, cs) t q" "list_all p t"
        "\<forall>k. map_option (\<lambda>n. n - 1) mx = Some k \<longrightarrow> j \<le> k" by blast
      then have "length (c # t) = Suc j" "ends_at (pr, c # cs) (c # t) q" "list_all p (c # t)"
        "\<forall>k. mx = Some k \<longrightarrow> Suc j \<le> k"
        using r by (cases mx; auto simp: ends_at_Cons)+
      then show ?L by blast
    qed
    show ?thesis unfolding Suc rhs using 2 by auto
  qed
qed

lemma set_drop_rep_ends:
  "q \<in> set (drop m (rep_ends c n pr s)) \<longleftrightarrow> matches (RRep c m n g) (pr, s) q"
proof -
  let ?es = "rep_ends c n pr s"
  have "q \<in> set (drop m ?es) \<longleftrightarrow> (\<exists>i\<ge>m. i < length ?es \<and> ?es ! i = q)"
  proof
    assume "q \<in> set (drop m ?es)"
    then obtain j where j: "j < length ?es - m" "drop m ?es ! j = q"
      by (auto simp: in_set_conv_nth)
    then have "m + j < length ?es" "?es ! (m + j) = q" by simp_all
    then show "\<exists>i\<ge>m. i < length ?es \<and> ?es ! i = q"
      by (intro exI [of _ "m + j"]) simp
  next
    assume "\<exists>i\<ge>m. i < length ?es \<and> ?es ! i = q"
    then obtain i where i: "m \<le> i" "i < length ?es" "?es ! i = q" by blast
    then have "drop m ?es ! (i - m) = q" "i - m < length (drop m ?es)" by simp_all
    then show "q \<in> set (drop m ?es)" by (metis nth_mem)
  qed
  also have "\<dots> \<longleftrightarrow> (\<exists>i\<ge>m. \<exists>t. length t = i \<and> ends_at (pr, s) t q \<and> list_all c t \<and>
      (\<forall>k. n = Some k \<longrightarrow> i \<le> k))"
    by (simp only: nth_rep_ends)
  finally show ?thesis by auto
qed

theorem rmatch_correct: "q \<in> set (rmatch r p) \<longleftrightarrow> matches r p q"
proof (induction r arbitrary: p q)
  case (RLit l)
  then show ?case by (cases p) (simp add: set_lit_ends)
next
  case (RRep c m n g)
  have "q \<in> set (rmatch (RRep c m n g) p) \<longleftrightarrow> q \<in> set (drop m (rep_ends c n (fst p) (snd p)))"
    by (simp add: Let_def)
  then show ?case by (simp only: set_drop_rep_ends [where g = g] prod.collapse)
next
  case (RSeq a b)
  have "q \<in> set (rmatch (RSeq a b) p) \<longleftrightarrow> (\<exists>x. x \<in> set (rmatch a p) \<and> q \<in> set (rmatch b x))"
    by auto
  then show ?case by (simp only: RSeq.IH matches.simps)
qed auto

lemma rmatch_empty: "rmatch r p = [] \<longleftrightarrow> \<not> (\<exists>q. matches r p q)"
  by (metis list.set_intros(1) list.exhaust empty_iff list.set(1) rmatch_correct)

lemma ex_append_Cons:
  "(\<exists>u v. x # xs = u @ v \<and> P u v) \<longleftrightarrow> P [] (x # xs) \<or> (\<exists>u v. xs = u @ v \<and> P (x # u) v)"
  by (auto simp: Cons_eq_append_conv)

lemma re_find_Some:
  "(\<exists>x. re_find r pr s = Some x) \<longleftrightarrow> (\<exists>u v q. s = u @ v \<and> matches r (prev_of pr u, v) q)"
proof (induction r pr s rule: re_find.induct)
  case (1 r pr)
  have "rmatch r (pr, []) = [] \<longleftrightarrow> \<not> (\<exists>q. matches r (pr, []) q)"
    by (rule rmatch_empty)
  then show ?case by (auto split: list.splits)
next
  case (2 r pr c cs)
  have emp: "rmatch r (pr, c # cs) = [] \<longleftrightarrow> \<not> (\<exists>q. matches r (pr, c # cs) q)"
    by (rule rmatch_empty)
  have split: "(\<exists>u v q. c # cs = u @ v \<and> matches r (prev_of pr u, v) q) \<longleftrightarrow>
     (\<exists>q. matches r (pr, c # cs) q) \<or>
     (\<exists>u v q. cs = u @ v \<and> matches r (prev_of (Some c) u, v) q)"
    using ex_append_Cons [of c cs "\<lambda>u v. \<exists>q. matches r (prev_of pr u, v) q"] by simp
  show ?case
  proof (cases "rmatch r (pr, c # cs)")
    case Nil
    then show ?thesis using 2 emp split by simp
  next
    case (Cons e es)
    then show ?thesis using emp split by auto
  qed
qed

text \<open>\<open>re.search\<close> succeeds exactly when some occurrence of the pattern exists.\<close>

theorem re_search_iff:
  "re_search r s \<longleftrightarrow> (\<exists>u v q. s = u @ v \<and> matches r (prev_of None u, v) q)"
  unfolding re_search_def re_find_Some [symmetric] by auto

lemma matches_length: "matches r p q \<Longrightarrow> length (snd q) \<le> length (snd p)"
  by (induction r arbitrary: p q) (fastforce simp: ends_at_def intro: le_trans)+

text \<open>A literal text is found exactly where it occurs.\<close>

lemma re_search_lit: "re_search (RLit l) s \<longleftrightarrow> sublist l s"
  by (auto simp: re_search_iff ends_at_def sublist_def)

end
