(* ===== verification/ShellDetect.thy ===== *)
theory ShellDetect
  imports Core PyRegex
begin

text \<open>
  \<open>src/zeroadr/detection/dangerous_shell.py\<close> and \<open>privilege_escalation.py\<close>: regular
  expressions over the shell command of a tool call. The two modules repeat \<open>COMMAND_KEYS\<close>
  and \<open>extract_command\<close> word for word.
\<close>

definition COMMAND_KEYS :: "string list" where
  "COMMAND_KEYS = [''command'', ''cmd'']"

definition extract_command :: "jdict option \<Rightarrow> string option" where
  "extract_command arguments = extract_opt COMMAND_KEYS arguments"

text \<open>\<open>" ".join(command.strip().split()).lower()\<close>.\<close>

definition normalize_command :: "string \<Rightarrow> string" where
  "normalize_command command = lower (collapse (strip command))"

section \<open>Dangerous shell commands\<close>

definition shell_alt :: regex where
  "shell_alt = RAlt (RLit ''bash'') (RLit ''sh'')"

definition matches_download_pipe_shell :: "string \<Rightarrow> bool" where
  "matches_download_pipe_shell command =
     re_search (rseq [RWordB, RAlt (RLit ''curl'') (RLit ''wget''), RWordB, plus1 cls_dot,
                      RLit ''|'', star is_space, shell_alt, RWordB]) command"

text \<open>The pattern of \<open>_matches_destructive_rm\<close> up to its second group, which is the run of
  non-blanks that ends the match.\<close>

definition rm_prefix :: regex where
  "rm_prefix =
     rseq [RWordB, RLit ''rm'', plus1 is_space, RLit ''-'',
           RAlt (rseq [star cls_lower, RLit ''r'', star cls_lower, RLit ''f'', star cls_lower])
                (rseq [star cls_lower, RLit ''f'', star cls_lower, RLit ''r'', star cls_lower]),
           plus1 is_space]"

definition not_space :: "char \<Rightarrow> bool" where
  "not_space c = (\<not> is_space c)"

text \<open>The text of the last group of the first match of \<open>pre(\<open>p\<close>+)\<close>.\<close>

fun first_group :: "regex \<Rightarrow> (char \<Rightarrow> bool) \<Rightarrow> pos list \<Rightarrow> string option" where
  "first_group pre p [] = None"
| "first_group pre p (m # ms) =
     (case rmatch (plus1 p) m of
        [] \<Rightarrow> first_group pre p ms
      | e # _ \<Rightarrow> Some (take (length (snd m) - length (snd e)) (snd m)))"

fun search_group :: "regex \<Rightarrow> (char \<Rightarrow> bool) \<Rightarrow> char option \<Rightarrow> string \<Rightarrow> string option" where
  "search_group pre p pr [] = first_group pre p (rmatch pre (pr, []))"
| "search_group pre p pr (c # cs) =
     (case first_group pre p (rmatch pre (pr, c # cs)) of
        None \<Rightarrow> search_group pre p (Some c) cs
      | Some g \<Rightarrow> Some g)"

definition matches_destructive_rm :: "string \<Rightarrow> bool" where
  "matches_destructive_rm command =
     (case search_group rm_prefix not_space None command of
        None \<Rightarrow> False
      | Some g \<Rightarrow>
          rstrip_if (\<lambda>c. c = CHR ''/'') g \<in> {'''', ''~'', ''$home''} \<or> g = ''/'')"

definition matches_base64_exec :: "string \<Rightarrow> bool" where
  "matches_base64_exec command =
     re_search (rseq [RWordB, RLit ''base64'', plus1 is_space,
                      RAlt (RLit ''-d'') (RLit ''--decode''), RWordB, plus1 cls_dot,
                      RLit ''|'', star is_space, shell_alt, RWordB]) command"

definition matches_reverse_shell :: "string \<Rightarrow> bool" where
  "matches_reverse_shell command =
     (sublist ''/dev/tcp/'' command \<or> sublist ''nc -e'' command \<or> sublist ''bash -i >&'' command)"

definition classify_dangerous_shell :: "string \<Rightarrow> (severity \<times> string \<times> string) option" where
  "classify_dangerous_shell command =
     (let lowered = normalize_command command in
      if matches_download_pipe_shell lowered then
        Some (Critical, ''Downloaded script piped to shell'',
              ''Shell command downloads remote content and pipes it to a shell: '' @ command)
      else if matches_destructive_rm lowered then
        Some (Critical, ''Destructive recursive delete'',
              ''Shell command attempts destructive recursive deletion: '' @ command)
      else if sublist ''chmod 777'' lowered then
        Some (High, ''World-writable permission change'',
              ''Shell command grants world-writable permissions: '' @ command)
      else if matches_base64_exec lowered then
        Some (Critical, ''Decoded payload piped to shell'',
              ''Shell command decodes base64 content and executes it with a shell: '' @ command)
      else if matches_reverse_shell lowered then
        Some (Critical, ''Reverse shell execution'',
              ''Shell command matches a reverse shell pattern: '' @ command)
      else None)"

text \<open>The body that \<open>DangerousShellDetector.detect\<close> and
  \<open>PrivilegeEscalationDetector.detect\<close> share.\<close>

definition detect_command ::
  "string \<Rightarrow> (string \<Rightarrow> (severity \<times> string \<times> string) option) \<Rightarrow> runtime_event \<Rightarrow>
   'a world_scheme \<Rightarrow> finding list \<times> 'a world_scheme" where
  "detect_command rule classify event w =
     (if ev_capability event \<noteq> Some ''shell.exec'' then ([], w)
      else case extract_command (ev_arguments event) of
        None \<Rightarrow> ([], w)
      | Some command \<Rightarrow>
      if command = [] then ([], w)
      else case classify command of
        None \<Rightarrow> ([], w)
      | Some (sev, title, explanation) \<Rightarrow>
          (let (f, w) = new_finding rule title sev
             (if sev = Critical then 95 / 100 else 85 / 100)
             (ev_session event) [ev_id event] ''shell.exec'' command explanation w
           in ([f], w)))"

definition detect_dangerous_shell ::
  "runtime_event \<Rightarrow> 'a world_scheme \<Rightarrow> finding list \<times> 'a world_scheme" where
  "detect_dangerous_shell = detect_command ''dangerous-shell-execution'' classify_dangerous_shell"

section \<open>Privilege escalation\<close>

definition any_search :: "regex list \<Rightarrow> string \<Rightarrow> bool" where
  "any_search rs s = (\<exists>r \<in> set rs. re_search r s)"

definition matches_sudo_su :: "string \<Rightarrow> bool" where
  "matches_sudo_su command = any_search
     [rseq [RWordB, RLit ''sudo'', RWordB],
      rseq [RWordB, RLit ''su'', plus1 is_space, RLit ''-''],
      rseq [RWordB, RLit ''su'', plus1 is_space, RLit ''root'', RWordB],
      rseq [RWordB, RLit ''pkexec'', RWordB],
      rseq [RWordB, RLit ''sudo'', plus1 is_space, RLit ''-'', star cls_lower, RLit ''i'']] command"

definition matches_docker_privileged :: "string \<Rightarrow> bool" where
  "matches_docker_privileged command = re_search
     (rseq [RWordB, RLit ''docker'', plus1 is_space, RLit ''run'', RWordB, star cls_dot,
            RLit ''--privileged'']) command"

definition cls_octal :: "char \<Rightarrow> bool" where
  "cls_octal = in_range (CHR ''0'') (CHR ''7'')"

definition matches_setuid_modification :: "string \<Rightarrow> bool" where
  "matches_setuid_modification command = any_search
     [rseq [RWordB, RLit ''chmod'', plus1 is_space, RLit ''+s'', RWordB],
      rseq [RWordB, RLit ''chmod'', plus1 is_space, star cls_octal,
            one (\<lambda>c. c = CHR ''4'' \<or> c = CHR ''6''), exactly 3 cls_octal, RWordB],
      rseq [RWordB, RLit ''chown'', plus1 is_space, RLit ''root'', RWordB, star cls_dot, RLit ''&&'',
            star cls_dot, RWordB, RLit ''chmod'', plus1 is_space, RLit ''+s'']] command"

text \<open>\<open>(>|tee|echo.*>|vi|vim|nano|sed.*-i).*path\<close>.\<close>

definition writes_to :: "string \<Rightarrow> regex" where
  "writes_to path =
     rseq [ralt [RLit ''>'', RLit ''tee'', rseq [RLit ''echo'', star cls_dot, RLit ''>''],
                 RLit ''vi'', RLit ''vim'', RLit ''nano'',
                 rseq [RLit ''sed'', star cls_dot, RLit ''-i'']],
           star cls_dot, RLit path]"

definition matches_system_config_tampering :: "string \<Rightarrow> bool" where
  "matches_system_config_tampering command = any_search
     (map writes_to [''/etc/sudoers'', ''/etc/passwd'', ''/etc/shadow'', ''/etc/group'',
                     ''/etc/gshadow'']) command"

definition matches_container_escape :: "string \<Rightarrow> bool" where
  "matches_container_escape command = any_search
     [rseq [RWordB, RLit ''nsenter'', RWordB, star cls_dot, RLit ''--target''],
      rseq [RWordB, RLit ''docker'', plus1 is_space, RLit ''exec'', RWordB, star cls_dot,
            RLit ''--privileged''],
      RLit ''/var/run/docker.sock'',
      rseq [RWordB, RLit ''chroot'', RWordB],
      rseq [RLit ''/proc/'', plus1 cls_digit, RLit ''/root'']] command"

definition matches_kernel_module :: "string \<Rightarrow> bool" where
  "matches_kernel_module command = any_search
     [rseq [RWordB, RLit ''insmod'', RWordB],
      rseq [RWordB, RLit ''modprobe'', RWordB],
      rseq [RWordB, RLit ''rmmod'', RWordB],
      rseq [RWordB, RLit ''lsmod'', RWordB, star cls_dot, RLit ''&&'', star cls_dot,
            RAlt (RLit ''insmod'') (RLit ''modprobe'')]] command"

definition matches_auth_config :: "string \<Rightarrow> bool" where
  "matches_auth_config command = any_search
     (map writes_to [''/etc/pam.d/'', ''/etc/ssh/sshd_config'', ''/etc/security/'']) command"

definition classify_privilege_escalation :: "string \<Rightarrow> (severity \<times> string \<times> string) option" where
  "classify_privilege_escalation command =
     (let lowered = normalize_command command in
      if matches_sudo_su lowered then
        Some (Critical, ''Privilege escalation attempt'',
              ''Shell command attempts to escalate privileges using sudo/su: '' @ command)
      else if matches_docker_privileged lowered then
        Some (Critical, ''Docker privileged container'',
              ''Shell command creates privileged container with elevated access: '' @ command)
      else if matches_setuid_modification lowered then
        Some (Critical, ''Setuid/setgid bit manipulation'',
              ''Shell command modifies setuid/setgid permissions: '' @ command)
      else if matches_system_config_tampering lowered then
        Some (Critical, ''System configuration tampering'',
              ''Shell command modifies critical system configuration: '' @ command)
      else if matches_container_escape lowered then
        Some (Critical, ''Container escape attempt'',
              ''Shell command attempts container escape: '' @ command)
      else if matches_kernel_module lowered then
        Some (High, ''Kernel module manipulation'',
              ''Shell command loads or manipulates kernel modules: '' @ command)
      else if matches_auth_config lowered then
        Some (High, ''Authentication configuration modification'',
              ''Shell command modifies authentication configuration: '' @ command)
      else None)"

definition detect_privilege_escalation ::
  "runtime_event \<Rightarrow> 'a world_scheme \<Rightarrow> finding list \<times> 'a world_scheme" where
  "detect_privilege_escalation = detect_command ''privilege-escalation'' classify_privilege_escalation"

section \<open>Spacing and letter case do not matter\<close>

lemma normalize_command_words: "normalize_command c = join '' '' (map lower (split_ws c))"
  by (simp add: normalize_command_def collapse_def lower_join) (simp add: lower_def)

text \<open>The classification of a shell command depends only on its words in lower case: no
  amount of extra blanks, tabs or line breaks, and no change of letter case, moves a command
  to another severity or title in either detector.\<close>

theorem shell_classification_normalized:
  assumes "map lower (split_ws c) = map lower (split_ws c')"
  shows "map_option (\<lambda>(s, t, _). (s, t)) (classify_dangerous_shell c) =
           map_option (\<lambda>(s, t, _). (s, t)) (classify_dangerous_shell c') \<and>
         map_option (\<lambda>(s, t, _). (s, t)) (classify_privilege_escalation c) =
           map_option (\<lambda>(s, t, _). (s, t)) (classify_privilege_escalation c')"
proof -
  have n: "normalize_command c = normalize_command c'"
    using assms by (simp add: normalize_command_words)
  show ?thesis
    by (simp add: classify_dangerous_shell_def classify_privilege_escalation_def Let_def n)
qed

theorem shell_classification_normalized_witness:
  "map_option (\<lambda>(s, t, _). (s, t)) (classify_dangerous_shell ''RM   -rf /'') =
     Some (Critical, ''Destructive recursive delete'')"
proof -
  have "map lower (split_ws ''RM   -rf /'') = map lower (split_ws ''rm -rf /'')"
    by code_simp
  note shell_classification_normalized [OF this]
  moreover have "classify_dangerous_shell ''rm -rf /'' =
    Some (Critical, ''Destructive recursive delete'',
      ''Shell command attempts destructive recursive deletion: rm -rf /'')"
    by code_simp
  ultimately show ?thesis by simp
qed

section \<open>A word of its own is found\<close>

lemma prev_of_snoc [simp]: "prev_of pr (u @ [c]) = Some c"
  by (induction u arbitrary: pr) auto

lemma prev_of_word_start:
  assumes "u = [] \<or> suffix '' '' u"
  shows "\<not> opt_word (prev_of None u)"
proof (cases "u = []")
  case True
  then show ?thesis by simp
next
  case False
  with assms obtain u' where "u = u' @ [CHR '' '']" by (auto simp: suffix_def)
  then show ?thesis by (simp add: is_word_def ord_def)
qed

lemma next_char_word_end:
  assumes "v = [] \<or> prefix '' '' v"
  shows "\<not> opt_word (next_char v)"
  using assms by (auto simp: prefix_def is_word_def ord_def)

text \<open>A literal between word boundaries is found wherever it is one of the blank-separated words.\<close>

lemma word_search:
  assumes "x \<in> set ws" "x \<noteq> []" "is_word (hd x)" "is_word (last x)"
  shows "re_search (rseq [RWordB, RLit x, RWordB]) (join '' '' ws)"
proof -
  obtain u v where uv: "join '' '' ws = u @ x @ v" "u = [] \<or> suffix '' '' u"
    "v = [] \<or> prefix '' '' v"
    using join_split [OF assms(1)] by blast
  let ?p = "(prev_of None u, x @ v)" and ?q = "(prev_of (prev_of None u) x, v)"
  have last: "prev_of (prev_of None u) x = Some (last x)"
    using assms(2) prev_of_snoc [of _ "butlast x" "last x"] by simp
  have "at_boundary ?p"
    using prev_of_word_start [OF uv(2)] assms(2,3)
    by (cases x) (simp_all add: at_boundary_def)
  moreover have "at_boundary ?q"
    using next_char_word_end [OF uv(3)] assms(4)
    by (simp add: at_boundary_def last)
  moreover have "ends_at ?p x ?q" by (simp add: ends_at_def)
  ultimately have "matches (rseq [RWordB, RLit x, RWordB]) ?p ?q" by auto
  then show ?thesis using uv(1) by (auto simp: re_search_iff)
qed

text \<open>A shell command one of whose words is \<open>sudo\<close>, in any letter case, is reported as a
  critical privilege escalation for its event.\<close>

theorem sudo_word_reported:
  assumes "ev_capability event = Some ''shell.exec''"
    and "extract_command (ev_arguments event) = Some command"
    and "x \<in> set (split_ws command)" "lower x = ''sudo''"
  shows "\<exists>f. fst (detect_privilege_escalation event w) = [f] \<and> fi_severity f = Critical \<and>
    fi_rule f = ''privilege-escalation'' \<and> fi_target f = command \<and> fi_events f = [ev_id event]"
proof -
  have "''sudo'' \<in> set (map lower (split_ws command))" using assms(3,4) by force
  then have "re_search (rseq [RWordB, RLit ''sudo'', RWordB]) (normalize_command command)"
    unfolding normalize_command_words by (rule word_search) (simp_all add: is_word_def ord_def)
  then have "matches_sudo_su (normalize_command command)"
    by (simp add: matches_sudo_su_def any_search_def)
  moreover have "command \<noteq> []" using assms(3) by (auto simp: split_ws_def)
  ultimately show ?thesis
    using assms(1,2)
    by (simp add: detect_privilege_escalation_def detect_command_def
        classify_privilege_escalation_def Let_def case_prod_beta)
qed

theorem sudo_word_reported_witness:
  "\<exists>f. fst (detect_privilege_escalation
      \<lparr>ev_id = ''e'', ev_type = ToolCallRequested, ev_time = 0, ev_ingest = 0,
       ev_source = McpGateway, ev_session = ''s'', ev_request = None, ev_server = None,
       ev_tool = Some ''run'', ev_capability = Some ''shell.exec'', ev_context = None,
       ev_arguments = Some [(''command'', JStr ''ls; Sudo cat x'')],
       ev_result = JNull, ev_error = None, ev_raw = []\<rparr>
      \<lparr>w_ms = (\<lambda>_. 0), w_rand = (\<lambda>_. 0), w_ids = 0, w_wall = (\<lambda>_. 0), w_walls = 0,
       w_mono = (\<lambda>_. 0), w_monos = 0\<rparr>) = [f] \<and> fi_severity f = Critical"
proof -
  let ?e = "\<lparr>ev_id = ''e'', ev_type = ToolCallRequested, ev_time = 0, ev_ingest = 0,
       ev_source = McpGateway, ev_session = ''s'', ev_request = None, ev_server = None,
       ev_tool = Some ''run'', ev_capability = Some ''shell.exec'', ev_context = None,
       ev_arguments = Some [(''command'', JStr ''ls; Sudo cat x'')],
       ev_result = JNull, ev_error = None, ev_raw = []\<rparr> :: runtime_event"
  have cap: "ev_capability ?e = Some ''shell.exec''" by simp
  have cmd: "extract_command (ev_arguments ?e) = Some ''ls; Sudo cat x''"
    by (simp add: extract_command_def extract_opt_def COMMAND_KEYS_def)
  have word: "''Sudo'' \<in> set (split_ws ''ls; Sudo cat x'')" "lower ''Sudo'' = ''sudo''"
    by (simp_all add: split_ws_def lower_def)
  from sudo_word_reported [OF cap cmd word] show ?thesis by blast
qed

text \<open>The numeric rule for set-id bits: the class of the leading digit holds 4 and 6 only, so
  \<open>chmod 4755\<close> is reported and \<open>chmod 2755\<close>, which sets the group id bit, is not; neither
  is the symbolic form \<open>chmod u+s\<close>.\<close>

theorem setgid_mode_missed:
  "matches_setuid_modification ''chmod 4755 /tmp/x'' \<and>
   \<not> matches_setuid_modification ''chmod 2755 /tmp/x'' \<and>
   \<not> matches_setuid_modification ''chmod u+s /tmp/x''"
proof -
  have "matches_setuid_modification ''chmod 4755 /tmp/x''" by code_simp
  moreover have "\<not> matches_setuid_modification ''chmod 2755 /tmp/x''" by code_simp
  moreover have "\<not> matches_setuid_modification ''chmod u+s /tmp/x''" by code_simp
  ultimately show ?thesis by blast
qed

end
