(* ===== verification/Evidence.thy ===== *)
theory Evidence
  imports Core
begin

text \<open>
  The bounded depth-first walk that \<open>extract_result_text\<close>, \<open>_extract_text\<close> and
  \<open>extract_text\<close> run over a JSON value. The three loops differ in their limits and in how
  a text is cut to the characters that remain (\<open>chunk\<close>). The node counter runs down from
  the node limit, so the recursion is structural and the loop bound is the code's own. The
  head of the stack is the element that \<open>stack.pop()\<close> returns; children are pushed in
  reverse, hence they come off in order.
\<close>

section \<open>The loop\<close>

fun children :: "json \<Rightarrow> json list" where
  "children (JList xs) = xs"
| "children (JObj d) = map snd d"
| "children _ = []"

fun gather ::
  "(string \<Rightarrow> nat \<Rightarrow> string) \<Rightarrow> nat \<Rightarrow> nat \<Rightarrow> (json \<times> nat) list \<Rightarrow> nat \<Rightarrow> string list" where
  "gather chunk max_depth 0 stack remaining = []"
| "gather chunk max_depth (Suc nodes) [] remaining = []"
| "gather chunk max_depth (Suc nodes) ((item, depth) # stack) remaining =
     (if remaining = 0 then []
      else if max_depth < depth then gather chunk max_depth nodes stack remaining
      else case item of
        JStr s \<Rightarrow>
          (let c = chunk s remaining
           in c # gather chunk max_depth nodes stack (remaining - length c))
      | _ \<Rightarrow> gather chunk max_depth nodes
               (map (\<lambda>x. (x, depth + 1)) (children item) @ stack) remaining)"

definition walk_text ::
  "(string \<Rightarrow> nat \<Rightarrow> string) \<Rightarrow> nat \<Rightarrow> nat \<Rightarrow> nat \<Rightarrow> json \<Rightarrow> nat \<Rightarrow> string" where
  "walk_text chunk max_chars max_depth max_nodes v depth =
     take max_chars (join [CHR 10] (gather chunk max_depth max_nodes [(v, depth)] max_chars))"

section \<open>The reference: all texts of a value\<close>

text \<open>The texts of a value in document order, those below the depth limit dropped, and the
  number of nodes that the walk visits.\<close>

fun texts :: "nat \<Rightarrow> nat \<Rightarrow> json \<Rightarrow> string list" where
  "texts max_depth depth v =
     (if max_depth < depth then []
      else case v of
        JStr s \<Rightarrow> [s]
      | JList xs \<Rightarrow> concat (map (texts max_depth (Suc depth)) xs)
      | JObj d \<Rightarrow> concat (map (\<lambda>(k, x). texts max_depth (Suc depth) x) d)
      | _ \<Rightarrow> [])"

fun visited :: "nat \<Rightarrow> nat \<Rightarrow> json \<Rightarrow> nat" where
  "visited max_depth depth v =
     (if max_depth < depth then 1
      else case v of
        JList xs \<Rightarrow> Suc (sum_list (map (visited max_depth (Suc depth)) xs))
      | JObj d \<Rightarrow> Suc (sum_list (map (\<lambda>(k, x). visited max_depth (Suc depth) x) d))
      | _ \<Rightarrow> 1)"

declare texts.simps [simp del] visited.simps [simp del]

lemma deep_simps:
  "md < d \<Longrightarrow> texts md d v = []" "md < d \<Longrightarrow> visited md d v = 1"
  by (simp_all add: texts.simps [of md d] visited.simps [of md d])

lemma text_simps:
  "\<not> md < d \<Longrightarrow> texts md d (JStr s) = [s]" "\<not> md < d \<Longrightarrow> visited md d (JStr s) = 1"
  by (simp_all add: texts.simps [of md d] visited.simps [of md d])

lemma node_simps:
  assumes "\<not> md < d" "\<nexists>s. v = JStr s"
  shows "texts md d v = concat (map (texts md (Suc d)) (children v))"
    and "visited md d v = Suc (sum_list (map (visited md (Suc d)) (children v)))"
    and "remaining \<noteq> 0 \<Longrightarrow> gather chunk md (Suc n) ((v, d) # st) remaining =
      gather chunk md n (map (\<lambda>x. (x, Suc d)) (children v) @ st) remaining"
proof -
  show "texts md d v = concat (map (texts md (Suc d)) (children v))"
    using assms by (cases v) (simp_all add: texts.simps [of md d] comp_def case_prod_unfold)
  show "visited md d v = Suc (sum_list (map (visited md (Suc d)) (children v)))"
    using assms by (cases v) (simp_all add: visited.simps [of md d] comp_def case_prod_unfold)
  show "gather chunk md (Suc n) ((v, d) # st) remaining =
      gather chunk md n (map (\<lambda>x. (x, Suc d)) (children v) @ st) remaining" if "remaining \<noteq> 0"
    using assms that by (cases v) simp_all
qed

lemma visited_pos: "0 < visited md d v"
  by (auto simp: visited.simps [of md d] split: json.splits)

section \<open>Laws of the cut, and what follows for the walk\<close>

text \<open>What the three walks rely on: a text that fits is kept whole, and no more than the
  remaining characters are taken.\<close>

locale chunker =
  fixes chunk :: "string \<Rightarrow> nat \<Rightarrow> string"
  assumes chunk_fits: "length s \<le> n \<Longrightarrow> chunk s n = s"
    and chunk_bound: "length (chunk s n) \<le> n"
begin

lemma gather_budget:
  "sum_list (map length (gather chunk md nodes stack remaining)) \<le> remaining"
proof (induction nodes arbitrary: stack remaining)
  case 0
  then show ?case by simp
next
  case (Suc nodes)
  show ?case
  proof (cases stack)
    case Nil
    then show ?thesis by simp
  next
    case (Cons p rest)
    obtain item depth where p: "p = (item, depth)" by (cases p)
    show ?thesis
    proof (cases item)
      case (JStr s)
      have "sum_list (map length (gather chunk md nodes rest (remaining - length (chunk s remaining))))
          \<le> remaining - length (chunk s remaining)" by (rule Suc.IH)
      moreover have "sum_list (map length (gather chunk md nodes rest remaining)) \<le> remaining"
        by (rule Suc.IH)
      ultimately show ?thesis
        using chunk_bound [of s remaining] by (auto simp: Cons p JStr Let_def)
    qed (auto simp: Cons p Suc.IH)
  qed
qed

text \<open>Within the node and character limits the walk returns every text of the value.\<close>

lemma gather_complete:
  "sum_list (map (\<lambda>(v, d). visited md d v) stack) \<le> nodes \<Longrightarrow>
   sum_list (map length (concat (map (\<lambda>(v, d). texts md d v) stack))) < remaining \<Longrightarrow>
   gather chunk md nodes stack remaining = concat (map (\<lambda>(v, d). texts md d v) stack)"
proof (induction nodes arbitrary: stack remaining)
  case 0
  then have "visited md d v = 0" if "(v, d) \<in> set stack" for v d using that by auto
  with visited_pos have "(v, d) \<notin> set stack" for v d by (metis less_numeral_extra(3))
  then have "stack = []" by (cases stack) auto
  then show ?case by simp
next
  case (Suc nodes)
  show ?case
  proof (cases stack)
    case Nil
    then show ?thesis by simp
  next
    case (Cons p rest)
    obtain item depth where p: "p = (item, depth)" by (cases p)
    have pos: "remaining \<noteq> 0" using Suc.prems(2) by simp
    consider (deep) "md < depth" | (str) s where "\<not> md < depth" "item = JStr s"
      | (node) "\<not> md < depth" "\<nexists>s. item = JStr s" by blast
    then show ?thesis
    proof cases
      case deep
      have "gather chunk md nodes rest remaining = concat (map (\<lambda>(v, d). texts md d v) rest)"
        using Suc.prems deep by (intro Suc.IH) (simp_all add: Cons p deep_simps)
      then show ?thesis using deep pos by (simp add: Cons p deep_simps)
    next
      case str
      have fits: "length s < remaining" using Suc.prems(2) str by (simp add: Cons p text_simps)
      then have whole: "chunk s remaining = s" by (simp add: chunk_fits)
      have "gather chunk md nodes rest (remaining - length s) =
          concat (map (\<lambda>(v, d). texts md d v) rest)"
        using Suc.prems str fits by (intro Suc.IH) (simp_all add: Cons p text_simps)
      then show ?thesis using str pos whole by (simp add: Cons p text_simps Let_def)
    next
      case node
      let ?st = "map (\<lambda>x. (x, Suc depth)) (children item) @ rest"
      have "gather chunk md nodes ?st remaining = concat (map (\<lambda>(v, d). texts md d v) ?st)"
        using Suc.prems by (intro Suc.IH) (simp_all add: Cons p node_simps(1,2) [OF node] comp_def)
      then show ?thesis
        using node_simps(3) [OF node pos]
        by (simp add: Cons p node_simps(1) [OF node] comp_def)
    qed
  qed
qed

lemma walk_text_complete:
  assumes "visited md d v \<le> nodes"
    and "length (join [CHR 10] (texts md d v)) < maxc"
    and "sum_list (map length (texts md d v)) < maxc"
  shows "walk_text chunk maxc md nodes v d = join [CHR 10] (texts md d v)"
  using assms gather_complete [where md = md and stack = "[(v, d)]"]
  by (simp add: walk_text_def)

end

lemma length_walk_text: "length (walk_text chunk maxc md nodes v d) \<le> maxc"
  by (simp add: walk_text_def)

section \<open>The plain cut\<close>

definition take_chars :: "string \<Rightarrow> nat \<Rightarrow> string" where
  "take_chars s n = take n s"

interpretation plain: chunker take_chars
  by unfold_locales (simp_all add: take_chars_def)

section \<open>Texts are found in their concatenation\<close>

lemma sublist_join: "x \<in> set xs \<Longrightarrow> sublist x (join sep xs)"
proof (induction sep xs rule: join.induct)
  case (3 sep y z zs)
  show ?case
  proof (cases "x = y")
    case True
    then show ?thesis by (auto simp: sublist_append)
  next
    case False
    with 3 have "sublist x (join sep (z # zs))" by simp
    then have "sublist x ((y @ sep) @ join sep (z # zs))"
      by (metis sublist_append_leftI sublist_order.order.trans)
    then show ?thesis by simp
  qed
qed auto

end
