(* ===== verification/Detection.thy ===== *)
theory Detection
  imports FileDetect ShellDetect TextDetect SecretDetect
begin

text \<open>
  \<open>src/zeroadr/detection/engine.py\<close>: the engine runs the six event detectors in order and
  concatenates their findings. The locale \<open>detector\<close> is the contract of the protocol
  \<open>Detector\<close>: findings carry the session and the id of the event, their rule ids are the
  detector's own, and their content does not depend on the world: the only thing a
  detector takes from it is one fresh identifier per finding, in order.
\<close>

section \<open>The engine\<close>

fun run_detectors ::
  "(runtime_event \<Rightarrow> 'a world_scheme \<Rightarrow> finding list \<times> 'a world_scheme) list \<Rightarrow> runtime_event \<Rightarrow>
   'a world_scheme \<Rightarrow> finding list \<times> 'a world_scheme" where
  "run_detectors [] event w = ([], w)"
| "run_detectors (d # ds) event w =
     (let (fs, w) = d event w; (gs, w) = run_detectors ds event w in (fs @ gs, w))"

definition detectors ::
  "(runtime_event \<Rightarrow> 'a world_scheme \<Rightarrow> finding list \<times> 'a world_scheme) list" where
  "detectors =
     [detect_sensitive_file, detect_dangerous_shell, detect_prompt_injection,
      detect_memory_poisoning, detect_privilege_escalation, detect_secret_leakage]"

definition detect ::
  "runtime_event \<Rightarrow> 'a world_scheme \<Rightarrow> finding list \<times> 'a world_scheme" where
  "detect event w = run_detectors detectors event w"

section \<open>Giving identifiers to findings\<close>

definition blank :: "finding \<Rightarrow> finding" where
  "blank f = f\<lparr>fi_id := []\<rparr>"

fun stamp :: "finding list \<Rightarrow> 'a world_scheme \<Rightarrow> finding list \<times> 'a world_scheme" where
  "stamp [] w = ([], w)"
| "stamp (f # fs) w =
     (let (i, w) = new_ulid w; (gs, w) = stamp fs w in (f\<lparr>fi_id := i\<rparr> # gs, w))"

lemma stamp_append:
  "stamp (fs @ gs) w =
     (fst (stamp fs w) @ fst (stamp gs (snd (stamp fs w))), snd (stamp gs (snd (stamp fs w))))"
  by (induction fs arbitrary: w) (auto simp: Let_def case_prod_beta)

lemma blank_stamp [simp]: "map blank (fst (stamp fs w)) = map blank fs"
  by (induction fs arbitrary: w) (auto simp: Let_def case_prod_beta blank_def)

lemma length_stamp [simp]: "length (fst (stamp fs w)) = length fs"
  by (metis blank_stamp length_map)

lemma stamp_blank [simp]: "stamp (map blank fs) w = stamp fs w"
  by (induction fs arbitrary: w) (auto simp: Let_def case_prod_beta blank_def)

lemma snd_stamp: "snd (stamp fs w) = w\<lparr>w_ids := w_ids w + length fs\<rparr>"
  by (induction fs arbitrary: w) (auto simp: Let_def case_prod_beta new_ulid_def)

lemma ids_stamp:
  "map fi_id (fst (stamp fs w)) =
     map (\<lambda>n. ulid_of (w_ms w n) (w_rand w n)) [w_ids w ..< w_ids w + length fs]"
proof (induction fs arbitrary: w)
  case Nil
  then show ?case by simp
next
  case (Cons f fs)
  have "[w_ids w ..< w_ids w + Suc (length fs)] =
      w_ids w # [Suc (w_ids w) ..< Suc (w_ids w) + length fs]"
    by (simp add: upt_rec)
  then show ?case by (simp add: Cons Let_def case_prod_beta new_ulid_def)
qed

lemma stamp_one: "(case new_finding r t s c se ev ca ta ex w of (f, w') \<Rightarrow> ([f], w')) =
    stamp [fst (new_finding r t s c se ev ca ta ex w0)] w"
  by (simp add: new_finding_def Let_def case_prod_beta)

section \<open>The contract of a detector\<close>

locale detector =
  fixes det :: "runtime_event \<Rightarrow> 'a world_scheme \<Rightarrow> finding list \<times> 'a world_scheme"
    and rules :: "string set"
  assumes stamped: "det e w = stamp (fst (det e w')) w"
    and provenance: "f \<in> set (fst (det e w)) \<Longrightarrow>
          fi_session f = ev_session e \<and> fi_events f = [ev_id e] \<and> fi_rule f \<in> rules"
begin

lemma content_independent: "map blank (fst (det e w)) = map blank (fst (det e w'))"
  by (metis stamped blank_stamp)

lemma world_after: "snd (det e w) = w\<lparr>w_ids := w_ids w + length (fst (det e w))\<rparr>"
  by (metis stamped snd_stamp)

lemma finding_ids:
  "map fi_id (fst (det e w)) =
     map (\<lambda>n. ulid_of (w_ms w n) (w_rand w n)) [w_ids w ..< w_ids w + length (fst (det e w))]"
  by (metis stamped ids_stamp)

end

lemma detector_run:
  assumes "\<And>d. d \<in> set ds \<Longrightarrow> detector d R"
  shows "detector (run_detectors ds) R"
  using assms
proof (induction ds)
  case Nil
  show ?case by unfold_locales auto
next
  case (Cons d ds)
  have d: "detector d R" and ds: "detector (run_detectors ds) R" using Cons by auto
  show ?case
  proof
    fix e w w'
    have eq: "d e w = stamp (fst (d e w')) w" for w w' by (rule detector.stamped [OF d])
    have eqs: "run_detectors ds e w = stamp (fst (run_detectors ds e w')) w" for w w'
      by (rule detector.stamped [OF ds])
    show "run_detectors (d # ds) e w = stamp (fst (run_detectors (d # ds) e w')) w"
      using eq [of w w'] eqs [of "snd (d e w)" "snd (d e w')"]
      by (simp add: Let_def case_prod_beta stamp_append)
  next
    fix f e w
    assume "f \<in> set (fst (run_detectors (d # ds) e w))"
    then show "fi_session f = ev_session e \<and> fi_events f = [ev_id e] \<and> fi_rule f \<in> R"
      using detector.provenance [OF d] detector.provenance [OF ds]
      by (auto simp: Let_def case_prod_beta)
  qed
qed

section \<open>The six detectors meet the contract\<close>

definition engine_rules :: "string set" where
  "engine_rules =
     {''sensitive-file-access'', ''dangerous-shell-execution'', ''prompt-injection-tool-result'',
      ''prompt-injection-agent-input'', ''memory-poisoning-detection'', ''privilege-escalation'',
      ''secret-leakage''}"

lemmas detector_unfold = Let_def case_prod_beta new_finding_def engine_rules_def

interpretation sensitive: detector detect_sensitive_file engine_rules
  by unfold_locales
    (auto simp: detect_sensitive_file_def detector_unfold split: option.splits if_splits)

lemma detect_command_contract:
  "rule \<in> engine_rules \<Longrightarrow> detector (detect_command rule classify) engine_rules"
  by unfold_locales
    (auto simp: detect_command_def Let_def case_prod_beta new_finding_def
      split: option.splits if_splits)

interpretation dangerous: detector detect_dangerous_shell engine_rules
  unfolding detect_dangerous_shell_def
  by (rule detect_command_contract) (simp add: engine_rules_def)

interpretation privilege: detector detect_privilege_escalation engine_rules
  unfolding detect_privilege_escalation_def
  by (rule detect_command_contract) (simp add: engine_rules_def)

interpretation injection: detector detect_prompt_injection engine_rules
  by unfold_locales
    (auto simp: detect_prompt_injection_def detector_unfold split: option.splits if_splits)

lemma memory_finding_stamped:
  "memory_finding ps t s c what l e w = stamp (fst (memory_finding ps t s c what l e w')) w"
  by (auto simp: memory_finding_def Let_def case_prod_beta new_finding_def split: option.splits)

lemma check_memory_stamped:
  "check_memory_patterns t e w = stamp (fst (check_memory_patterns t e w')) w"
proof -
  let ?l = "collapse (lower t)"
  let ?a = "memory_finding CRITICAL_MEMORY_PATTERNS ''Memory poisoning in tool data''
             Critical (95 / 100) ''Tool data contains memory poisoning phrase: '' ?l e"
  let ?b = "memory_finding HIGH_MEMORY_PATTERNS ''Potential memory poisoning in tool data'' High
             (85 / 100) ''Tool data contains memory manipulation phrase: '' ?l e"
  have "?a w = stamp (fst (?a w')) w" "?b (snd (?a w)) = stamp (fst (?b (snd (?a w')))) (snd (?a w))"
    by (rule memory_finding_stamped)+
  then show ?thesis
    by (simp add: check_memory_patterns_def Let_def case_prod_beta stamp_append)
qed

interpretation memory: detector detect_memory_poisoning engine_rules
proof
  fix e w w'
  show "detect_memory_poisoning e w = stamp (fst (detect_memory_poisoning e w')) w"
    using check_memory_stamped
    by (auto simp: detect_memory_poisoning_def Let_def split: event_type.splits)
next
  fix f e w
  assume "f \<in> set (fst (detect_memory_poisoning e w))"
  then show "fi_session f = ev_session e \<and> fi_events f = [ev_id e] \<and> fi_rule f \<in> engine_rules"
    by (auto simp: detect_memory_poisoning_def check_memory_patterns_def memory_finding_def
        detector_unfold split: event_type.splits option.splits if_splits)
qed

lemma secret_findings_stamped:
  "secret_findings t s c ca b a e ss w = stamp (fst (secret_findings t s c ca b a e ss w')) w"
proof (induction ss arbitrary: w w')
  case Nil
  then show ?case by simp
next
  case (Cons x ss)
  obtain ty name m where x: "x = (ty, name, m)" by (cases x)
  show ?case
    using Cons [of "snd (new_ulid w)" "snd (new_ulid w')"]
    by (simp add: x Let_def case_prod_beta new_finding_def)
qed

lemma secret_findings_provenance:
  "f \<in> set (fst (secret_findings t s c ca b a e ss w)) \<Longrightarrow>
   fi_session f = ev_session e \<and> fi_events f = [ev_id e] \<and> fi_rule f = ''secret-leakage'' \<and>
   fi_severity f = s"
  by (induction ss arbitrary: w) (auto simp: Let_def case_prod_beta new_finding_def)

interpretation secret: detector detect_secret_leakage engine_rules
proof
  fix e w w'
  show "detect_secret_leakage e w = stamp (fst (detect_secret_leakage e w')) w"
    unfolding detect_secret_leakage_def by (auto simp: secret_findings_stamped [symmetric])
next
  fix f e w
  assume "f \<in> set (fst (detect_secret_leakage e w))"
  then show "fi_session f = ev_session e \<and> fi_events f = [ev_id e] \<and> fi_rule f \<in> engine_rules"
    unfolding detect_secret_leakage_def engine_rules_def
    by (auto dest: secret_findings_provenance split: if_splits)
qed

interpretation engine: detector detect engine_rules
proof -
  have "detector (run_detectors detectors) engine_rules"
    by (rule detector_run)
      (auto simp: detectors_def sensitive.detector_axioms dangerous.detector_axioms
        injection.detector_axioms memory.detector_axioms privilege.detector_axioms
        secret.detector_axioms)
  then show "detector detect engine_rules"
    by (simp add: detect_def [abs_def])
qed

section \<open>Properties of the engine\<close>

text \<open>C9. Every finding of the engine belongs to the session and to the event it was made for,
  carries one of the seven rule ids of the built-in detectors, and its content does not
  depend on the clock or the random source; the engine draws one identifier per finding, in
  the order of the findings, and changes nothing else.\<close>

theorem engine_findings_contract:
  fixes w w' :: "'a world_scheme"
  shows "(\<forall>f \<in> set (fst (detect e w)). fi_session f = ev_session e \<and> fi_events f = [ev_id e] \<and>
      fi_rule f \<in> engine_rules) \<and>
   map blank (fst (detect e w)) = map blank (fst (detect e w')) \<and>
   map fi_id (fst (detect e w)) =
      map (\<lambda>n. ulid_of (w_ms w n) (w_rand w n)) [w_ids w ..< w_ids w + length (fst (detect e w))] \<and>
   snd (detect e w) = w\<lparr>w_ids := w_ids w + length (fst (detect e w))\<rparr>"
  using engine.provenance [of _ e w] engine.content_independent [of e w w'] engine.finding_ids [of e w]
    engine.world_after [of e w] by blast

text \<open>A read of \<open>~/.ssh/id_rsa\<close> as a concrete event.\<close>

definition read_key_event :: runtime_event where
  "read_key_event =
     \<lparr>ev_id = ''e1'', ev_type = ToolCallRequested, ev_time = 0, ev_ingest = 0,
      ev_source = McpGateway, ev_session = ''s1'', ev_request = Some (RInt 1), ev_server = None,
      ev_tool = Some ''read_file'', ev_capability = Some ''filesystem.read'', ev_context = None,
      ev_arguments = Some [(''path'', JStr ''~/.ssh/id_rsa'')],
      ev_result = JNull, ev_error = None, ev_raw = []\<rparr>"

definition world0 :: world where
  "world0 =
     \<lparr>w_ms = (\<lambda>n. n), w_rand = (\<lambda>n. n), w_ids = 0, w_wall = int, w_walls = 0,
      w_mono = of_nat, w_monos = 0\<rparr>"

lemma read_key_file_finding:
  "fst (detect_sensitive_file read_key_event w) \<noteq> []"
proof -
  have "classify_sensitive_path ''~/.ssh/id_rsa'' = Some Critical" by code_simp
  then show ?thesis
    by (simp add: detect_sensitive_file_def read_key_event_def extract_target_def extract_opt_def
        TARGET_KEYS_def Let_def case_prod_beta)
qed

theorem engine_findings_contract_witness:
  "\<exists>f \<in> set (fst (detect read_key_event world0)).
     fi_session f = ''s1'' \<and> fi_events f = [''e1''] \<and> fi_rule f \<in> engine_rules"
proof -
  have "fst (detect read_key_event world0) \<noteq> []"
    using read_key_file_finding [of world0]
    by (simp add: detect_def detectors_def Let_def case_prod_beta)
  then obtain f where "f \<in> set (fst (detect read_key_event world0))"
    by (meson last_in_set)
  with engine_findings_contract [of read_key_event world0 world0] show ?thesis
    by (auto simp: read_key_event_def)
qed

end
