(* ===== verification/LlmModels.thy ===== *)
theory LlmModels
  imports Core
begin

text \<open>
  \<open>src/zeroadr/llm/models.py\<close>: the records that carry the answers of a language model into
  the audit trail, with the consistency check that runs when one is built. The range checks
  of the numeric fields are part of \<open>valid_*\<close>.
\<close>

datatype analysis_status = Completed | Failed
datatype analysis_language = Zh | En
datatype verdict = LikelyTruePositive | Uncertain | LikelyFalsePositive

fun verdict_str :: "verdict \<Rightarrow> string" where
  "verdict_str LikelyTruePositive = ''likely_true_positive''"
| "verdict_str Uncertain = ''uncertain''"
| "verdict_str LikelyFalsePositive = ''likely_false_positive''"

record token_usage =
  tu_prompt :: "int option"
  tu_completion :: "int option"
  tu_total :: "int option"

definition opt_nonneg :: "int option \<Rightarrow> bool" where
  "opt_nonneg v = (case v of None \<Rightarrow> True | Some i \<Rightarrow> 0 \<le> i)"

definition valid_token_usage :: "token_usage \<Rightarrow> bool" where
  "valid_token_usage u = (opt_nonneg (tu_prompt u) \<and> opt_nonneg (tu_completion u) \<and> opt_nonneg (tu_total u))"

record llm_analysis_result =
  ar_verdict :: verdict
  ar_risk :: severity
  ar_confidence :: rat
  ar_summary :: string
  ar_rationale :: string
  ar_attack_chain :: "string list"
  ar_actions :: "string list"
  ar_refs :: "string list"
  ar_limitations :: "string list"

record llm_adjudication_result =
  jr_verdict :: verdict
  jr_confidence :: rat
  jr_reason :: string
  jr_refs :: "string list"
  jr_limitations :: "string list"

definition unit_interval :: "rat \<Rightarrow> bool" where
  "unit_interval c = (0 \<le> c \<and> c \<le> 1)"

record llm_adjudication =
  ad_id :: string
  ad_session :: string
  ad_event :: string
  ad_findings :: "string list"
  ad_policy :: string
  ad_created :: int
  ad_status :: analysis_status
  ad_mode :: gate_mode
  ad_stage :: gate_stage
  ad_provider :: string
  ad_model :: string
  ad_prompt_version :: string
  ad_input_sha256 :: string
  ad_result :: "llm_adjudication_result option"
  ad_proposed :: policy_action
  ad_final :: policy_action
  ad_latency_ms :: int
  ad_usage :: "token_usage option"
  ad_provider_request :: "string option"
  ad_error_code :: "string option"
  ad_error_message :: "string option"

text \<open>\<open>validate_status_payload\<close>: a completed record has a result and no error, a failed one
  has an error and no result.\<close>

definition adjudication_consistent :: "llm_adjudication \<Rightarrow> bool" where
  "adjudication_consistent a =
     (if ad_status a = Completed
      then ad_result a \<noteq> None \<and> ad_error_code a = None \<and> ad_error_message a = None
      else ad_result a = None \<and> ad_error_code a \<noteq> None \<and> ad_error_message a \<noteq> None)"

record llm_analysis =
  an_id :: string
  an_session :: string
  an_created :: int
  an_status :: analysis_status
  an_provider :: string
  an_base_url :: string
  an_model :: string
  an_prompt_version :: string
  an_language :: analysis_language
  an_input_sha256 :: string
  an_findings :: "string list"
  an_events :: "string list"
  an_result :: "llm_analysis_result option"
  an_latency_ms :: int
  an_usage :: "token_usage option"
  an_provider_request :: "string option"
  an_error_code :: "string option"
  an_error_message :: "string option"

definition analysis_consistent :: "llm_analysis \<Rightarrow> bool" where
  "analysis_consistent a =
     (if an_status a = Completed
      then an_result a \<noteq> None \<and> an_error_code a = None \<and> an_error_message a = None
      else an_result a = None \<and> an_error_code a \<noteq> None \<and> an_error_message a \<noteq> None)"

end
