(* ===== verification/Storage.thy ===== *)
theory Storage
  imports LlmModels "HOL-Library.Product_Lexorder"
begin

text \<open>
  \<open>src/zeroadr/storage/database.py\<close> and \<open>jsonl.py\<close>. A table is the list of its rows in
  \<open>rowid\<close> order, keyed by the primary key: \<open>insert or replace\<close> deletes an old row of the
  same key and appends the new one, which is what SQLite does with a text primary key. The
  JSON columns hold the records themselves: writing a record with \<open>model_dump_json\<close> and
  reading it back with \<open>model_validate_json\<close> is taken as the identity. Each method opens
  its own transaction, so a method is one atomic step. A creation time column holds an ISO
  time in UTC, whose order as text is the order of the times.
\<close>

section \<open>Tables\<close>

type_synonym 'v table = "(string \<times> 'v) list"

definition upsert :: "string \<Rightarrow> 'v \<Rightarrow> 'v table \<Rightarrow> 'v table" where
  "upsert k v t = ddel k t @ [(k, v)]"

definition insert_ignore :: "string \<Rightarrow> string list \<Rightarrow> string list" where
  "insert_ignore k ks = (if k \<in> set ks then ks else ks @ [k])"

text \<open>What the clients of a keyed table rely on.\<close>

locale keyed_table =
  fixes put :: "string \<Rightarrow> 'v \<Rightarrow> 't \<Rightarrow> 't"
    and get :: "'t \<Rightarrow> string \<Rightarrow> 'v option"
    and ok :: "'t \<Rightarrow> bool"
  assumes get_put: "get (put k v t) k' = (if k' = k then Some v else get t k')"
    and ok_put: "ok t \<Longrightarrow> ok (put k v t)"
begin

text \<open>Writing a list of rows: the last write of a key wins.\<close>

lemma get_put_all:
  "get (foldl (\<lambda>t (k, v). put k v t) t rows) k =
     (case map_of (rev rows) k of Some v \<Rightarrow> Some v | None \<Rightarrow> get t k)"
proof (induction rows arbitrary: t)
  case Nil
  then show ?case by simp
next
  case (Cons r rows)
  obtain k' v' where r: "r = (k', v')" by (cases r)
  show ?case
    by (auto simp: r Cons get_put map_add_def split: option.splits)
qed

lemma ok_put_all: "ok t \<Longrightarrow> ok (foldl (\<lambda>t (k, v). put k v t) t rows)"
  by (induction rows arbitrary: t) (auto simp: ok_put)

end

interpretation tab: keyed_table upsert map_of "\<lambda>t. distinct (map fst t)"
proof
  fix k k' :: string and v :: 'v and t :: "'v table"
  show "map_of (upsert k v t) k' = (if k' = k then Some v else map_of t k')"
    by (auto simp: upsert_def map_add_def split: option.splits)
  show "distinct (map fst t) \<Longrightarrow> distinct (map fst (upsert k v t))"
    by (auto simp: upsert_def ddel_def distinct_map_filter)
qed

section \<open>The store\<close>

record approval_row =
  row_session :: string
  row_decision :: string
  row_status :: approval_status
  row_request :: approval_request

record provider_health =
  ph_failures :: nat
  ph_last_error :: "string option"
  ph_status :: string

record store =
  db_sessions :: "string list"
  db_events :: "runtime_event table"
  db_findings :: "finding table"
  db_decisions :: "policy_decision table"
  db_approvals :: "approval_row table"
  db_analyses :: "llm_analysis table"
  db_adjudications :: "llm_adjudication table"
  db_result_gates :: "tool_result_gate_record table"
  db_runtime_gates :: "runtime_gate_record table"
  db_health :: "provider_health table"

definition empty_store :: store where
  "empty_store =
     \<lparr>db_sessions = [], db_events = [], db_findings = [], db_decisions = [], db_approvals = [],
      db_analyses = [], db_adjudications = [], db_result_gates = [], db_runtime_gates = [],
      db_health = []\<rparr>"

definition note_session :: "string \<Rightarrow> store \<Rightarrow> store" where
  "note_session sess d = d\<lparr>db_sessions := insert_ignore sess (db_sessions d)\<rparr>"

definition save_event :: "runtime_event \<Rightarrow> store \<Rightarrow> store" where
  "save_event e d =
     (note_session (ev_session e) d)\<lparr>db_events := upsert (ev_id e) e (db_events d)\<rparr>"

definition save_finding :: "finding \<Rightarrow> store \<Rightarrow> store" where
  "save_finding f d =
     (note_session (fi_session f) d)\<lparr>db_findings := upsert (fi_id f) f (db_findings d)\<rparr>"

definition save_policy_decision :: "policy_decision \<Rightarrow> store \<Rightarrow> store" where
  "save_policy_decision p d =
     (note_session (pd_session p) d)\<lparr>db_decisions := upsert (pd_id p) p (db_decisions d)\<rparr>"

definition save_llm_analysis :: "llm_analysis \<Rightarrow> store \<Rightarrow> store" where
  "save_llm_analysis a d =
     (note_session (an_session a) d)\<lparr>db_analyses := upsert (an_id a) a (db_analyses d)\<rparr>"

definition save_llm_adjudication :: "llm_adjudication \<Rightarrow> store \<Rightarrow> store" where
  "save_llm_adjudication a d =
     (note_session (ad_session a) d)\<lparr>db_adjudications := upsert (ad_id a) a (db_adjudications d)\<rparr>"

definition save_tool_result_gate_record :: "tool_result_gate_record \<Rightarrow> store \<Rightarrow> store" where
  "save_tool_result_gate_record r d =
     (note_session (tg_session r) d)\<lparr>db_result_gates := upsert (tg_id r) r (db_result_gates d)\<rparr>"

definition save_runtime_gate_record :: "runtime_gate_record \<Rightarrow> store \<Rightarrow> store" where
  "save_runtime_gate_record r d =
     (note_session (rg_session r) d)\<lparr>db_runtime_gates := upsert (rg_id r) r (db_runtime_gates d)\<rparr>"

definition save_approval_request :: "approval_request \<Rightarrow> store \<Rightarrow> store" where
  "save_approval_request a d =
     (note_session (ap_session a) d)
       \<lparr>db_approvals := upsert (ap_id a)
          \<lparr>row_session = ap_session a, row_decision = ap_decision a, row_status = ap_status a,
           row_request = a\<rparr> (db_approvals d)\<rparr>"

section \<open>Queries\<close>

definition by_time :: "('v \<Rightarrow> int) \<Rightarrow> 'v table \<Rightarrow> 'v list" where
  "by_time created t = map snd (sort_key (\<lambda>(k, v). (created v, k)) t)"

definition llm_analyses_for_session :: "string \<Rightarrow> store \<Rightarrow> llm_analysis list" where
  "llm_analyses_for_session sess d =
     by_time an_created (filter (\<lambda>(k, a). an_session a = sess) (db_analyses d))"

definition llm_adjudications :: "string option \<Rightarrow> store \<Rightarrow> llm_adjudication list" where
  "llm_adjudications sess d =
     by_time ad_created (case sess of
         None \<Rightarrow> db_adjudications d
       | Some x \<Rightarrow> filter (\<lambda>(k, a). ad_session a = x) (db_adjudications d))"

definition llm_adjudications_for_session :: "string \<Rightarrow> store \<Rightarrow> llm_adjudication list" where
  "llm_adjudications_for_session sess d = llm_adjudications (Some sess) d"

definition tool_result_gate_records_for_session ::
  "string \<Rightarrow> store \<Rightarrow> tool_result_gate_record list" where
  "tool_result_gate_records_for_session sess d =
     by_time tg_created (filter (\<lambda>(k, r). tg_session r = sess) (db_result_gates d))"

definition tool_result_gate_records :: "store \<Rightarrow> tool_result_gate_record list" where
  "tool_result_gate_records d = by_time tg_created (db_result_gates d)"

definition runtime_gate_records_for_session :: "string \<Rightarrow> store \<Rightarrow> runtime_gate_record list" where
  "runtime_gate_records_for_session sess d =
     by_time rg_created (filter (\<lambda>(k, r). rg_session r = sess) (db_runtime_gates d))"

definition runtime_gate_records :: "store \<Rightarrow> runtime_gate_record list" where
  "runtime_gate_records d = by_time rg_created (db_runtime_gates d)"

definition list_sessions :: "store \<Rightarrow> string list" where
  "list_sessions d = sort (db_sessions d)"

definition events_for_session :: "string \<Rightarrow> store \<Rightarrow> runtime_event list" where
  "events_for_session sess d = filter (\<lambda>e. ev_session e = sess) (map snd (db_events d))"

definition findings_for_session :: "string \<Rightarrow> store \<Rightarrow> finding list" where
  "findings_for_session sess d = filter (\<lambda>f. fi_session f = sess) (map snd (db_findings d))"

definition policy_decisions_for_session :: "string \<Rightarrow> store \<Rightarrow> policy_decision list" where
  "policy_decisions_for_session sess d =
     filter (\<lambda>p. pd_session p = sess) (map snd (db_decisions d))"

definition get_approval_request :: "string \<Rightarrow> store \<Rightarrow> approval_request option" where
  "get_approval_request i d = map_option row_request (map_of (db_approvals d) i)"

text \<open>A negative limit means no limit to SQLite.\<close>

definition list_approval_requests ::
  "approval_status option \<Rightarrow> string option \<Rightarrow> int option \<Rightarrow> int \<Rightarrow> store \<Rightarrow> approval_request list" where
  "list_approval_requests status sess limit offset d =
     (let rows = filter (\<lambda>r. (case status of None \<Rightarrow> True | Some s \<Rightarrow> row_status r = s)
                           \<and> (case sess of None \<Rightarrow> True | Some x \<Rightarrow> row_session r = x))
                   (map snd (db_approvals d));
          page = (case limit of
                    None \<Rightarrow> rows
                  | Some n \<Rightarrow> (if n < 0 then (\<lambda>x. x) else take (nat n)) (drop (nat offset) rows))
      in map row_request page)"

definition pending_approval_count :: "string option \<Rightarrow> store \<Rightarrow> nat" where
  "pending_approval_count sess d =
     length (filter (\<lambda>r. row_status r = Pending
                       \<and> (case sess of None \<Rightarrow> True | Some x \<Rightarrow> row_session r = x))
               (map snd (db_approvals d)))"

section \<open>Provider health\<close>

definition record_llm_provider_failure :: "string \<Rightarrow> string \<Rightarrow> store \<Rightarrow> provider_health \<times> store" where
  "record_llm_provider_failure error_code provider d =
     (let failures = (case map_of (db_health d) provider of None \<Rightarrow> 0 | Some h \<Rightarrow> ph_failures h) + 1;
          h = \<lparr>ph_failures = failures, ph_last_error = Some error_code,
               ph_status = (if 3 \<le> failures then ''unhealthy'' else ''degraded'')\<rparr>
      in (h, d\<lparr>db_health := upsert provider h (db_health d)\<rparr>))"

definition record_llm_provider_success :: "string \<Rightarrow> store \<Rightarrow> store" where
  "record_llm_provider_success provider d =
     d\<lparr>db_health := upsert provider
         \<lparr>ph_failures = 0, ph_last_error = None, ph_status = ''healthy''\<rparr> (db_health d)\<rparr>"

definition llm_provider_health :: "string \<Rightarrow> store \<Rightarrow> provider_health" where
  "llm_provider_health provider d =
     (case map_of (db_health d) provider of
        None \<Rightarrow> \<lparr>ph_failures = 0, ph_last_error = None, ph_status = ''unknown''\<rparr>
      | Some h \<Rightarrow> h)"

section \<open>Approval transitions\<close>

datatype store_error = KeyError string | ApprovalAlreadyResolved approval_request

text \<open>\<open>update \<dots> where approval_id = ? and status = 'pending'\<close>: the row keeps its place.\<close>

definition update_if_pending ::
  "string \<Rightarrow> approval_request \<Rightarrow> approval_row table \<Rightarrow> approval_row table" where
  "update_if_pending i req t =
     map (\<lambda>(k, r). if k = i \<and> row_status r = Pending
                  then (k, r\<lparr>row_status := ap_status req, row_request := req\<rparr>) else (k, r)) t"

definition updated_rows :: "string \<Rightarrow> approval_row table \<Rightarrow> nat" where
  "updated_rows i t = length (filter (\<lambda>(k, r). k = i \<and> row_status r = Pending) t)"

definition transition_approval_request ::
  "string \<Rightarrow> approval_status \<Rightarrow> string \<Rightarrow> string option \<Rightarrow> store \<Rightarrow> 'a world_scheme \<Rightarrow>
   (store_error + approval_request) \<times> store \<times> 'a world_scheme" where
  "transition_approval_request i status by comment d w =
     (case map_of (db_approvals d) i of
        None \<Rightarrow> (Inl (KeyError i), d, w)
      | Some row \<Rightarrow>
          (let (now, w) = utc_now w;
               transitioned = (row_request row)
                 \<lparr>ap_status := status, ap_resolved_at := Some now, ap_resolved_by := Some by,
                  ap_comment := comment\<rparr>;
               d' = d\<lparr>db_approvals := update_if_pending i transitioned (db_approvals d)\<rparr> in
           if updated_rows i (db_approvals d) = 1 then (Inr transitioned, d', w)
           else case map_of (db_approvals d') i of
                  None \<Rightarrow> (Inl (KeyError i), d', w)
                | Some current \<Rightarrow> (Inl (ApprovalAlreadyResolved (row_request current)), d', w)))"

definition resolve_approval_request ::
  "string \<Rightarrow> approval_status \<Rightarrow> string \<Rightarrow> string option \<Rightarrow> store \<Rightarrow> 'a world_scheme \<Rightarrow>
   (store_error + approval_request) \<times> store \<times> 'a world_scheme" where
  "resolve_approval_request i status by comment d w =
     transition_approval_request i status by comment d w"

definition mark_approval_expired ::
  "string \<Rightarrow> store \<Rightarrow> 'a world_scheme \<Rightarrow> (store_error + approval_request) \<times> store \<times> 'a world_scheme" where
  "mark_approval_expired i d w =
     transition_approval_request i Expired ''system''
       (Some ''Approval expired before human resolution.'') d w"

section \<open>The trace file\<close>

text \<open>\<open>write_event_jsonl\<close> appends a line, \<open>read_events_jsonl\<close> reads the lines back; no file
  reads as no events.\<close>

definition write_event_jsonl :: "runtime_event \<Rightarrow> runtime_event list \<Rightarrow> runtime_event list" where
  "write_event_jsonl e lines = lines @ [e]"

definition read_events_jsonl :: "runtime_event list option \<Rightarrow> runtime_event list" where
  "read_events_jsonl f = (case f of None \<Rightarrow> [] | Some lines \<Rightarrow> lines)"

section \<open>Write-once cells\<close>

text \<open>A cell that operations may settle, and no operation changes afterwards: over any run of
  operations at most one wins, and the cell holds what the winner wrote.\<close>

primrec run_ops :: "('op \<Rightarrow> 's \<Rightarrow> 'o \<times> 's) \<Rightarrow> 'op list \<Rightarrow> 's \<Rightarrow> 'o list \<times> 's" where
  "run_ops step [] s = ([], s)"
| "run_ops step (p # ps) s =
     (fst (step p s) # fst (run_ops step ps (snd (step p s))), snd (run_ops step ps (snd (step p s))))"

locale write_once =
  fixes step :: "'op \<Rightarrow> 's \<Rightarrow> 'o \<times> 's"
    and settled :: "'s \<Rightarrow> 'v option"
    and won :: "'op \<Rightarrow> 'o \<Rightarrow> 'v option"
    and inv :: "'s \<Rightarrow> bool"
    and allowed :: "'op \<Rightarrow> bool"
  assumes inv_step: "inv s \<Longrightarrow> allowed p \<Longrightarrow> inv (snd (step p s))"
    and stays: "inv s \<Longrightarrow> allowed p \<Longrightarrow> settled s = Some v \<Longrightarrow>
       settled (snd (step p s)) = Some v \<and> won p (fst (step p s)) = None"
    and settles: "inv s \<Longrightarrow> allowed p \<Longrightarrow> settled s = None \<Longrightarrow>
       settled (snd (step p s)) = won p (fst (step p s))"
begin

abbreviation wins :: "'op list \<Rightarrow> 's \<Rightarrow> 'v list" where
  "wins ps s \<equiv> List.map_filter (case_prod won) (zip ps (fst (run_ops step ps s)))"

lemma settled_run:
  assumes "inv s" "\<forall>p\<in>set ps. allowed p" "settled s = Some v"
  shows "wins ps s = [] \<and> settled (snd (run_ops step ps s)) = Some v"
  using assms by (induction ps arbitrary: s) (auto simp: stays inv_step List.map_filter_simps)

lemma wins_at_most_once:
  assumes "inv s" "\<forall>p\<in>set ps. allowed p" "settled s = None"
  shows "wins ps s = (case settled (snd (run_ops step ps s)) of None \<Rightarrow> [] | Some v \<Rightarrow> [v])"
  using assms
proof (induction ps arbitrary: s)
  case Nil
  then show ?case by (simp add: List.map_filter_simps)
next
  case (Cons p ps)
  let ?s = "snd (step p s)"
  have ok: "inv ?s" "\<forall>p\<in>set ps. allowed p" using Cons.prems inv_step by auto
  have w: "settled ?s = won p (fst (step p s))" using Cons.prems settles by auto
  show ?case
  proof (cases "settled ?s")
    case None
    then show ?thesis using Cons.IH [OF ok None] w by (simp add: List.map_filter_simps)
  next
    case (Some v)
    then show ?thesis using settled_run [OF ok Some] w by (simp add: List.map_filter_simps)
  qed
qed

end

section \<open>The life of an approval request\<close>

text \<open>The operations that touch the table of approval requests.\<close>

datatype approval_op =
    RequestApproval approval_request
  | ResolveApproval string approval_status string "string option"
  | ExpireApproval string

fun approval_step ::
  "approval_op \<Rightarrow> store \<times> 'a world_scheme \<Rightarrow>
   (store_error + approval_request) \<times> store \<times> 'a world_scheme" where
  "approval_step (RequestApproval a) (d, w) = (Inr a, save_approval_request a d, w)"
| "approval_step (ResolveApproval i status by comment) (d, w) =
     resolve_approval_request i status by comment d w"
| "approval_step (ExpireApproval i) (d, w) = mark_approval_expired i d w"

text \<open>A row is in step when its columns repeat what its JSON says.\<close>

definition row_in_step :: "string \<Rightarrow> approval_row \<Rightarrow> bool" where
  "row_in_step k r =
     (k = ap_id (row_request r) \<and> row_status r = ap_status (row_request r)
      \<and> row_session r = ap_session (row_request r) \<and> row_decision r = ap_decision (row_request r))"

definition approvals_ok :: "store \<Rightarrow> bool" where
  "approvals_ok d =
     (distinct (map fst (db_approvals d)) \<and> (\<forall>(k, r) \<in> set (db_approvals d). row_in_step k r))"

definition resolution :: "string \<Rightarrow> store \<Rightarrow> approval_request option" where
  "resolution i d =
     (case get_approval_request i d of
        None \<Rightarrow> None
      | Some a \<Rightarrow> if ap_status a = Pending then None else Some a)"

lemma fst_update_if_pending [simp]: "map fst (update_if_pending i req t) = map fst t"
  by (simp add: update_if_pending_def case_prod_beta comp_def if_distrib cong: if_cong)

lemma map_of_update_if_pending:
  "map_of (update_if_pending i req t) k =
     (case map_of t k of
        None \<Rightarrow> None
      | Some r \<Rightarrow> Some (if k = i \<and> row_status r = Pending
                      then r\<lparr>row_status := ap_status req, row_request := req\<rparr> else r))"
  by (induction t) (auto simp: update_if_pending_def split: if_splits)

lemma updated_rows_distinct:
  "distinct (map fst t) \<Longrightarrow>
   updated_rows i t = (case map_of t i of Some r \<Rightarrow> if row_status r = Pending then 1 else 0 | None \<Rightarrow> 0)"
proof (induction t)
  case Nil
  then show ?case by (simp add: updated_rows_def)
next
  case (Cons kr t)
  obtain k r where kr: "kr = (k, r)" by (cases kr)
  have "updated_rows i t = 0" if "k = i"
    using Cons.prems that kr by (force simp: updated_rows_def filter_empty_conv)
  then show ?case using Cons by (auto simp: kr updated_rows_def)
qed

text \<open>What a transition does, for a table with distinct keys.\<close>

definition transitioned ::
  "approval_status \<Rightarrow> string \<Rightarrow> string option \<Rightarrow> int \<Rightarrow> approval_request \<Rightarrow> approval_request" where
  "transitioned status by comment now a =
     a\<lparr>ap_status := status, ap_resolved_at := Some now, ap_resolved_by := Some by, ap_comment := comment\<rparr>"

lemma transition_unknown:
  "map_of (db_approvals d) i = None \<Longrightarrow>
   transition_approval_request i status by comment d w = (Inl (KeyError i), d, w)"
  by (simp add: transition_approval_request_def)

lemma transition_pending:
  assumes "approvals_ok d" "map_of (db_approvals d) i = Some r" "row_status r = Pending"
  shows "transition_approval_request i status by comment d w =
     (Inr (transitioned status by comment (fst (utc_now w)) (row_request r)),
      d\<lparr>db_approvals := update_if_pending i
           (transitioned status by comment (fst (utc_now w)) (row_request r)) (db_approvals d)\<rparr>,
      snd (utc_now w))"
  using assms
  by (simp add: transition_approval_request_def approvals_ok_def updated_rows_distinct
      transitioned_def case_prod_beta Let_def)

lemma update_if_pending_other:
  assumes "distinct (map fst t)" "map_of t i = Some r" "row_status r \<noteq> Pending"
  shows "update_if_pending i req t = t"
proof -
  have "x = r" if "(i, x) \<in> set t" for x
    using assms(1,2) that by (simp add: map_of_eq_Some_iff eq_key_imp_eq_value)
  then show ?thesis
    using assms(3) by (auto simp: update_if_pending_def intro!: map_idI)
qed

lemma transition_resolved:
  assumes "approvals_ok d" "map_of (db_approvals d) i = Some r" "row_status r \<noteq> Pending"
  shows "transition_approval_request i status by comment d w =
     (Inl (ApprovalAlreadyResolved (row_request r)), d, snd (utc_now w))"
  using assms
  by (simp add: transition_approval_request_def approvals_ok_def updated_rows_distinct
      update_if_pending_other case_prod_beta Let_def)

lemmas transition_cases = transition_unknown transition_pending transition_resolved

lemma approvals_ok_save [inv_intros]: "approvals_ok d \<Longrightarrow> approvals_ok (save_approval_request a d)"
  using tab.ok_put [of "db_approvals d"]
  by (auto simp: approvals_ok_def save_approval_request_def note_session_def upsert_def ddel_def
      row_in_step_def)

lemma approvals_ok_update:
  assumes "approvals_ok d" "map_of (db_approvals d) i = Some r"
  shows "approvals_ok (d\<lparr>db_approvals := update_if_pending i (transitioned st by c t (row_request r))
                          (db_approvals d)\<rparr>)"
proof -
  have "x = r" if "(i, x) \<in> set (db_approvals d)" for x
    using assms that by (simp add: approvals_ok_def map_of_eq_Some_iff eq_key_imp_eq_value)
  then have "\<forall>(k, x) \<in> set (update_if_pending i (transitioned st by c t (row_request r))
                 (db_approvals d)). row_in_step k x"
    using assms(1)
    by (auto simp: approvals_ok_def row_in_step_def transitioned_def update_if_pending_def
        split: if_splits)
  then show ?thesis using assms(1) by (simp add: approvals_ok_def)
qed

lemma approvals_ok_transition [inv_intros]:
  assumes "approvals_ok d"
  shows "approvals_ok (fst (snd (transition_approval_request i st by c d w)))"
proof (cases "map_of (db_approvals d) i")
  case None
  then show ?thesis using assms by (simp add: transition_unknown)
next
  case (Some r)
  then show ?thesis
    using assms approvals_ok_update [OF assms Some]
    by (cases "row_status r = Pending") (simp_all add: transition_pending transition_resolved)
qed

lemmas approval_ops = resolve_approval_request_def mark_approval_expired_def

lemma approvals_ok_step:
  "approvals_ok (fst s) \<Longrightarrow> approvals_ok (fst (snd (approval_step p s)))"
  by (cases "(p, s)" rule: approval_step.cases) (auto simp: approval_ops intro: inv_intros)

text \<open>Operations of other requests leave a row alone.\<close>

lemma get_approval_request_save:
  "get_approval_request i (save_approval_request a d) =
     (if i = ap_id a then Some a else get_approval_request i d)"
  by (simp add: get_approval_request_def save_approval_request_def note_session_def tab.get_put)

lemma get_approval_request_update:
  "get_approval_request i (d\<lparr>db_approvals := update_if_pending j req (db_approvals d)\<rparr>) =
     (case map_of (db_approvals d) i of
        None \<Rightarrow> None
      | Some r \<Rightarrow> Some (if i = j \<and> row_status r = Pending then req else row_request r))"
  by (simp add: get_approval_request_def map_of_update_if_pending split: option.splits)

lemma row_status_pending:
  "approvals_ok d \<Longrightarrow> map_of (db_approvals d) i = Some r \<Longrightarrow> row_status r = ap_status (row_request r)"
  by (auto simp: approvals_ok_def row_in_step_def dest!: map_of_SomeD)

lemma transition_result:
  assumes "approvals_ok d"
  shows "fst (transition_approval_request i st by c d w) =
     (case get_approval_request i d of
        None \<Rightarrow> Inl (KeyError i)
      | Some a \<Rightarrow> if ap_status a = Pending then Inr (transitioned st by c (fst (utc_now w)) a)
                 else Inl (ApprovalAlreadyResolved a))"
  using assms row_status_pending [OF assms]
  by (cases "map_of (db_approvals d) i"; cases "row_status (the (map_of (db_approvals d) i)) = Pending")
     (auto simp: get_approval_request_def transition_cases)

lemma transition_get:
  assumes "approvals_ok d"
  shows "get_approval_request k (fst (snd (transition_approval_request i st by c d w))) =
     (case fst (transition_approval_request i st by c d w) of
        Inl _ \<Rightarrow> get_approval_request k d
      | Inr a \<Rightarrow> if k = i then Some a else get_approval_request k d)"
  using assms
  by (cases "map_of (db_approvals d) i"; cases "row_status (the (map_of (db_approvals d) i)) = Pending")
     (auto simp: transition_cases get_approval_request_update, auto simp: get_approval_request_def
       split: option.splits)

text \<open>The operations of one request's life: it is not stored again, and a resolution is one of
  the final states.\<close>

fun keeps_identity :: "string \<Rightarrow> approval_op \<Rightarrow> bool" where
  "keeps_identity i (RequestApproval a) = (ap_id a \<noteq> i)"
| "keeps_identity i (ResolveApproval j status by comment) = (status \<noteq> Pending)"
| "keeps_identity i (ExpireApproval j) = True"

fun resolves :: "string \<Rightarrow> approval_op \<Rightarrow> store_error + approval_request \<Rightarrow> approval_request option" where
  "resolves i (ResolveApproval j status by comment) (Inr a) = (if j = i then Some a else None)"
| "resolves i (ExpireApproval j) (Inr a) = (if j = i then Some a else None)"
| "resolves i p res = None"

interpretation approval: write_once approval_step "resolution i \<circ> fst" "resolves i"
    "approvals_ok \<circ> fst" "keeps_identity i" for i
proof
  fix s :: "store \<times> 'a world_scheme" and p v
  assume ok: "(approvals_ok \<circ> fst) s" and al: "keeps_identity i p"
  obtain d w where s: "s = (d, w)" by (cases s)
  from ok show "(approvals_ok \<circ> fst) (snd (approval_step p s))" by (simp add: approvals_ok_step)
  have okd: "approvals_ok d" using ok s by simp
  show "(resolution i \<circ> fst) s = Some v \<Longrightarrow>
      (resolution i \<circ> fst) (snd (approval_step p s)) = Some v \<and> resolves i p (fst (approval_step p s)) = None"
    using al okd
    by (cases p) (auto simp: s resolution_def get_approval_request_save approval_ops transition_get
        transition_result transitioned_def split: option.splits if_splits)
  show "(resolution i \<circ> fst) s = None \<Longrightarrow>
      (resolution i \<circ> fst) (snd (approval_step p s)) = resolves i p (fst (approval_step p s))"
    using al okd
    by (cases p) (auto simp: s resolution_def get_approval_request_save approval_ops transition_get
        transition_result transitioned_def split: option.splits if_splits)
qed

text \<open>Only the four resolution fields of a stored request ever change.\<close>

definition same_question :: "approval_request \<Rightarrow> approval_request \<Rightarrow> bool" where
  "same_question a b =
     (b\<lparr>ap_status := ap_status a, ap_resolved_at := ap_resolved_at a,
        ap_resolved_by := ap_resolved_by a, ap_comment := ap_comment a\<rparr> = a)"

lemma same_question_refl [simp]: "same_question a a"
  by (simp add: same_question_def)

lemma same_question_transitioned [simp]:
  "same_question a (transitioned st by c t b) = same_question a b"
  by (simp add: same_question_def transitioned_def)

definition asked :: "string \<Rightarrow> approval_request \<Rightarrow> store \<Rightarrow> bool" where
  "asked i a d = (case get_approval_request i d of
      None \<Rightarrow> False | Some b \<Rightarrow> same_question a b \<and> (ap_status b = Pending \<longrightarrow> b = a))"

lemma asked_step:
  assumes "approvals_ok d" "asked i a d" "keeps_identity i p"
  shows "asked i a (fst (snd (approval_step p (d, w))))"
  using assms
  by (cases p) (auto simp: asked_def get_approval_request_save approval_ops transition_get
      transition_result split: option.splits if_splits, auto simp: transitioned_def)

lemma asked_run:
  assumes "approvals_ok (fst s)" "asked i a (fst s)" "\<forall>p\<in>set ps. keeps_identity i p"
  shows "asked i a (fst (snd (run_ops approval_step ps s)))"
  using assms
proof (induction ps arbitrary: s)
  case (Cons p ps)
  then show ?case using asked_step [of "fst s" i a p "snd s"] approvals_ok_step [of s p] by simp
qed simp

text \<open>C1. Over any sequence of attempts to resolve and expire approval requests, interleaved with
  new requests, a pending request is resolved by at most one attempt: the list of its
  successful attempts is empty while it is pending and is exactly the stored final record
  afterwards. Until then the stored record is the original one, and the resolution changes
  only its status and resolution fields.\<close>

theorem approval_resolved_at_most_once:
  assumes "approvals_ok d" "get_approval_request i d = Some a" "ap_status a = Pending"
    and "\<forall>p\<in>set ps. keeps_identity i p"
    and "run_ops approval_step ps (d, w) = (outs, d', w')"
  shows "\<exists>b. get_approval_request i d' = Some b \<and> same_question a b \<and>
    (if ap_status b = Pending
     then b = a \<and> List.map_filter (case_prod (resolves i)) (zip ps outs) = []
     else List.map_filter (case_prod (resolves i)) (zip ps outs) = [b])"
proof -
  have "asked i a d" using assms(2) by (simp add: asked_def)
  then have "asked i a d'" using asked_run [of "(d, w)" i a ps] assms by simp
  moreover have "(resolution i \<circ> fst) (d, w) = None" using assms(2,3) by (simp add: resolution_def)
  then have "List.map_filter (case_prod (resolves i)) (zip ps outs) =
      (case resolution i d' of None \<Rightarrow> [] | Some v \<Rightarrow> [v])"
    using approval.wins_at_most_once [of "(d, w)" ps i] assms by simp
  ultimately show ?thesis
    by (auto simp: asked_def resolution_def split: option.splits if_splits)
qed

text \<open>A request, for the witnesses.\<close>

definition request1 :: approval_request where
  "request1 =
     \<lparr>ap_id = ''A'', ap_decision = ''D'', ap_session = ''S'', ap_event = ''E'', ap_request = None,
      ap_policy = None, ap_reason = ''r'', ap_findings = [], ap_tool = Some ''shell'',
      ap_capability = Some ''shell.execute'', ap_arguments = None, ap_stage = StagePreTool,
      ap_result_preview = JNull, ap_evidence_preview = JNull, ap_status = Pending, ap_created = 0,
      ap_resolved_at = None, ap_resolved_by = None, ap_comment = None\<rparr>"

definition world1 :: world where
  "world1 = \<lparr>w_ms = (\<lambda>_. 0), w_rand = (\<lambda>n. n), w_ids = 0, w_wall = (\<lambda>n. int n), w_walls = 0,
             w_mono = (\<lambda>n. of_nat n), w_monos = 0\<rparr>"

lemma request1_stored:
  "approvals_ok (save_approval_request request1 empty_store)"
  "get_approval_request ''A'' (save_approval_request request1 empty_store) = Some request1"
proof -
  have "approvals_ok empty_store" by (simp add: approvals_ok_def empty_store_def)
  then show "approvals_ok (save_approval_request request1 empty_store)" by (rule inv_intros)
  show "get_approval_request ''A'' (save_approval_request request1 empty_store) = Some request1"
    by (simp add: get_approval_request_save) (simp add: request1_def)
qed

theorem approval_resolved_at_most_once_witness:
  "\<exists>b outs d' w'. run_ops approval_step [ResolveApproval ''A'' Denied ''eve'' None,
        ResolveApproval ''A'' Approved ''bob'' None, ExpireApproval ''A'']
      (save_approval_request request1 empty_store, world1) = (outs, d', w') \<and>
    get_approval_request ''A'' d' = Some b \<and> same_question request1 b"
proof -
  obtain outs d' w' where r: "run_ops approval_step [ResolveApproval ''A'' Denied ''eve'' None,
        ResolveApproval ''A'' Approved ''bob'' None, ExpireApproval ''A'']
      (save_approval_request request1 empty_store, world1) = (outs, d', w')"
    by (metis prod_cases3)
  have "ap_status request1 = Pending" by (simp add: request1_def)
  from approval_resolved_at_most_once [OF request1_stored this _ r] r show ?thesis by auto
qed

section \<open>Health of a language model provider\<close>

definition record_outcome :: "string \<Rightarrow> string option \<Rightarrow> store \<Rightarrow> store" where
  "record_outcome provider err d =
     (case err of None \<Rightarrow> record_llm_provider_success provider d
      | Some code \<Rightarrow> snd (record_llm_provider_failure code provider d))"

definition outcomes_of :: "string \<Rightarrow> (string \<times> string option) list \<Rightarrow> string option list" where
  "outcomes_of p calls = map snd (filter (\<lambda>c. fst c = p) calls)"

definition trailing_failures :: "string option list \<Rightarrow> nat" where
  "trailing_failures outcomes = length (takeWhile (\<lambda>e. e \<noteq> None) (rev outcomes))"

lemma health_outcome:
  "llm_provider_health p (record_outcome q err d) =
     (if p \<noteq> q then llm_provider_health p d
      else case err of
        None \<Rightarrow> \<lparr>ph_failures = 0, ph_last_error = None, ph_status = ''healthy''\<rparr>
      | Some code \<Rightarrow> (let n = ph_failures (llm_provider_health p d) + 1 in
          \<lparr>ph_failures = n, ph_last_error = Some code,
           ph_status = (if 3 \<le> n then ''unhealthy'' else ''degraded'')\<rparr>))"
  by (auto simp: llm_provider_health_def record_outcome_def record_llm_provider_success_def
      record_llm_provider_failure_def Let_def tab.get_put split: option.splits)

text \<open>After any sequence of calls the health of a provider is given by its trailing
  failures: with none it is healthy, with one or two degraded, with three or more unhealthy;
  the count and the last error are recorded, and the calls of other providers do not matter.\<close>

theorem provider_health_trailing_failures:
  "llm_provider_health p (foldl (\<lambda>d (q, e). record_outcome q e d) empty_store calls) =
    (let mine = outcomes_of p calls; n = trailing_failures mine in
     \<lparr>ph_failures = n,
      ph_last_error = (if mine = [] then None else last mine),
      ph_status = (if mine = [] then ''unknown'' else if n = 0 then ''healthy''
                   else if n < 3 then ''degraded'' else ''unhealthy'')\<rparr>)"
proof (induction calls rule: rev_induct)
  case Nil
  then show ?case by (simp add: llm_provider_health_def empty_store_def outcomes_of_def trailing_failures_def)
next
  case (snoc c calls)
  obtain q e where "c = (q, e)" by (cases c)
  then show ?case
    using snoc by (cases e) (auto simp: health_outcome Let_def outcomes_of_def trailing_failures_def)
qed

end
