(* ===== verification/Redaction.thy ===== *)
theory Redaction
  imports Core PyRegex
begin

text \<open>
  \<open>src/zeroadr/security/redaction.py\<close>: values under sensitive keys are replaced at any
  depth, texts lose private keys, inline tokens and the right-hand sides of sensitive
  \<open>KEY=value\<close> lines.
\<close>

definition REDACTED :: string where
  "REDACTED = ''[REDACTED]''"

definition SENSITIVE_KEY_PARTS :: "string list" where
  "SENSITIVE_KEY_PARTS =
     [''token'', ''api_key'', ''apikey'', ''password'', ''secret'', ''authorization'',
      ''credential'', ''private_key'', ''privatekey'']"

definition cls_keyword :: "char \<Rightarrow> bool" where
  "cls_keyword c = (cls_upper c \<or> cls_digit c \<or> c = CHR '' '')"

text \<open>\<open>.*?\<close> under \<open>DOTALL\<close> is a lazy run of any characters.\<close>

definition PRIVATE_KEY_PATTERN :: regex where
  "PRIVATE_KEY_PATTERN =
     rseq [RLit ''-----BEGIN '', star cls_keyword, RLit ''PRIVATE KEY-----'',
           RRep (\<lambda>_. True) 0 None False,
           RLit ''-----END '', star cls_keyword, RLit ''PRIVATE KEY-----'']"

definition ci :: "char \<Rightarrow> char \<Rightarrow> bool" where
  "ci a c = (lower_char c = lower_char a)"

definition cls_bearer :: "char \<Rightarrow> bool" where
  "cls_bearer c = (cls_alnum c \<or> c \<in> set ''._~+/=-'')"

definition cls_key :: "char \<Rightarrow> bool" where
  "cls_key c = (cls_alnum c \<or> c = CHR ''_'' \<or> c = CHR ''-'')"

definition INLINE_SECRET_PATTERNS :: "regex list" where
  "INLINE_SECRET_PATTERNS =
     [rseq ([RWordB] @ map (\<lambda>a. one (ci a)) ''Bearer'' @ [plus1 is_space, atleast 12 cls_bearer]),
      rseq [RWordB, RLit ''sk-'', atleast 16 cls_key],
      rseq [RWordB, RLit ''gh'', one (\<lambda>c. c \<in> set ''pousr''), RLit ''_'',
            atleast 20 cls_alnum, RWordB],
      rseq [RWordB, RLit ''AKIA'', exactly 16 (\<lambda>c. cls_digit c \<or> cls_upper c), RWordB]]"

definition is_sensitive_key :: "string \<Rightarrow> bool" where
  "is_sensitive_key key =
     (let normalized = replace_char (CHR ''-'') (CHR ''_'') (lower key)
      in \<exists>part \<in> set SENSITIVE_KEY_PARTS. sublist part normalized)"

definition redact_env_line :: "string \<Rightarrow> string" where
  "redact_env_line line =
     (let (key, found, raw_value) = partition_at (CHR ''='') line in
      if \<not> found then line
      else if is_sensitive_key (strip key) then key @ ''='' @ REDACTED
      else key @ ''='' @ raw_value)"

definition redact_string :: "string \<Rightarrow> string" where
  "redact_string value =
     (if re_search PRIVATE_KEY_PATTERN value then REDACTED
      else let v = fold (\<lambda>r s. re_sub r REDACTED s) INLINE_SECRET_PATTERNS value;
               ls = splitlines v in
           if ls = [] then v
           else join (if CHR 10 \<in> set v then [CHR 10] else []) (map redact_env_line ls))"

fun redact_value :: "json \<Rightarrow> json" where
  "redact_value (JObj d) =
     JObj (map (\<lambda>(k, v). (k, if is_sensitive_key k then JStr REDACTED else redact_value v)) d)"
| "redact_value (JList xs) = JList (map redact_value xs)"
| "redact_value (JTuple xs) = JTuple (map redact_value xs)"
| "redact_value (JStr s) = JStr (redact_string s)"
| "redact_value v = v"

definition redact_dict :: "jdict \<Rightarrow> jdict" where
  "redact_dict d =
     map (\<lambda>(k, v). (k, if is_sensitive_key k then JStr REDACTED else redact_value v)) d"

text \<open>\<open>arguments\<close>, \<open>error\<close> and \<open>raw\<close> are dictionaries or \<open>None\<close>; the redactor keeps them so.\<close>

definition redact_event :: "runtime_event \<Rightarrow> runtime_event" where
  "redact_event e =
     e\<lparr>ev_arguments := map_option redact_dict (ev_arguments e),
       ev_result := redact_value (ev_result e),
       ev_error := map_option redact_dict (ev_error e),
       ev_raw := redact_dict (ev_raw e)\<rparr>"

section \<open>What redaction guarantees\<close>

text \<open>\<open>sealed v\<close>: at every depth of \<open>v\<close> a sensitive key holds the marker and nothing else.\<close>

fun sealed :: "json \<Rightarrow> bool" where
  "sealed (JObj d) = (\<forall>(k, v) \<in> set d. if is_sensitive_key k then v = JStr REDACTED else sealed v)"
| "sealed (JList xs) = (\<forall>x \<in> set xs. sealed x)"
| "sealed (JTuple xs) = (\<forall>x \<in> set xs. sealed x)"
| "sealed v = True"

text \<open>\<open>paths v\<close>: the ways into a value, by key and by position, that do not pass a sensitive
  key; redaction keeps them, so that the record stays readable.\<close>

datatype hop = Key string | At nat

fun reach :: "hop list \<Rightarrow> json \<Rightarrow> json option" where
  "reach [] v = Some v"
| "reach (Key k # hs) (JObj d) = (case map_of d k of None \<Rightarrow> None | Some v \<Rightarrow> reach hs v)"
| "reach (At i # hs) (JList xs) = (if i < length xs then reach hs (xs ! i) else None)"
| "reach (At i # hs) (JTuple xs) = (if i < length xs then reach hs (xs ! i) else None)"
| "reach (h # hs) v = None"

fun open_hop :: "hop \<Rightarrow> bool" where
  "open_hop (Key k) = (\<not> is_sensitive_key k)"
| "open_hop (At i) = True"

lemma sealed_redact_value: "sealed (redact_value v)"
  by (induction v rule: redact_value.induct) auto

lemma redact_value_dict: "redact_value (JObj d) = JObj (redact_dict d)"
  by (simp add: redact_dict_def)

lemma sealed_redact_dict: "sealed (JObj (redact_dict d))"
  using sealed_redact_value [of "JObj d"] by (simp only: redact_value_dict)

lemma map_of_redact:
  "map_of (map (\<lambda>(k, v). (k, if is_sensitive_key k then JStr REDACTED else redact_value v)) d) k =
     map_option (\<lambda>v. if is_sensitive_key k then JStr REDACTED else redact_value v) (map_of d k)"
  by (induction d) auto

lemma reach_redacted:
  "\<forall>h\<in>set hs. open_hop h \<Longrightarrow> reach hs (redact_value v) = map_option redact_value (reach hs v)"
  by (induction hs v rule: reach.induct) (auto simp: map_of_redact split: option.splits)

definition sealed_event :: "runtime_event \<Rightarrow> bool" where
  "sealed_event e =
     (pred_option (\<lambda>d. sealed (JObj d)) (ev_arguments e) \<and> sealed (ev_result e)
      \<and> pred_option (\<lambda>d. sealed (JObj d)) (ev_error e) \<and> sealed (JObj (ev_raw e)))"

lemma sealed_redact_event: "sealed_event (redact_event e)"
  by (auto simp: sealed_event_def redact_event_def option.pred_map sealed_redact_value
      pred_option_def sealed_redact_dict simp del: sealed.simps)


definition env_event :: runtime_event where
  "env_event =
     \<lparr>ev_id = ''e'', ev_type = ToolCallCompleted, ev_time = 0, ev_ingest = 0, ev_source = Hook,
      ev_session = ''s'', ev_request = None, ev_server = None, ev_tool = None, ev_capability = None,
      ev_context = None, ev_arguments = None,
      ev_result = JObj [(''env'', JObj [(''API_KEY'', JStr ''x''), (''n'', JInt 1)])],
      ev_error = None, ev_raw = []\<rparr>"

lemma env_key_open: "\<not> is_sensitive_key ''env''" "\<not> is_sensitive_key ''n''"
  by code_simp+


end
