(* ===== verification/PyStd.thy ===== *)
theory PyStd
  imports Core "HOL-Library.Word"
begin

unbundle bit_operations_syntax

text \<open>
  What the program uses of Python's standard library: \<open>json.dumps\<close>, the UTF-8 encoding,
  \<open>hashlib.sha256\<close>, the ISO form of a time in UTC and \<open>round\<close>.
\<close>

section \<open>JSON text\<close>

text \<open>The escapes of a JSON string; with \<open>ensure_ascii\<close> everything outside the printable
  ASCII range is written as a four-digit escape.\<close>

definition json_escape :: "bool \<Rightarrow> char \<Rightarrow> string" where
  "json_escape ascii c =
     (let n = ord c in
      if n = 34 \<or> n = 92 then [CHR 92, c]
      else if n = 10 then [CHR 92, CHR ''n'']
      else if n = 13 then [CHR 92, CHR ''r'']
      else if n = 9 then [CHR 92, CHR ''t'']
      else if n = 8 then [CHR 92, CHR ''b'']
      else if n = 12 then [CHR 92, CHR ''f'']
      else if n < 32 \<or> ascii \<and> 126 < n
      then [CHR 92] @ ''u00'' @ [hex_digit (n div 16), hex_digit (n mod 16)]
      else [c])"

definition json_string :: "bool \<Rightarrow> string \<Rightarrow> string" where
  "json_string ascii s = [CHR 34] @ concat (map (json_escape ascii) s) @ [CHR 34]"

text \<open>\<open>comma\<close> and \<open>colon\<close> are the two separators.\<close>

fun json_text :: "bool \<Rightarrow> string \<Rightarrow> string \<Rightarrow> json \<Rightarrow> string" where
  "json_text ascii comma colon JNull = ''null''"
| "json_text ascii comma colon (JBool b) = (if b then ''true'' else ''false'')"
| "json_text ascii comma colon (JInt i) = int_str i"
| "json_text ascii comma colon (JFloat m e) = float_repr m e"
| "json_text ascii comma colon (JStr s) = json_string ascii s"
| "json_text ascii comma colon (JList xs) =
     ''['' @ join comma (map (json_text ascii comma colon) xs) @ '']''"
| "json_text ascii comma colon (JTuple xs) =
     ''['' @ join comma (map (json_text ascii comma colon) xs) @ '']''"
| "json_text ascii comma colon (JObj d) =
     ''{'' @ join comma (map (\<lambda>(k, v). json_string ascii k @ colon @ json_text ascii comma colon v) d)
     @ ''}''"

text \<open>\<open>sort_keys=True\<close>.\<close>

fun sort_keys :: "json \<Rightarrow> json" where
  "sort_keys (JObj d) = JObj (sort_key fst (map (\<lambda>(k, v). (k, sort_keys v)) d))"
| "sort_keys (JList xs) = JList (map sort_keys xs)"
| "sort_keys (JTuple xs) = JTuple (map sort_keys xs)"
| "sort_keys v = v"

text \<open>\<open>json.dumps(v)\<close>, and with \<open>ensure_ascii=False, separators=(",", ":"), sort_keys=True\<close>.\<close>

definition json_dumps :: "json \<Rightarrow> string" where
  "json_dumps v = json_text True '', '' '': '' v"

definition canonical_json :: "json \<Rightarrow> string" where
  "canonical_json v = json_text False '','' '':'' (sort_keys v)"

section \<open>UTF-8\<close>

definition utf8_char :: "char \<Rightarrow> nat list" where
  "utf8_char c = (let n = ord c in if n < 128 then [n] else [192 + n div 64, 128 + n mod 64])"

definition utf8 :: "string \<Rightarrow> nat list" where
  "utf8 s = concat (map utf8_char s)"

lemma utf8_append [simp]: "utf8 (s @ t) = utf8 s @ utf8 t"
  by (simp add: utf8_def)

lemma length_utf8_ge: "length s \<le> length (utf8 s)"
  by (induction s) (auto simp: utf8_def utf8_char_def Let_def)

section \<open>SHA-256\<close>

text \<open>The round constants and the initial state are the first 32 fractional bits of the cube
  roots and of the square roots of the first primes; \<open>root_bits k n b r\<close> searches the \<open>k\<close>th root
  of \<open>n\<close> above \<open>r\<close> from bit \<open>b\<close> downwards.\<close>

fun root_bits :: "nat \<Rightarrow> nat \<Rightarrow> nat \<Rightarrow> nat \<Rightarrow> nat" where
  "root_bits k n 0 r = r"
| "root_bits k n (Suc b) r =
     root_bits k n b (if (r + 2 ^ b) ^ k \<le> n then r + 2 ^ b else r)"

definition small_primes :: "nat list" where
  "small_primes = filter (\<lambda>p. list_all (\<lambda>d. p mod d \<noteq> 0) [2..<p]) [2..<312]"

definition root_fraction :: "nat \<Rightarrow> nat \<Rightarrow> 32 word" where
  "root_fraction k p = of_nat (root_bits k (p * 2 ^ (32 * k)) 37 0)"

definition sha_k :: "32 word list" where
  "sha_k = map (root_fraction 3) small_primes"

definition sha_init :: "32 word list" where
  "sha_init = map (root_fraction 2) (take 8 small_primes)"

fun word_bytes :: "nat \<Rightarrow> nat \<Rightarrow> nat list" where
  "word_bytes 0 v = []"
| "word_bytes (Suc n) v = word_bytes n (v div 256) @ [v mod 256]"

definition sha_pad :: "nat list \<Rightarrow> nat list" where
  "sha_pad bs =
     bs @ [128] @ replicate ((55 + 64 - length bs mod 64) mod 64) 0 @ word_bytes 8 (8 * length bs)"

fun words_of :: "nat list \<Rightarrow> 32 word list" where
  "words_of (a # b # c # d # bs) = of_nat (((a * 256 + b) * 256 + c) * 256 + d) # words_of bs"
| "words_of bs = []"

text \<open>The message schedule, newest word first.\<close>

fun sha_schedule :: "nat \<Rightarrow> 32 word list \<Rightarrow> 32 word list" where
  "sha_schedule 0 ws = ws"
| "sha_schedule (Suc n) ws =
     (let a = ws ! 14; b = ws ! 1;
          s0 = word_rotr 7 a XOR word_rotr 18 a XOR drop_bit 3 a;
          s1 = word_rotr 17 b XOR word_rotr 19 b XOR drop_bit 10 b
      in sha_schedule n ((ws ! 15 + s0 + ws ! 6 + s1) # ws))"

fun sha_round :: "32 word list \<Rightarrow> 32 word \<times> 32 word \<Rightarrow> 32 word list" where
  "sha_round [a, b, c, d, e, f, g, h] (k, x) =
     (let s1 = word_rotr 6 e XOR word_rotr 11 e XOR word_rotr 25 e;
          ch = (e AND f) XOR (NOT e AND g);
          t1 = h + s1 + ch + k + x;
          s0 = word_rotr 2 a XOR word_rotr 13 a XOR word_rotr 22 a;
          maj = (a AND b) XOR (a AND c) XOR (b AND c)
      in [t1 + (s0 + maj), a, b, c, d + t1, e, f, g])"
| "sha_round st kx = st"

definition sha_block :: "32 word list \<Rightarrow> 32 word list \<Rightarrow> 32 word list" where
  "sha_block st block =
     map2 (+) st (foldl sha_round st (zip sha_k (rev (sha_schedule 48 (rev block)))))"

fun sha_blocks :: "nat \<Rightarrow> 32 word list \<Rightarrow> 32 word list \<Rightarrow> 32 word list" where
  "sha_blocks 0 st ws = st"
| "sha_blocks (Suc n) st ws = sha_blocks n (sha_block st (take 16 ws)) (drop 16 ws)"

definition hex_byte :: "nat \<Rightarrow> string" where
  "hex_byte n = [hex_digit (n div 16), hex_digit (n mod 16)]"

text \<open>\<open>hashlib.sha256(bytes).hexdigest()\<close>.\<close>

definition sha256 :: "nat list \<Rightarrow> string" where
  "sha256 bs =
     (let padded = sha_pad bs;
          st = sha_blocks (length padded div 64) sha_init (words_of padded)
      in concat (map (\<lambda>x. concat (map hex_byte (word_bytes 4 (unat x)))) st))"

section \<open>Times\<close>

text \<open>The proleptic Gregorian date of a day number counted from 1970-01-01.\<close>

definition civil :: "int \<Rightarrow> int \<times> int \<times> int" where
  "civil days =
     (let z = days + 719468;
          era = z div 146097; doe = z mod 146097;
          yoe = (doe - doe div 1460 + doe div 36524 - doe div 146096) div 365;
          doy = doe - (365 * yoe + yoe div 4 - yoe div 100);
          mp = (5 * doy + 2) div 153;
          m = (if mp < 10 then mp + 3 else mp - 9)
      in (yoe + era * 400 + (if m \<le> 2 then 1 else 0), m, doy - (153 * mp + 2) div 5 + 1))"

definition padded :: "nat \<Rightarrow> int \<Rightarrow> string" where
  "padded n i = (let s = nat_str (nat i) in replicate (n - length s) (CHR ''0'') @ s)"

text \<open>\<open>isoformat\<close> without its zone suffix: the fraction is printed when it is not zero.\<close>

definition iso_local :: "int \<Rightarrow> string" where
  "iso_local t =
     (let secs = t div 1000000; micros = t mod 1000000;
          (y, m, d) = civil (secs div 86400); s = secs mod 86400
      in padded 4 y @ ''-'' @ padded 2 m @ ''-'' @ padded 2 d @ ''T''
         @ padded 2 (s div 3600) @ '':'' @ padded 2 (s div 60 mod 60) @ '':'' @ padded 2 (s mod 60)
         @ (if micros = 0 then [] else ''.'' @ padded 6 micros))"

definition isoformat :: "int \<Rightarrow> string" where
  "isoformat t = iso_local t @ ''+00:00''"

text \<open>The form \<open>model_dump(mode="json")\<close> gives a time.\<close>

definition json_time :: "int \<Rightarrow> json" where
  "json_time t = JStr (iso_local t @ ''Z'')"

section \<open>Numbers\<close>

text \<open>\<open>round(x)\<close>: to the nearest integer, ties to the even one.\<close>

definition py_round :: "rat \<Rightarrow> int" where
  "py_round x =
     (let f = \<lfloor>x\<rfloor>; r = x - of_int f in
      if r < 1 / 2 then f else if 1 / 2 < r then f + 1 else if even f then f else f + 1)"

text \<open>A confidence is the rational number its decimal literal denotes; \<open>decimal_json\<close> gives
  the literal back.\<close>

fun decimal_from :: "nat \<Rightarrow> nat \<Rightarrow> rat \<Rightarrow> json" where
  "decimal_from 0 k x = JFloat \<lfloor>x * 10 ^ k\<rfloor> (- int k)"
| "decimal_from (Suc n) k x =
     (if of_int \<lfloor>x * 10 ^ k\<rfloor> = x * 10 ^ k then JFloat \<lfloor>x * 10 ^ k\<rfloor> (- int k)
      else decimal_from n (Suc k) x)"

definition decimal_json :: "rat \<Rightarrow> json" where
  "decimal_json x = decimal_from 17 0 x"

end
