(* ===== verification/Policy.thy ===== *)
theory Policy
  imports Core
begin

text \<open>
  \<open>src/zeroadr/policy/engine.py\<close>: the gate configurations, the policy engine, its matching
  functions and the JSON-RPC errors it renders. A policy entry is kept as its dictionary
  together with the mapping at its key \<open>match\<close>. The validation that \<open>pydantic\<close> performs
  for a gate configuration is a parameter: a function from the configuration value to the
  validated record or to the exception it raises.
\<close>

record llm_adjudication_policy =
  ap_mode :: gate_mode
  ap_min_confidence :: rat
  ap_true_positive :: policy_action
  ap_false_positive :: policy_action

record tool_result_gate_policy =
  trg_mode :: gate_mode
  trg_review :: gate_review
  trg_min_confidence :: rat
  trg_true_positive :: policy_action
  trg_false_positive :: policy_action
  trg_max_pending :: nat
  trg_max_bytes :: nat

record semantic_gate_policy =
  sg_mode :: gate_mode
  sg_review :: gate_review
  sg_min_confidence :: rat
  sg_true_positive :: policy_action
  sg_false_positive :: policy_action

record session_guard_policy =
  gd_mode :: gate_mode
  gd_action :: policy_action

record policy =
  pol_fields :: jdict
  pol_match :: jdict

record policy_engine =
  pe_mode :: string
  pe_policies :: "policy list"
  pe_result_gate :: "tool_result_gate_policy option"
  pe_input_gate :: "semantic_gate_policy option"
  pe_request_gate :: "semantic_gate_policy option"
  pe_guard :: "session_guard_policy option"

definition empty_engine :: policy_engine where
  "empty_engine =
     \<lparr>pe_mode = ''audit'', pe_policies = [], pe_result_gate = None, pe_input_gate = None,
      pe_request_gate = None, pe_guard = None\<rparr>"

section \<open>Construction from a configuration\<close>

record validators =
  val_result_gate :: "json \<Rightarrow> exn + tool_result_gate_policy"
  val_semantic :: "json \<Rightarrow> exn + semantic_gate_policy"
  val_guard :: "json \<Rightarrow> exn + session_guard_policy"
  val_adjudication :: "json \<Rightarrow> exn + llm_adjudication_policy"

definition validate_opt :: "(json \<Rightarrow> exn + 'a) \<Rightarrow> json \<Rightarrow> exn + 'a option" where
  "validate_opt f v =
     (if v = JNull then Inr None else case f v of Inl e \<Rightarrow> Inl e | Inr x \<Rightarrow> Inr (Some x))"

definition policy_entry :: "json \<Rightarrow> exn + policy" where
  "policy_entry v =
     (case v of
        JObj p \<Rightarrow>
          (case dget_or p ''match'' (JObj []) of
             JObj m \<Rightarrow> Inr \<lparr>pol_fields = p, pol_match = m\<rparr>
           | _ \<Rightarrow> Inl (PyError ''AttributeError''))
      | _ \<Rightarrow> Inl (PyError ''AttributeError''))"

fun policy_entries :: "json list \<Rightarrow> exn + policy list" where
  "policy_entries [] = Inr []"
| "policy_entries (v # vs) =
     (case policy_entry v of
        Inl e \<Rightarrow> Inl e
      | Inr p \<Rightarrow> (case policy_entries vs of Inl e \<Rightarrow> Inl e | Inr ps \<Rightarrow> Inr (p # ps)))"

definition from_dict :: "validators \<Rightarrow> jdict \<Rightarrow> exn + policy_engine" where
  "from_dict V config =
     (if map_of config ''tool_metadata_gate'' \<noteq> None then Inl (PyError ''ValueError'')
      else case validate_opt (val_result_gate V) (dget config ''tool_result_gate'') of
        Inl e \<Rightarrow> Inl e
      | Inr gate \<Rightarrow>
      (case (case dget_or config ''policies'' (JList []) of
               JList xs \<Rightarrow> policy_entries xs
             | _ \<Rightarrow> Inl (PyError ''TypeError'')) of
        Inl e \<Rightarrow> Inl e
      | Inr ps \<Rightarrow>
      (case validate_opt (val_semantic V) (dget config ''agent_input_gate'') of
        Inl e \<Rightarrow> Inl e
      | Inr input \<Rightarrow>
      (case validate_opt (val_semantic V) (dget config ''tool_request_gate'') of
        Inl e \<Rightarrow> Inl e
      | Inr request \<Rightarrow>
      (case validate_opt (val_guard V) (dget config ''session_guard'') of
        Inl e \<Rightarrow> Inl e
      | Inr guard \<Rightarrow>
          Inr \<lparr>pe_mode = py_str (dget_or config ''mode'' (JStr ''audit'')), pe_policies = ps,
               pe_result_gate = gate, pe_input_gate = input, pe_request_gate = request,
               pe_guard = guard\<rparr>)))))"

text \<open>\<open>from_file\<close>: no file gives the empty engine; the argument is what \<open>yaml.safe_load\<close>
  returns for an existing file.\<close>

definition from_file :: "validators \<Rightarrow> json option \<Rightarrow> exn + policy_engine" where
  "from_file V contents =
     (case contents of
        None \<Rightarrow> Inr empty_engine
      | Some v \<Rightarrow>
          (case (if truthy v then v else JObj []) of
             JObj d \<Rightarrow> from_dict V d
           | _ \<Rightarrow> Inl (PyError ''ValueError'')))"

section \<open>Matching\<close>

definition matches_value :: "json \<Rightarrow> string option \<Rightarrow> bool" where
  "matches_value expected actual =
     (case expected of
        JNull \<Rightarrow> True
      | JList xs \<Rightarrow> (case actual of None \<Rightarrow> False | Some a \<Rightarrow> a \<in> set (map py_str xs))
      | _ \<Rightarrow> actual = Some (py_str expected))"

definition contains_pattern :: "string \<Rightarrow> string \<Rightarrow> bool" where
  "contains_pattern expected actual =
     (if sublist expected actual then True
      else if prefix ''~/'' expected then suffix (drop 1 expected) actual
      else False)"

definition contains_value :: "json \<Rightarrow> string \<Rightarrow> bool" where
  "contains_value expected actual =
     (case expected of
        JNull \<Rightarrow> True
      | JList xs \<Rightarrow> (\<exists>x \<in> set xs. contains_pattern (py_str x) actual)
      | _ \<Rightarrow> contains_pattern (py_str expected) actual)"

definition event_policy_matches :: "jdict \<Rightarrow> runtime_event \<Rightarrow> finding list \<Rightarrow> bool" where
  "event_policy_matches m event findings =
     (if \<not> matches_value (dget m ''capability'') (ev_capability event)
         \<and> dget m ''capability'' \<noteq> JNull then False
      else if \<not> matches_value (dget m ''event_type'') (Some (event_type_str (ev_type event)))
         \<and> dget m ''event_type'' \<noteq> JNull then False
      else if \<not> matches_value (dget m ''tool_name'') (ev_tool event)
         \<and> dget m ''tool_name'' \<noteq> JNull then False
      else if \<not> matches_value (dget m ''server_name'') (ev_server event)
         \<and> dget m ''server_name'' \<noteq> JNull then False
      else if dget m ''severity'' \<noteq> JNull
         \<and> \<not> (\<exists>f \<in> set findings. JStr (severity_str (fi_severity f)) = dget m ''severity'') then False
      else if dget m ''rule_id'' \<noteq> JNull
         \<and> \<not> (\<exists>f \<in> set findings. matches_value (dget m ''rule_id'') (Some (fi_rule f))) then False
      else if dget m ''target'' \<noteq> JNull
         \<and> \<not> (\<exists>f \<in> set findings. matches_value (dget m ''target'') (Some (fi_target f))) then False
      else if dget m ''target_contains'' \<noteq> JNull
         \<and> \<not> (\<exists>f \<in> set findings. contains_value (dget m ''target_contains'') (fi_target f)) then False
      else True)"

definition finding_policy_matches :: "jdict \<Rightarrow> finding \<Rightarrow> bool" where
  "finding_policy_matches m f =
     (if \<not> matches_value (dget m ''capability'') (Some (fi_capability f))
         \<and> dget m ''capability'' \<noteq> JNull then False
      else if \<not> matches_value (dget m ''severity'') (Some (severity_str (fi_severity f)))
         \<and> dget m ''severity'' \<noteq> JNull then False
      else if \<not> matches_value (dget m ''rule_id'') (Some (fi_rule f))
         \<and> dget m ''rule_id'' \<noteq> JNull then False
      else if \<not> matches_value (dget m ''target'') (Some (fi_target f))
         \<and> dget m ''target'' \<noteq> JNull then False
      else if \<not> contains_value (dget m ''target_contains'') (fi_target f)
         \<and> dget m ''target_contains'' \<noteq> JNull then False
      else True)"

definition policy_action :: "policy \<Rightarrow> policy_action" where
  "policy_action p =
     (let a = py_str (dget_or (pol_fields p) ''action'' (JStr ''alert'')) in
      if a = ''allow'' then Allow
      else if a = ''alert'' then Alert
      else if a = ''block'' then Block
      else if a = ''require_approval'' then RequireApproval
      else Alert)"

definition policy_id :: "policy \<Rightarrow> string" where
  "policy_id p = py_str (dget_or (pol_fields p) ''id'' (JStr ''unnamed-policy''))"

definition decision_event_id_for_finding :: "finding \<Rightarrow> string" where
  "decision_event_id_for_finding f = (case fi_events f of [] \<Rightarrow> fi_id f | e # _ \<Rightarrow> e)"

definition policy_reason :: "policy \<Rightarrow> finding list \<Rightarrow> string" where
  "policy_reason p findings =
     (case findings of
        f # _ \<Rightarrow> fi_explanation f
      | [] \<Rightarrow> (let r = dget (pol_fields p) ''reason''
               in if truthy r then py_str r else ''Matched ZeroADR policy.''))"

section \<open>Evaluation\<close>

fun evaluate_policies ::
  "policy list \<Rightarrow> runtime_event \<Rightarrow> finding list \<Rightarrow> 'a world_scheme \<Rightarrow>
   policy_decision \<times> 'a world_scheme" where
  "evaluate_policies [] event findings w =
     (if findings \<noteq> []
      then new_policy_decision None Alert ''Finding produced in audit mode.''
             (ev_session event) (ev_id event) (map fi_id findings) w
      else new_policy_decision None Allow ''No findings matched.''
             (ev_session event) (ev_id event) [] w)"
| "evaluate_policies (p # ps) event findings w =
     (if event_policy_matches (pol_match p) event findings
      then new_policy_decision (Some (policy_id p)) (policy_action p) (policy_reason p findings)
             (ev_session event) (ev_id event) (map fi_id findings) w
      else evaluate_policies ps event findings w)"

definition evaluate ::
  "policy_engine \<Rightarrow> runtime_event \<Rightarrow> finding list \<Rightarrow> 'a world_scheme \<Rightarrow>
   policy_decision \<times> 'a world_scheme" where
  "evaluate E event findings w = evaluate_policies (pe_policies E) event findings w"

fun adjudication_in ::
  "validators \<Rightarrow> policy list \<Rightarrow> runtime_event \<Rightarrow> finding list \<Rightarrow>
   exn + llm_adjudication_policy option" where
  "adjudication_in V [] event findings = Inr None"
| "adjudication_in V (p # ps) event findings =
     (if \<not> event_policy_matches (pol_match p) event findings
      then adjudication_in V ps event findings
      else validate_opt (val_adjudication V) (dget (pol_fields p) ''llm_adjudication''))"

definition llm_adjudication_for ::
  "validators \<Rightarrow> policy_engine \<Rightarrow> runtime_event \<Rightarrow> finding list \<Rightarrow>
   exn + llm_adjudication_policy option" where
  "llm_adjudication_for V E event findings = adjudication_in V (pe_policies E) event findings"

definition has_llm_adjudication :: "policy_engine \<Rightarrow> bool" where
  "has_llm_adjudication E =
     (\<exists>p \<in> set (pe_policies E). dget (pol_fields p) ''llm_adjudication'' \<noteq> JNull)"

definition has_stage_review :: "policy_engine \<Rightarrow> bool" where
  "has_stage_review E =
     (\<exists>g \<in> set [pe_input_gate E, pe_request_gate E].
        case g of None \<Rightarrow> False | Some gate \<Rightarrow> sg_review gate = Hybrid)"

fun evaluate_finding_in ::
  "policy list \<Rightarrow> finding \<Rightarrow> 'a world_scheme \<Rightarrow> policy_decision \<times> 'a world_scheme" where
  "evaluate_finding_in [] f w =
     new_policy_decision None Alert ''Finding produced in audit mode.''
       (fi_session f) (decision_event_id_for_finding f) [fi_id f] w"
| "evaluate_finding_in (p # ps) f w =
     (if finding_policy_matches (pol_match p) f
      then new_policy_decision (Some (policy_id p)) (policy_action p) (fi_explanation f)
             (fi_session f) (decision_event_id_for_finding f) [fi_id f] w
      else evaluate_finding_in ps f w)"

definition evaluate_finding ::
  "policy_engine \<Rightarrow> finding \<Rightarrow> 'a world_scheme \<Rightarrow> policy_decision \<times> 'a world_scheme" where
  "evaluate_finding E f w = evaluate_finding_in (pe_policies E) f w"

section \<open>JSON-RPC errors\<close>

definition json_opt :: "string option \<Rightarrow> json" where
  "json_opt s = (case s of None \<Rightarrow> JNull | Some x \<Rightarrow> JStr x)"

definition json_rid :: "request_id option \<Rightarrow> json" where
  "json_rid r = (case r of None \<Rightarrow> JNull | Some (RStr s) \<Rightarrow> JStr s | Some (RInt i) \<Rightarrow> JInt i)"

definition render_error :: "request_id option \<Rightarrow> string \<Rightarrow> string \<Rightarrow> string option \<Rightarrow> int \<Rightarrow> jdict" where
  "render_error request_id message reason pol code =
     [(''jsonrpc'', JStr ''2.0''),
      (''id'', json_rid request_id),
      (''error'', JObj
         [(''code'', JInt code),
          (''message'', JStr message),
          (''data'', JObj [(''policy_id'', json_opt pol), (''reason'', JStr reason)])])]"

definition render_jsonrpc_error :: "request_id option \<Rightarrow> policy_decision \<Rightarrow> jdict" where
  "render_jsonrpc_error request_id d =
     render_error request_id ''Blocked by ZeroADR policy'' (pd_reason d) (pd_policy d) (- 32001)"

definition render_approval_jsonrpc_error ::
  "request_id option \<Rightarrow> string \<Rightarrow> string \<Rightarrow> int \<Rightarrow> jdict" where
  "render_approval_jsonrpc_error request_id message reason code =
     render_error request_id message reason None code"

section \<open>Which policy decides\<close>

definition deciding :: "policy list \<Rightarrow> runtime_event \<Rightarrow> finding list \<Rightarrow> policy option" where
  "deciding ps e fs = find (\<lambda>p. event_policy_matches (pol_match p) e fs) ps"

lemma evaluate_policies_deciding:
  "evaluate_policies ps e fs w =
     (case deciding ps e fs of
        Some p \<Rightarrow> new_policy_decision (Some (policy_id p)) (policy_action p) (policy_reason p fs)
                   (ev_session e) (ev_id e) (map fi_id fs) w
      | None \<Rightarrow> new_policy_decision None (if fs = [] then Allow else Alert)
                 (if fs = [] then ''No findings matched.'' else ''Finding produced in audit mode.'')
                 (ev_session e) (ev_id e) (map fi_id fs) w)"
  by (induction ps) (auto simp: deciding_def)

lemma adjudication_in_deciding:
  "adjudication_in V ps e fs =
     (case deciding ps e fs of
        None \<Rightarrow> Inr None
      | Some p \<Rightarrow> validate_opt (val_adjudication V) (dget (pol_fields p) ''llm_adjudication''))"
  by (induction ps) (auto simp: deciding_def)

lemma deciding_first:
  assumes "\<forall>q\<in>set us. \<not> event_policy_matches (pol_match q) e fs"
    and "event_policy_matches (pol_match p) e fs"
  shows "deciding (us @ p # vs) e fs = Some p"
  using assms by (induction us) (simp_all add: deciding_def)

text \<open>C8. The first policy in the configured order whose conditions hold decides the event, and
  the language model gate of an event is configured by that very policy; policies after it,
  and gates of policies before it, have no influence.\<close>

theorem first_matching_policy_decides:
  assumes "pe_policies E = us @ p # vs"
    and "\<forall>q\<in>set us. \<not> event_policy_matches (pol_match q) e fs"
    and "event_policy_matches (pol_match p) e fs"
  shows "pd_policy (fst (evaluate E e fs w)) = Some (policy_id p) \<and>
    pd_action (fst (evaluate E e fs w)) = policy_action p \<and>
    pd_findings (fst (evaluate E e fs w)) = map fi_id fs \<and>
    llm_adjudication_for V E e fs =
      validate_opt (val_adjudication V) (dget (pol_fields p) ''llm_adjudication'')"
proof -
  have "deciding (pe_policies E) e fs = Some p"
    using deciding_first [OF assms(2,3)] assms(1) by simp
  then show ?thesis
    by (simp add: evaluate_def llm_adjudication_for_def evaluate_policies_deciding
        adjudication_in_deciding)
qed

definition policy_of :: "jdict \<Rightarrow> jdict \<Rightarrow> policy" where
  "policy_of m f = \<lparr>pol_fields = f, pol_match = m\<rparr>"

definition read_event :: runtime_event where
  "read_event =
     \<lparr>ev_id = ''e'', ev_type = ToolCallRequested, ev_time = 0, ev_ingest = 0, ev_source = McpGateway,
      ev_session = ''s'', ev_request = None, ev_server = None, ev_tool = Some ''read'',
      ev_capability = Some ''filesystem.read'', ev_context = None, ev_arguments = None,
      ev_result = JNull, ev_error = None, ev_raw = []\<rparr>"

theorem first_matching_policy_decides_witness:
  "\<forall>w :: world. pd_action (fst (evaluate (empty_engine\<lparr>pe_policies :=
       [policy_of [(''capability'', JStr ''shell.exec'')] [(''action'', JStr ''alert'')],
        policy_of [(''event_type'', JStr ''tool.call.requested'')] [(''action'', JStr ''block'')]]\<rparr>)
     read_event [] w)) = Block"
proof
  fix w :: world
  let ?E = "empty_engine\<lparr>pe_policies :=
       [policy_of [(''capability'', JStr ''shell.exec'')] [(''action'', JStr ''alert'')],
        policy_of [(''event_type'', JStr ''tool.call.requested'')] [(''action'', JStr ''block'')]]\<rparr>"
  have "\<not> event_policy_matches [(''capability'', JStr ''shell.exec'')] read_event []"
    "event_policy_matches [(''event_type'', JStr ''tool.call.requested'')] read_event []"
    "policy_action (policy_of [(''event_type'', JStr ''tool.call.requested'')] [(''action'', JStr ''block'')]) = Block"
    by code_simp+
  with first_matching_policy_decides [of ?E
      "[policy_of [(''capability'', JStr ''shell.exec'')] [(''action'', JStr ''alert'')]]"
      "policy_of [(''event_type'', JStr ''tool.call.requested'')] [(''action'', JStr ''block'')]" "[]"
      read_event "[]" w]
  show "pd_action (fst (evaluate ?E read_event [] w)) = Block" by (simp add: policy_of_def)
qed

section \<open>Events and findings under the same conditions\<close>

text \<open>On the conditions that both evaluations know, with the severity given as one name, a
  policy matches an event with a single finding exactly when it matches the finding itself, if
  the two agree on the capability: the runtime decision and the evaluation of a stored
  finding use the same policy.\<close>

theorem event_and_finding_matching_agree:
  assumes "dget m ''event_type'' = JNull" "dget m ''tool_name'' = JNull" "dget m ''server_name'' = JNull"
    and "dget m ''severity'' = JNull \<or> (\<exists>x. dget m ''severity'' = JStr x)"
    and "ev_capability e = Some (fi_capability f)"
  shows "event_policy_matches m e [f] = finding_policy_matches m f"
  using assms
  by (auto simp: event_policy_matches_def finding_policy_matches_def matches_value_def)

definition read_finding :: finding where
  "read_finding =
     \<lparr>fi_id = ''f'', fi_rule = ''sensitive-file-access'', fi_title = ''t'', fi_severity = Critical,
      fi_confidence = 1, fi_session = ''s'', fi_events = [''e''], fi_capability = ''filesystem.read'',
      fi_target = ''/root/.ssh/id_rsa'', fi_explanation = ''x''\<rparr>"

theorem event_and_finding_matching_agree_witness:
  "event_policy_matches [(''severity'', JStr ''critical'')] read_event [read_finding] =
   finding_policy_matches [(''severity'', JStr ''critical'')] read_finding"
  by (rule event_and_finding_matching_agree) (simp_all add: dget_def read_event_def read_finding_def)

text \<open>A policy that lists several severities never matches an event, whatever was found,
  although the same list matches the finding of a listed severity.\<close>

theorem severity_list_ignored_for_events:
  "\<not> event_policy_matches ((''severity'', JList (map (JStr \<circ> severity_str) sevs)) # m) e fs \<and>
   (finding_policy_matches [(''severity'', JList (map (JStr \<circ> severity_str) sevs))] f \<longleftrightarrow>
      fi_severity f \<in> set sevs)"
proof -
  have inj: "severity_str x = severity_str y \<longleftrightarrow> x = y" for x y by (cases x; cases y) simp_all
  show ?thesis
    by (auto simp: event_policy_matches_def finding_policy_matches_def matches_value_def
        contains_value_def dget_def image_iff inj)
qed

end
