(* ===== verification/Approvals.thy ===== *)
theory Approvals
  imports Storage Redaction PyStd Policy
begin

text \<open>
  \<open>src/zeroadr/runtime/approvals.py\<close> and \<open>src/zeroadr/hook/approval_wait.py\<close>: resolving and
  expiring approval requests with their audit events, and waiting for a resolution. The state
  of the system is the outside world with the database and the trace file. Both files are
  optional in the code; the flags \<open>tr\<close> and \<open>st\<close> say whether they are configured. Other
  processes act on the approval requests while the waiting loop sleeps: their operations are
  an argument, one list for each iteration. Ages are in microseconds.
\<close>

record sys = world +
  sy_db :: store
  sy_trace :: "runtime_event list"

section \<open>Dumping a request\<close>

fun stage_str :: "gate_stage \<Rightarrow> string" where
  "stage_str StageAgentInput = ''agent_input''"
| "stage_str StagePreTool = ''pre_tool''"
| "stage_str StageToolResult = ''tool_result''"

definition json_strs :: "string list \<Rightarrow> json" where
  "json_strs xs = JList (map JStr xs)"

definition json_dict_opt :: "jdict option \<Rightarrow> json" where
  "json_dict_opt d = (case d of None \<Rightarrow> JNull | Some x \<Rightarrow> JObj x)"

text \<open>\<open>request.model_dump(mode="json")\<close>, in the order of the fields.\<close>

definition approval_dump :: "approval_request \<Rightarrow> jdict" where
  "approval_dump a =
     [(''approval_id'', JStr (ap_id a)), (''decision_id'', JStr (ap_decision a)),
      (''session_id'', JStr (ap_session a)), (''event_id'', JStr (ap_event a)),
      (''request_id'', json_rid (ap_request a)), (''policy_id'', json_opt (ap_policy a)),
      (''reason'', JStr (ap_reason a)), (''finding_ids'', json_strs (ap_findings a)),
      (''tool_name'', json_opt (ap_tool a)), (''capability'', json_opt (ap_capability a)),
      (''arguments'', json_dict_opt (ap_arguments a)), (''stage'', JStr (stage_str (ap_stage a))),
      (''result_preview'', ap_result_preview a), (''evidence_preview'', ap_evidence_preview a),
      (''status'', JStr (status_str (ap_status a))), (''created_at'', json_time (ap_created a)),
      (''resolved_at'', (case ap_resolved_at a of None \<Rightarrow> JNull | Some t \<Rightarrow> json_time t)),
      (''resolved_by'', json_opt (ap_resolved_by a)),
      (''resolution_comment'', json_opt (ap_comment a))]"

section \<open>Audited resolution\<close>

text \<open>A recorded event is redacted, appended to the trace and saved, where these are
  configured.\<close>

definition keep_event :: "bool \<Rightarrow> bool \<Rightarrow> runtime_event \<Rightarrow> 'a sys_scheme \<Rightarrow> 'a sys_scheme" where
  "keep_event tr st e s =
     (let s = (if tr then s\<lparr>sy_trace := write_event_jsonl e (sy_trace s)\<rparr> else s)
      in if st then s\<lparr>sy_db := save_event e (sy_db s)\<rparr> else s)"

definition record_approval_resolution ::
  "approval_request \<Rightarrow> source_type \<Rightarrow> bool \<Rightarrow> bool \<Rightarrow> 'a sys_scheme \<Rightarrow> runtime_event \<times> 'a sys_scheme" where
  "record_approval_resolution request src tr st s =
     (let (event, s) = new_event ApprovalResolved src (ap_session request) (ap_request request) None
            (ap_tool request) (ap_capability request) None (ap_arguments request)
            (JObj [(''approval_id'', JStr (ap_id request)),
                   (''decision_id'', JStr (ap_decision request)),
                   (''status'', JStr (status_str (ap_status request))),
                   (''resolved_by'', json_opt (ap_resolved_by request))])
            None (approval_dump request) s;
          stored = redact_event event
      in (stored, keep_event tr st stored s))"

text \<open>A store method run on the system state.\<close>

definition on_store ::
  "(store \<Rightarrow> 'a sys_scheme \<Rightarrow> 'r \<times> store \<times> 'a sys_scheme) \<Rightarrow> 'a sys_scheme \<Rightarrow> 'r \<times> 'a sys_scheme" where
  "on_store f s = (case f (sy_db s) s of (r, d, s) \<Rightarrow> (r, s\<lparr>sy_db := d\<rparr>))"

definition mark_approval_expired_with_audit ::
  "string \<Rightarrow> source_type \<Rightarrow> bool \<Rightarrow> 'a sys_scheme \<Rightarrow> (store_error + approval_request) \<times> 'a sys_scheme" where
  "mark_approval_expired_with_audit i src tr s =
     (case on_store (mark_approval_expired i) s of
        (Inl e, s) \<Rightarrow> (Inl e, s)
      | (Inr expired, s) \<Rightarrow>
          (let (_, s) = record_approval_resolution expired src tr True s in (Inr expired, s)))"

definition DEFAULT_APPROVAL_TIMEOUT :: int where
  "DEFAULT_APPROVAL_TIMEOUT = 300 * 1000000"

text \<open>The loop over the snapshot of pending requests: a request that was resolved meanwhile is
  skipped, a missing one raises.\<close>

fun expire_each ::
  "int \<Rightarrow> source_type \<Rightarrow> bool \<Rightarrow> approval_request list \<Rightarrow> 'a sys_scheme \<Rightarrow>
   (store_error + approval_request list) \<times> 'a sys_scheme" where
  "expire_each cutoff src tr [] s = (Inr [], s)"
| "expire_each cutoff src tr (request # rest) s =
     (if ap_created request \<le> cutoff
      then case mark_approval_expired_with_audit (ap_id request) src tr s of
             (Inl (ApprovalAlreadyResolved a), s) \<Rightarrow> expire_each cutoff src tr rest s
           | (Inl e, s) \<Rightarrow> (Inl e, s)
           | (Inr expired, s) \<Rightarrow>
               (case expire_each cutoff src tr rest s of
                  (Inl e, s) \<Rightarrow> (Inl e, s)
                | (Inr later, s) \<Rightarrow> (Inr (expired # later), s))
      else expire_each cutoff src tr rest s)"

definition expire_stale_pending_approvals ::
  "int \<Rightarrow> source_type \<Rightarrow> bool \<Rightarrow> 'a sys_scheme \<Rightarrow>
   (store_error + approval_request list) \<times> 'a sys_scheme" where
  "expire_stale_pending_approvals max_age src tr s =
     (let (now, s) = utc_now s in
      expire_each (now - max_age) src tr
        (list_approval_requests (Some Pending) None None 0 (sy_db s)) s)"

definition resolve_approval_with_audit ::
  "string \<Rightarrow> approval_status \<Rightarrow> string \<Rightarrow> string option \<Rightarrow> source_type \<Rightarrow> bool \<Rightarrow> 'a sys_scheme \<Rightarrow>
   (store_error + approval_request) \<times> 'a sys_scheme" where
  "resolve_approval_with_audit i status by comment src tr s =
     (case expire_stale_pending_approvals DEFAULT_APPROVAL_TIMEOUT Hook False s of
        (Inl e, s) \<Rightarrow> (Inl e, s)
      | (Inr _, s) \<Rightarrow>
          (case on_store (resolve_approval_request i status by comment) s of
             (Inl e, s) \<Rightarrow> (Inl e, s)
           | (Inr resolved, s) \<Rightarrow>
               (let (_, s) = record_approval_resolution resolved src tr True s in (Inr resolved, s))))"

section \<open>Waiting for a resolution\<close>

definition effective_action_for_status :: "string \<Rightarrow> string" where
  "effective_action_for_status status =
     (if status = ''approved'' then ''allow''
      else if status = ''denied'' \<or> status = ''expired'' then ''block''
      else status)"

definition build_wait_approval_response :: "approval_request \<Rightarrow> jdict" where
  "build_wait_approval_response r =
     [(''approval_id'', JStr (ap_id r)), (''decision_id'', JStr (ap_decision r)),
      (''session_id'', JStr (ap_session r)), (''event_id'', JStr (ap_event r)),
      (''status'', JStr (status_str (ap_status r))),
      (''effective_action'', JStr (effective_action_for_status (status_str (ap_status r)))),
      (''resolved_at'', (case ap_resolved_at r of None \<Rightarrow> JNull | Some t \<Rightarrow> JStr (isoformat t))),
      (''resolved_by'', json_opt (ap_resolved_by r)),
      (''resolution_comment'', json_opt (ap_comment r))]"

text \<open>What other processes do to the approval table.\<close>

definition others :: "approval_op list \<Rightarrow> 'a sys_scheme \<Rightarrow> 'a sys_scheme" where
  "others ps s = (case snd (run_ops approval_step ps (sy_db s, s)) of (d, s) \<Rightarrow> s\<lparr>sy_db := d\<rparr>)"

definition next_acts :: "approval_op list list \<Rightarrow> approval_op list" where
  "next_acts acts = (case acts of [] \<Rightarrow> [] | a # _ \<Rightarrow> a)"

text \<open>The loop of \<open>wait_for_approval_resolution\<close>, with the number of iterations as fuel.\<close>

fun wait_loop ::
  "nat \<Rightarrow> approval_op list list \<Rightarrow> string \<Rightarrow> rat \<Rightarrow> bool \<Rightarrow> int \<Rightarrow> 'a sys_scheme \<Rightarrow>
   (store_error + jdict) option \<times> 'a sys_scheme" where
  "wait_loop 0 acts i deadline tr max_age s = (None, s)"
| "wait_loop (Suc n) acts i deadline tr max_age s =
     (case expire_stale_pending_approvals max_age Hook False s of
        (Inl e, s) \<Rightarrow> (Some (Inl e), s)
      | (Inr _, s) \<Rightarrow>
          (case get_approval_request i (sy_db s) of
             None \<Rightarrow> (Some (Inl (KeyError i)), s)
           | Some request \<Rightarrow>
               (if ap_status request \<noteq> Pending
                then (Some (Inr (build_wait_approval_response request)), s)
                else
                  (let (now, s) = monotonic s; s = others (next_acts acts) s in
                   if deadline \<le> now
                   then case mark_approval_expired_with_audit i Hook tr s of
                          (Inr expired, s) \<Rightarrow> (Some (Inr (build_wait_approval_response expired)), s)
                        | (Inl _, s) \<Rightarrow>
                            (case get_approval_request i (sy_db s) of
                               None \<Rightarrow> (Some (Inl (KeyError i)), s)
                             | Some request \<Rightarrow>
                                 (Some (Inr (build_wait_approval_response request)), s))
                   else wait_loop n (drop 1 acts) i deadline tr max_age s))))"

definition wait_for_approval_resolution ::
  "nat \<Rightarrow> approval_op list list \<Rightarrow> string \<Rightarrow> rat \<Rightarrow> bool \<Rightarrow> int \<Rightarrow> 'a sys_scheme \<Rightarrow>
   (store_error + jdict) option \<times> 'a sys_scheme" where
  "wait_for_approval_resolution fuel acts i timeout tr max_age s =
     (let (now, s) = monotonic s in wait_loop fuel acts i (now + timeout) tr max_age s)"

section \<open>What the audit leaves alone\<close>

lemma approvals_ok_same: "db_approvals d = db_approvals d' \<Longrightarrow> approvals_ok d = approvals_ok d'"
  by (simp add: approvals_ok_def)

lemma get_approval_request_same:
  "db_approvals d = db_approvals d' \<Longrightarrow> get_approval_request i d = get_approval_request i d'"
  by (simp add: get_approval_request_def)

lemma save_event_approvals [frame_simps]: "db_approvals (save_event e d) = db_approvals d"
  by (simp add: save_event_def note_session_def)

lemma keep_event_frame [frame_simps]:
  "db_approvals (sy_db (keep_event tr st e s)) = db_approvals (sy_db s)"
  "w_mono (keep_event tr st e s) = w_mono s" "w_monos (keep_event tr st e s) = w_monos s"
  by (simp_all add: keep_event_def save_event_approvals Let_def)

lemma utc_now_frame [frame_simps]:
  "w_mono (snd (utc_now w)) = w_mono w" "w_monos (snd (utc_now w)) = w_monos w"
  by (simp_all add: utc_now_def)

lemma utc_now_sys [frame_simps]:
  "sy_db (snd (utc_now s)) = sy_db s" "sy_trace (snd (utc_now s)) = sy_trace s"
  by (simp_all add: utc_now_def)

lemma new_event_frame [frame_simps]:
  "w_mono (snd (new_event ty src se rq sv to ca cx ar re er ra w)) = w_mono w"
  "w_monos (snd (new_event ty src se rq sv to ca cx ar re er ra w)) = w_monos w"
  by (simp_all add: new_event_def new_ulid_def utc_now_def Let_def)

lemma new_event_sys [frame_simps]:
  "sy_db (snd (new_event ty src se rq sv to ca cx ar re er ra s)) = sy_db s"
  "sy_trace (snd (new_event ty src se rq sv to ca cx ar re er ra s)) = sy_trace s"
  by (simp_all add: new_event_def new_ulid_def utc_now_def Let_def)

lemma record_resolution_frame [frame_simps]:
  "db_approvals (sy_db (snd (record_approval_resolution r src tr st s))) = db_approvals (sy_db s)"
  "w_mono (snd (record_approval_resolution r src tr st s)) = w_mono s"
  "w_monos (snd (record_approval_resolution r src tr st s)) = w_monos s"
  by (simp_all add: record_approval_resolution_def case_prod_beta Let_def frame_simps)

lemmas record_resolution_ok [frame_simps] =
  record_resolution_frame(1) [THEN approvals_ok_same]
  record_resolution_frame(1) [THEN get_approval_request_same]

lemma transition_world [frame_simps]:
  "w_mono (snd (snd (transition_approval_request i st by c d w))) = w_mono w"
  "w_monos (snd (snd (transition_approval_request i st by c d w))) = w_monos w"
  by (simp_all add: transition_approval_request_def case_prod_beta Let_def frame_simps
      split: option.splits)

text \<open>Expiring a request with its audit event acts on the approval table as the plain
  transition does.\<close>

definition expiry :: "int \<Rightarrow> approval_request \<Rightarrow> approval_request" where
  "expiry t a = transitioned Expired ''system'' (Some ''Approval expired before human resolution.'') t a"

lemma expiry_sel [simp]:
  "ap_status (expiry t a) = Expired" "ap_created (expiry t a) = ap_created a"
  "ap_id (expiry t a) = ap_id a"
  by (simp_all add: expiry_def transitioned_def)

lemma expired_with_audit:
  assumes "approvals_ok (sy_db s)"
  shows "fst (mark_approval_expired_with_audit i src tr s) =
      (case get_approval_request i (sy_db s) of
         None \<Rightarrow> Inl (KeyError i)
       | Some a \<Rightarrow> if ap_status a = Pending then Inr (expiry (fst (utc_now s)) a)
                  else Inl (ApprovalAlreadyResolved a))"
    and "get_approval_request k (sy_db (snd (mark_approval_expired_with_audit i src tr s))) =
      (case fst (mark_approval_expired_with_audit i src tr s) of
         Inl _ \<Rightarrow> get_approval_request k (sy_db s)
       | Inr a \<Rightarrow> if k = i then Some a else get_approval_request k (sy_db s))"
    and "approvals_ok (sy_db (snd (mark_approval_expired_with_audit i src tr s)))"
    and "w_mono (snd (mark_approval_expired_with_audit i src tr s)) = w_mono s"
    and "w_monos (snd (mark_approval_expired_with_audit i src tr s)) = w_monos s"
proof -
  obtain r d s' where t: "mark_approval_expired i (sy_db s) s = (r, d, s')"
    by (metis prod_cases3)
  note tr = transition_result [OF assms, of i Expired "''system''"
      "Some ''Approval expired before human resolution.''" s]
    transition_get [OF assms, of _ i Expired "''system''"
      "Some ''Approval expired before human resolution.''" s]
    approvals_ok_transition [OF assms, of i Expired "''system''"
      "Some ''Approval expired before human resolution.''" s]
    transition_world [of i Expired "''system''"
      "Some ''Approval expired before human resolution.''" "sy_db s" s]
  note u = tr [folded mark_approval_expired_def, unfolded t, simplified]
  have def: "mark_approval_expired_with_audit i src tr s =
     (case r of Inl e \<Rightarrow> (Inl e, s'\<lparr>sy_db := d\<rparr>)
      | Inr a \<Rightarrow> (Inr a, snd (record_approval_resolution a src tr True (s'\<lparr>sy_db := d\<rparr>))))"
    by (simp add: mark_approval_expired_with_audit_def on_store_def t case_prod_beta Let_def
        split: sum.splits)
  show "fst (mark_approval_expired_with_audit i src tr s) =
      (case get_approval_request i (sy_db s) of
         None \<Rightarrow> Inl (KeyError i)
       | Some a \<Rightarrow> if ap_status a = Pending then Inr (expiry (fst (utc_now s)) a)
                  else Inl (ApprovalAlreadyResolved a))"
    using u(1) by (auto simp: def expiry_def split: sum.splits option.splits)
  show "get_approval_request k (sy_db (snd (mark_approval_expired_with_audit i src tr s))) =
      (case fst (mark_approval_expired_with_audit i src tr s) of
         Inl _ \<Rightarrow> get_approval_request k (sy_db s)
       | Inr a \<Rightarrow> if k = i then Some a else get_approval_request k (sy_db s))"
    using u(2) by (auto simp: def frame_simps split: sum.splits)
  show "approvals_ok (sy_db (snd (mark_approval_expired_with_audit i src tr s)))"
    using u(3) by (simp add: def record_resolution_ok split: sum.splits)
  show "w_mono (snd (mark_approval_expired_with_audit i src tr s)) = w_mono s"
    "w_monos (snd (mark_approval_expired_with_audit i src tr s)) = w_monos s"
    using u(4,5) by (simp_all add: def frame_simps split: sum.splits)
qed

section \<open>Expiry of stale requests\<close>

text \<open>\<open>aged c x y\<close>: the row \<open>x\<close> became \<open>y\<close>, expired when it was pending and \<open>c\<close> holds.\<close>

definition aged :: "bool \<Rightarrow> approval_request option \<Rightarrow> approval_request option \<Rightarrow> bool" where
  "aged c x y =
     (case x of
        None \<Rightarrow> y = None
      | Some a \<Rightarrow> if ap_status a = Pending \<and> c then \<exists>t. y = Some (expiry t a) else y = Some a)"

lemma aged_refl: "\<not> c \<Longrightarrow> aged c x x"
  by (simp add: aged_def split: option.splits)

lemma aged_trans: "aged c x y \<Longrightarrow> aged c' y z \<Longrightarrow> aged (c \<or> c') x z"
  by (auto simp: aged_def split: option.splits if_splits)

definition ages :: "(string \<Rightarrow> bool) \<Rightarrow> 'a sys_scheme \<Rightarrow> 'a sys_scheme \<Rightarrow> bool" where
  "ages c s s' =
     (approvals_ok (sy_db s') \<and> w_mono s' = w_mono s \<and> w_monos s' = w_monos s \<and>
      (\<forall>k. aged (c k) (get_approval_request k (sy_db s)) (get_approval_request k (sy_db s'))))"

lemma ages_trans: "ages c s s' \<Longrightarrow> ages c' s' s'' \<Longrightarrow> ages (\<lambda>k. c k \<or> c' k) s s''"
  unfolding ages_def by (auto intro: aged_trans)

lemma ages_mark:
  assumes "approvals_ok (sy_db s)"
  shows "ages (\<lambda>k. k = i) s (snd (mark_approval_expired_with_audit i src tr s))"
  unfolding ages_def aged_def using expired_with_audit [OF assms, where i = i and src = src and tr = tr]
  by (auto split: option.splits if_splits)

lemma expire_each_effect:
  fixes s :: "'a sys_scheme"
  assumes "approvals_ok (sy_db s)"
    and "\<forall>r\<in>set rs. get_approval_request (ap_id r) (sy_db s) \<noteq> None"
  shows "\<exists>l s'. expire_each cutoff src tr rs s = (Inr l, s')
    \<and> ages (\<lambda>k. \<exists>r\<in>set rs. ap_id r = k \<and> ap_created r \<le> cutoff) s s'"
  using assms
proof (induction rs arbitrary: s)
  case Nil
  then show ?case by (simp add: ages_def aged_refl)
next
  case (Cons r rs)
  show ?case
  proof (cases "ap_created r \<le> cutoff")
    case True
    let ?m = "mark_approval_expired_with_audit (ap_id r) src tr s"
    have m: "ages (\<lambda>k. k = ap_id r) s (snd ?m)" by (rule ages_mark [OF Cons.prems(1)])
    then have "\<forall>q\<in>set rs. get_approval_request (ap_id q) (sy_db (snd ?m)) \<noteq> None"
      using Cons.prems(2) by (auto simp: ages_def aged_def split: option.splits if_splits) metis+
    from Cons.IH [OF _ this] m obtain l s' where
      s': "expire_each cutoff src tr rs (snd ?m) = (Inr l, s')"
        "ages (\<lambda>k. \<exists>r\<in>set rs. ap_id r = k \<and> ap_created r \<le> cutoff) (snd ?m) s'"
      by (auto simp: ages_def)
    obtain a where "get_approval_request (ap_id r) (sy_db s) = Some a" using Cons.prems by auto
    then have "\<exists>l. expire_each cutoff src tr (r # rs) s = (Inr l, s')"
      using True s'(1) expired_with_audit(1) [OF Cons.prems(1), of "ap_id r" src tr]
      by (cases ?m) (auto split: sum.splits if_splits)
    moreover have "(\<lambda>k. \<exists>q\<in>set (r # rs). ap_id q = k \<and> ap_created q \<le> cutoff) =
        (\<lambda>k. k = ap_id r \<or> (\<exists>q\<in>set rs. ap_id q = k \<and> ap_created q \<le> cutoff))"
      using True by auto
    ultimately show ?thesis using ages_trans [OF m s'(2)] by auto
  next
    case False
    have "\<forall>r\<in>set rs. get_approval_request (ap_id r) (sy_db s) \<noteq> None" using Cons.prems by simp
    from Cons.IH [OF Cons.prems(1) this] False show ?thesis by auto
  qed
qed

text \<open>The snapshot holds exactly the pending requests, under their own identifiers.\<close>

lemma get_key: "approvals_ok d \<Longrightarrow> get_approval_request k d = Some a \<Longrightarrow> ap_id a = k"
  by (auto simp: approvals_ok_def row_in_step_def get_approval_request_def dest!: map_of_SomeD)

lemma listed_pending:
  assumes "approvals_ok d"
  shows "r \<in> set (list_approval_requests (Some Pending) None None 0 d) \<longleftrightarrow>
     get_approval_request (ap_id r) d = Some r \<and> ap_status r = Pending"
proof -
  have "r \<in> set (list_approval_requests (Some Pending) None None 0 d) \<longleftrightarrow>
      (\<exists>k row. (k, row) \<in> set (db_approvals d) \<and> row_status row = Pending \<and> row_request row = r)"
    by (force simp: list_approval_requests_def Let_def)
  also have "\<dots> \<longleftrightarrow>
      (\<exists>k row. map_of (db_approvals d) k = Some row \<and> row_status row = Pending \<and> row_request row = r)"
    using assms by (simp add: approvals_ok_def)
  also have "\<dots> \<longleftrightarrow> get_approval_request (ap_id r) d = Some r \<and> ap_status r = Pending"
  proof
    assume "\<exists>k row. map_of (db_approvals d) k = Some row \<and> row_status row = Pending \<and> row_request row = r"
    then obtain k row where "map_of (db_approvals d) k = Some row" "row_status row = Pending"
      "row_request row = r" by blast
    then have "get_approval_request k d = Some r" "ap_status r = Pending"
      using row_status_pending [OF assms] by (auto simp: get_approval_request_def)
    with get_key [OF assms this(1)]
    show "get_approval_request (ap_id r) d = Some r \<and> ap_status r = Pending" by simp
  qed (use row_status_pending [OF assms] in \<open>fastforce simp: get_approval_request_def\<close>)
  finally show ?thesis .
qed

lemma stale_effect:
  assumes "approvals_ok (sy_db s)"
  shows "\<exists>l s'. expire_stale_pending_approvals max_age src tr s = (Inr l, s')
    \<and> ages (\<lambda>k. \<exists>a. get_approval_request k (sy_db s) = Some a
                \<and> ap_created a \<le> fst (utc_now s) - max_age) s s'"
proof -
  let ?s = "snd (utc_now s)"
  let ?rs = "list_approval_requests (Some Pending) None None 0 (sy_db s)"
  let ?cut = "fst (utc_now s) - max_age"
  have "\<forall>r\<in>set ?rs. get_approval_request (ap_id r) (sy_db ?s) \<noteq> None"
    using listed_pending [OF assms] by (simp add: frame_simps)
  with expire_each_effect [of ?s ?rs ?cut src tr] assms obtain l s' where
    s': "expire_each ?cut src tr ?rs ?s = (Inr l, s')"
      "ages (\<lambda>k. \<exists>r\<in>set ?rs. ap_id r = k \<and> ap_created r \<le> ?cut) ?s s'"
    by (auto simp: frame_simps)
  have "(\<exists>r\<in>set ?rs. ap_id r = k \<and> ap_created r \<le> ?cut) \<longleftrightarrow>
      (\<exists>a. get_approval_request k (sy_db s) = Some a \<and> ap_status a = Pending \<and> ap_created a \<le> ?cut)" for k
    using listed_pending [OF assms] get_key [OF assms] by metis
  then have "aged (\<exists>r\<in>set ?rs. ap_id r = k \<and> ap_created r \<le> ?cut) (get_approval_request k (sy_db s)) y =
     aged (\<exists>a. get_approval_request k (sy_db s) = Some a \<and> ap_created a \<le> ?cut)
       (get_approval_request k (sy_db s)) y" for k y
    by (simp add: aged_def split: option.splits)
  then show ?thesis
    using s' by (simp add: expire_stale_pending_approvals_def case_prod_beta Let_def ages_def frame_simps)
qed

lemma resolve_after:
  assumes "approvals_ok (sy_db s)"
  shows "fst (on_store (resolve_approval_request i st by c) s) =
      (case get_approval_request i (sy_db s) of
        None \<Rightarrow> Inl (KeyError i)
      | Some a \<Rightarrow> if ap_status a = Pending then Inr (transitioned st by c (fst (utc_now s)) a)
                 else Inl (ApprovalAlreadyResolved a))"
    and "get_approval_request i (sy_db (snd (on_store (resolve_approval_request i st by c) s))) =
      (case fst (on_store (resolve_approval_request i st by c) s) of
         Inl _ \<Rightarrow> get_approval_request i (sy_db s) | Inr a \<Rightarrow> Some a)"
  using transition_result [OF assms(1), of i st "by" c s] transition_get [OF assms(1), of i i st "by" c s]
  by (auto simp: on_store_def resolve_approval_request_def case_prod_beta split: sum.splits)

text \<open>A human decision on a pending request that is 300 seconds old or older is refused: the
  request is expired first and its expired record is what the caller gets in the error and
  what is stored. A decision on a younger request is stored and returned.\<close>

theorem stale_request_not_resolved:
  assumes "approvals_ok (sy_db s)" "get_approval_request i (sy_db s) = Some a" "ap_status a = Pending"
    and "resolve_approval_with_audit i status by comment src tr s = (res, s')"
  shows "\<exists>t. if ap_created a \<le> fst (utc_now s) - 300 * 1000000
     then res = Inl (ApprovalAlreadyResolved (expiry t a))
        \<and> get_approval_request i (sy_db s') = Some (expiry t a)
     else res = Inr (transitioned status by comment t a)
        \<and> get_approval_request i (sy_db s') = Some (transitioned status by comment t a)"
proof -
  obtain l s1 where s1: "expire_stale_pending_approvals DEFAULT_APPROVAL_TIMEOUT Hook False s = (Inr l, s1)"
      "ages (\<lambda>k. \<exists>a. get_approval_request k (sy_db s) = Some a
                \<and> ap_created a \<le> fst (utc_now s) - DEFAULT_APPROVAL_TIMEOUT) s s1"
    using stale_effect [OF assms(1)] by blast
  note r = resolve_after [of s1 i status "by" comment]
  obtain q s2 where q: "on_store (resolve_approval_request i status by comment) s1 = (q, s2)"
    by (cases "on_store (resolve_approval_request i status by comment) s1")
  have res: "res = q" "get_approval_request i (sy_db s') = get_approval_request i (sy_db s2)"
    using assms(4)
    by (auto simp: resolve_approval_with_audit_def s1(1) q case_prod_beta Let_def frame_simps
        split: sum.splits)
  have ok: "approvals_ok (sy_db s1)" using s1(2) by (simp add: ages_def)
  have "aged (ap_created a \<le> fst (utc_now s) - 300 * 1000000) (Some a) (get_approval_request i (sy_db s1))"
    using s1(2) assms(2) by (auto simp: ages_def DEFAULT_APPROVAL_TIMEOUT_def dest!: spec [of _ i])
  then obtain t where t: "get_approval_request i (sy_db s1) =
      Some (if ap_created a \<le> fst (utc_now s) - 300 * 1000000 then expiry t a else a)"
    using assms(3) by (auto simp: aged_def split: if_splits)
  show ?thesis
    using r [OF ok] assms(3) t
    by (intro exI [of _ "if ap_created a \<le> fst (utc_now s) - 300 * 1000000 then t else fst (utc_now s1)"])
       (simp add: q res)
qed

text \<open>A system state that holds one request, for the witnesses.\<close>

definition sys1 :: "approval_request \<Rightarrow> sys" where
  "sys1 a = \<lparr>w_ms = (\<lambda>_. 0), w_rand = (\<lambda>n. n), w_ids = 0, w_wall = (\<lambda>n. 400 * 1000000), w_walls = 0,
             w_mono = (\<lambda>n. of_nat n), w_monos = 0,
             sy_db = save_approval_request a empty_store, sy_trace = []\<rparr>"

lemma sys1_ok:
  "approvals_ok (sy_db (sys1 request1))"
  "get_approval_request ''A'' (sy_db (sys1 request1)) = Some request1"
  "ap_status request1 = Pending"
  using request1_stored by (simp_all add: sys1_def request1_def)

theorem stale_request_not_resolved_witness:
  "\<exists>t. fst (resolve_approval_with_audit ''A'' Approved ''bob'' None Hook False (sys1 request1)) =
     Inl (ApprovalAlreadyResolved (expiry t request1))"
proof -
  obtain res s' where r:
    "resolve_approval_with_audit ''A'' Approved ''bob'' None Hook False (sys1 request1) = (res, s')"
    by (cases "resolve_approval_with_audit ''A'' Approved ''bob'' None Hook False (sys1 request1)")
  have "ap_created request1 \<le> fst (utc_now (sys1 request1)) - 300 * 1000000"
    by (simp add: request1_def sys1_def utc_now_def)
  with stale_request_not_resolved [OF sys1_ok r] r show ?thesis by auto
qed

section \<open>Waiting\<close>

lemma approval_step_world:
  "w_mono (snd (snd (approval_step p (d, w)))) = w_mono w"
  "w_monos (snd (snd (approval_step p (d, w)))) = w_monos w"
  by (cases p; simp add: approval_ops frame_simps)+

lemma run_ops_world:
  "w_mono (snd (snd (run_ops approval_step ps s))) = w_mono (snd s) \<and>
   w_monos (snd (snd (run_ops approval_step ps s))) = w_monos (snd s)"
proof (induction ps arbitrary: s)
  case (Cons p ps)
  then show ?case by (cases s) (simp add: approval_step_world)
qed simp

lemma run_ops_ok:
  "approvals_ok (fst s) \<Longrightarrow> approvals_ok (fst (snd (run_ops approval_step ps s)))"
  by (induction ps arbitrary: s) (simp_all add: approvals_ok_step)

lemma others_frame:
  assumes "approvals_ok (sy_db s)"
  shows "approvals_ok (sy_db (others ps s))"
    and "w_mono (others ps s) = w_mono s" "w_monos (others ps s) = w_monos s"
    and "asked i a (sy_db s) \<Longrightarrow> \<forall>p\<in>set ps. keeps_identity i p \<Longrightarrow> asked i a (sy_db (others ps s))"
  using assms run_ops_ok [of "(sy_db s, s)" ps] run_ops_world [of ps "(sy_db s, s)"]
    asked_run [of "(sy_db s, s)" i a ps]
  by (simp_all add: others_def case_prod_beta)

lemma asked_aged:
  assumes "ages c s s'" "asked i a (sy_db s)"
  shows "asked i a (sy_db s')"
proof -
  obtain b where b: "get_approval_request i (sy_db s) = Some b" "same_question a b"
      "ap_status b = Pending \<longrightarrow> b = a"
    using assms(2) by (auto simp: asked_def split: option.splits)
  have "aged (c i) (Some b) (get_approval_request i (sy_db s'))"
    using assms(1) b(1) unfolding ages_def by metis
  then have "get_approval_request i (sy_db s') = Some b \<or>
      (\<exists>t. get_approval_request i (sy_db s') = Some (expiry t b))"
    by (auto simp: aged_def split: if_splits)
  then show ?thesis
    using b(2,3) by (elim disjE exE) (simp_all add: asked_def, simp add: expiry_def)
qed

lemma monotonic_frame [frame_simps]:
  "fst (monotonic s) = w_mono s (w_monos s)" "w_mono (snd (monotonic s)) = w_mono s"
  "w_monos (snd (monotonic s)) = Suc (w_monos s)" "sy_db (snd (monotonic s)) = sy_db s"
  by (simp_all add: monotonic_def)

lemma wait_loop_outcome:
  assumes "approvals_ok (sy_db s)" "asked i a (sy_db s)"
    and "\<forall>ps\<in>set acts. \<forall>p\<in>set ps. keeps_identity i p"
    and "\<exists>k<n. deadline \<le> w_mono s (w_monos s + k)"
  shows "\<exists>b s'. wait_loop n acts i deadline tr max_age s = (Some (Inr (build_wait_approval_response b)), s')
     \<and> get_approval_request i (sy_db s') = Some b \<and> same_question a b \<and> ap_status b \<noteq> Pending"
  using assms
proof (induction n arbitrary: acts s)
  case 0
  then show ?case by simp
next
  case (Suc n)
  obtain l s1 c where s1: "expire_stale_pending_approvals max_age Hook False s = (Inr l, s1)" "ages c s s1"
    using stale_effect [OF Suc.prems(1)] by blast
  then have ok1: "approvals_ok (sy_db s1)" and ask1: "asked i a (sy_db s1)"
    using asked_aged [OF s1(2) Suc.prems(2)] by (auto simp: ages_def)
  obtain b where b: "get_approval_request i (sy_db s1) = Some b" "same_question a b"
    using ask1 by (auto simp: asked_def split: option.splits)
  let ?s2 = "others (next_acts acts) (snd (monotonic s1))"
  have acts: "\<forall>p\<in>set (next_acts acts). keeps_identity i p"
    using Suc.prems(3) by (auto simp: next_acts_def split: list.splits)
  have ok2: "approvals_ok (sy_db ?s2)" and ask2: "asked i a (sy_db ?s2)"
    and mono2: "w_mono ?s2 = w_mono s" "w_monos ?s2 = Suc (w_monos s)"
    using others_frame [where s = "snd (monotonic s1)" and ps = "next_acts acts"] ok1 ask1 acts s1(2)
    by (simp_all add: frame_simps ages_def)
  note m = expired_with_audit [OF ok2, where i = i and src = Hook and tr = tr]
  consider "ap_status b \<noteq> Pending" | "ap_status b = Pending" "deadline \<le> w_mono s (w_monos s)"
    | "ap_status b = Pending" "\<not> deadline \<le> w_mono s (w_monos s)" by blast
  then show ?case
  proof cases
    case 1
    then show ?thesis using s1 b by simp
  next
    case 2
    obtain e where e: "get_approval_request i (sy_db ?s2) = Some e" "same_question a e"
      using ask2 by (auto simp: asked_def split: option.splits)
    show ?thesis
      using 2 s1 b e m(1) m(2) [of i]
      by (cases "mark_approval_expired_with_audit i Hook tr ?s2")
         (auto simp: Let_def case_prod_beta frame_simps ages_def expiry_def split: sum.splits if_splits,
          auto simp: transitioned_def)
  next
    case 3
    obtain k where k: "k < Suc n" "deadline \<le> w_mono s (w_monos s + k)" using Suc.prems(4) by blast
    with 3 have "k \<noteq> 0" by (cases k) auto
    then have "\<exists>k<n. deadline \<le> w_mono ?s2 (w_monos ?s2 + k)"
      using k by (intro exI [of _ "k - 1"]) (simp add: mono2)
    moreover have "\<forall>ps\<in>set (drop 1 acts). \<forall>p\<in>set ps. keeps_identity i p"
      using Suc.prems(3) in_set_dropD by metis
    ultimately show ?thesis
      using Suc.IH [OF ok2 ask2] 3 s1 b
      by (simp add: Let_def case_prod_beta frame_simps ages_def)
  qed
qed

lemma wait_final:
  assumes "approvals_ok (sy_db s)" "get_approval_request i (sy_db s) = Some a"
    and "\<forall>ps\<in>set acts. \<forall>p\<in>set ps. keeps_identity i p"
    and "\<exists>k<fuel. w_mono s (w_monos s) + timeout \<le> w_mono s (Suc (w_monos s) + k)"
  obtains b s' where "wait_for_approval_resolution fuel acts i timeout tr max_age s =
        (Some (Inr (build_wait_approval_response b)), s')"
      "get_approval_request i (sy_db s') = Some b" "same_question a b" "ap_status b \<noteq> Pending"
proof -
  have "asked i a (sy_db (snd (monotonic s)))" using assms(2) by (simp add: asked_def frame_simps)
  with wait_loop_outcome [of "snd (monotonic s)" i a acts fuel "w_mono s (w_monos s) + timeout" tr max_age]
    assms that show thesis
    by (auto simp: wait_for_approval_resolution_def case_prod_beta Let_def frame_simps)
qed

text \<open>C7. Waiting for an approval ends: when the clock passes the deadline within the given number
  of polls, the loop returns the stored request in a final state, whatever the other processes
  do meanwhile; the answer's effective action is \<open>allow\<close> exactly when the stored request is
  approved and \<open>block\<close> otherwise.\<close>

theorem wait_returns_final_decision:
  assumes "approvals_ok (sy_db s)" "get_approval_request i (sy_db s) = Some a"
    and "\<forall>ps\<in>set acts. \<forall>p\<in>set ps. keeps_identity i p"
    and "\<exists>k<fuel. w_mono s (w_monos s) + timeout \<le> w_mono s (Suc (w_monos s) + k)"
  shows "\<exists>b s'. wait_for_approval_resolution fuel acts i timeout tr max_age s =
        (Some (Inr (build_wait_approval_response b)), s')
     \<and> get_approval_request i (sy_db s') = Some b \<and> same_question a b \<and> ap_status b \<noteq> Pending
     \<and> dget (build_wait_approval_response b) ''effective_action'' =
         JStr (if ap_status b = Approved then ''allow'' else ''block'')"
proof -
  from wait_final [OF assms] obtain b s' where
    b: "wait_for_approval_resolution fuel acts i timeout tr max_age s =
        (Some (Inr (build_wait_approval_response b)), s')"
      "get_approval_request i (sy_db s') = Some b" "same_question a b" "ap_status b \<noteq> Pending" by blast
  moreover have "dget (build_wait_approval_response b) ''effective_action'' =
         JStr (if ap_status b = Approved then ''allow'' else ''block'')"
    using b(4) by (cases "ap_status b")
      (simp_all add: dget_def build_wait_approval_response_def effective_action_for_status_def)
  ultimately show ?thesis by blast
qed

theorem wait_returns_final_decision_witness:
  "\<exists>b s'. wait_for_approval_resolution 3 [[ResolveApproval ''A'' Approved ''bob'' None]] ''A'' 2 False
        (1000 * 1000000) (sys1 request1) = (Some (Inr (build_wait_approval_response b)), s')
     \<and> ap_status b \<noteq> Pending"
proof -
  have "\<exists>k<3. w_mono (sys1 request1) (w_monos (sys1 request1)) + 2
        \<le> w_mono (sys1 request1) (Suc (w_monos (sys1 request1)) + k)"
    by (intro exI [of _ 2]) (simp add: sys1_def)
  with wait_returns_final_decision [OF sys1_ok(1,2), of "[[ResolveApproval ''A'' Approved ''bob'' None]]" 3 2
      False "1000 * 1000000"]
  show ?thesis by auto
qed

end
