(* ===== verification/Service.thy ===== *)
theory Service
  imports Detection Approvals Adjudication
begin

text \<open>
  \<open>src/zeroadr/runtime/service.py\<close>: the decision service that records an event, runs the
  detectors and the policy engine, lets a configured language model gate reconsider the
  decision, opens an approval request where one is required, and records the outcome. An
  exception that the service does not catch is the result \<open>Inl\<close>; what was written before it
  stays written.
\<close>

record runtime_decision =
  rd_event :: runtime_event
  rd_findings :: "finding list"
  rd_decision :: policy_decision
  rd_policy_event :: runtime_event
  rd_approval :: "approval_request option"
  rd_adjudication :: "llm_adjudication option"

record 'w service =
  sv_source :: source_type
  sv_engine :: policy_engine
  sv_trace :: bool
  sv_store :: bool
  sv_adjudicator :: "'w adjudicator option"

definition SAFE_ADJUDICATION_ERRORS :: "(string \<times> string) list" where
  "SAFE_ADJUDICATION_ERRORS =
     [(''missing_llm_config'', ''LLM Gate is not configured.''),
      (''provider_timeout'', ''LLM Gate timed out.''),
      (''provider_connection_error'', ''LLM Gate provider connection failed.''),
      (''provider_http_error'', ''LLM Gate provider returned an HTTP error.''),
      (''invalid_provider_response'', ''LLM Gate provider response was invalid.''),
      (''invalid_model_output'', ''LLM Gate output did not match the required schema.''),
      (''unknown_evidence_reference'', ''LLM Gate referenced evidence that was not supplied.'')]"

definition safe_error :: "string \<Rightarrow> string" where
  "safe_error code =
     (case map_of SAFE_ADJUDICATION_ERRORS code of None \<Rightarrow> ''LLM Gate failed.'' | Some m \<Rightarrow> m)"

definition record_event :: "'w service \<Rightarrow> runtime_event \<Rightarrow> 'a sys_scheme \<Rightarrow> 'a sys_scheme" where
  "record_event S e s = keep_event (sv_trace S) (sv_store S) (redact_event e) s"

definition update_db :: "(store \<Rightarrow> store) \<Rightarrow> 'a sys_scheme \<Rightarrow> 'a sys_scheme" where
  "update_db f s = s\<lparr>sy_db := f (sy_db s)\<rparr>"

definition save_findings :: "finding list \<Rightarrow> store \<Rightarrow> store" where
  "save_findings fs d = fold save_finding fs d"

definition decision_with_action ::
  "policy_decision \<Rightarrow> policy_action \<Rightarrow> string \<Rightarrow> 'a world_scheme \<Rightarrow> policy_decision \<times> 'a world_scheme" where
  "decision_with_action d act reason w =
     new_policy_decision (pd_policy d) act reason (pd_session d) (pd_event d) (pd_findings d) w"

definition proposed_action :: "llm_adjudication_policy \<Rightarrow> llm_adjudication_result \<Rightarrow> policy_action" where
  "proposed_action gate r =
     (if jr_confidence r < ap_min_confidence gate \<or> jr_verdict r = Uncertain then RequireApproval
      else if jr_verdict r = LikelyTruePositive then ap_true_positive gate
      else ap_false_positive gate)"

definition decision_dump :: "policy_decision \<Rightarrow> jdict" where
  "decision_dump d =
     [(''decision_id'', JStr (pd_id d)), (''policy_id'', json_opt (pd_policy d)),
      (''action'', JStr (action_str (pd_action d))), (''reason'', JStr (pd_reason d)),
      (''session_id'', JStr (pd_session d)), (''event_id'', JStr (pd_event d)),
      (''finding_ids'', json_strs (pd_findings d)), (''created_at'', json_time (pd_created d))]"

section \<open>The language model gate\<close>

definition gate_applies :: "source_type \<Rightarrow> runtime_event \<Rightarrow> finding list \<Rightarrow> bool" where
  "gate_applies src event findings =
     (ev_type event = ToolCallRequested \<and> src \<in> {McpGateway, Hook}
      \<and> \<not> (\<exists>f \<in> set findings. fi_severity f = Critical))"

text \<open>\<open>getattr(self.adjudicator, "prompt_version", "gate-v0.1")\<close>.\<close>

definition prompt_version :: "'w adjudicator option \<Rightarrow> string" where
  "prompt_version aj =
     (case aj of None \<Rightarrow> ''gate-v0.1''
      | Some a \<Rightarrow> (case aj_version a of None \<Rightarrow> ''gate-v0.1'' | Some v \<Rightarrow> v))"

definition completed_adjudication ::
  "string \<Rightarrow> runtime_event \<Rightarrow> finding list \<Rightarrow> policy_decision \<Rightarrow> int \<Rightarrow> llm_adjudication_policy \<Rightarrow>
   'w adjudicator \<Rightarrow> prepared_payload \<Rightarrow> provider_adjudication \<Rightarrow> policy_action \<Rightarrow> llm_adjudication" where
  "completed_adjudication i event findings d now gate aj prepared pr final =
     \<lparr>ad_id = i, ad_session = ev_session event, ad_event = ev_id event,
      ad_findings = map fi_id findings, ad_policy = str_or (pd_policy d) ''unnamed-policy'',
      ad_created = now, ad_status = Completed, ad_mode = ap_mode gate, ad_stage = StagePreTool,
      ad_provider = ''openai-compatible'', ad_model = aj_model aj,
      ad_prompt_version = prompt_version (Some aj), ad_input_sha256 = pp_sha256 prepared,
      ad_result = Some (pa_result pr), ad_proposed = proposed_action gate (pa_result pr),
      ad_final = final, ad_latency_ms = pa_latency_ms pr, ad_usage = pa_usage pr,
      ad_provider_request = pa_request pr, ad_error_code = None, ad_error_message = None\<rparr>"

definition failed_adjudication ::
  "string \<Rightarrow> runtime_event \<Rightarrow> finding list \<Rightarrow> policy_decision \<Rightarrow> int \<Rightarrow> llm_adjudication_policy \<Rightarrow>
   'w adjudicator option \<Rightarrow> prepared_payload \<Rightarrow> policy_action \<Rightarrow> string \<Rightarrow> llm_adjudication" where
  "failed_adjudication i event findings d now gate aj prepared final code =
     \<lparr>ad_id = i, ad_session = ev_session event, ad_event = ev_id event,
      ad_findings = map fi_id findings, ad_policy = str_or (pd_policy d) ''unnamed-policy'',
      ad_created = now, ad_status = Failed, ad_mode = ap_mode gate, ad_stage = StagePreTool,
      ad_provider = ''openai-compatible'',
      ad_model = (case aj of None \<Rightarrow> ''unconfigured'' | Some a \<Rightarrow> aj_model a),
      ad_prompt_version = prompt_version aj, ad_input_sha256 = pp_sha256 prepared,
      ad_result = None, ad_proposed = RequireApproval, ad_final = final, ad_latency_ms = 0,
      ad_usage = None, ad_provider_request = None, ad_error_code = Some code,
      ad_error_message = Some (safe_error code)\<rparr>"

text \<open>The call of the adjudicator; without one the error is raised locally.\<close>

definition consult ::
  "'a sys_scheme adjudicator option \<Rightarrow> prepared_payload \<Rightarrow> 'a sys_scheme \<Rightarrow>
   (exn + 'a sys_scheme adjudicator \<times> provider_adjudication) \<times> 'a sys_scheme" where
  "consult aj prepared s =
     (case aj of
        None \<Rightarrow> (Inl (LLMProviderError ''missing_llm_config'' ''LLM Gate is not configured.''), s)
      | Some a \<Rightarrow>
          (case aj_run a (pp_payload prepared) (pp_refs prepared) s of
             (Inl e, s) \<Rightarrow> (Inl e, s)
           | (Inr pr, s) \<Rightarrow> (Inr (a, pr), s)))"

text \<open>The \<open>try\<close> statement of \<open>evaluate\<close>: the adjudication record, the final action and the
  reason. A record that breaks its own checks is rejected by its constructor.\<close>

definition run_gate ::
  "'a sys_scheme service \<Rightarrow> llm_adjudication_policy \<Rightarrow> runtime_event \<Rightarrow> finding list \<Rightarrow> policy_decision \<Rightarrow>
   'a sys_scheme \<Rightarrow> (exn + llm_adjudication \<times> policy_action \<times> string) \<times> 'a sys_scheme" where
  "run_gate S gate event findings d s =
     (let prepared = build_adjudication_payload event findings (str_or (pd_policy d) ''unnamed-policy'');
          (i, s) = new_ulid s in
      case consult (sv_adjudicator S) prepared s of
        (Inr (a, pr), s) \<Rightarrow>
          (let final = resolve_adjudication_action (pd_action d) gate (Some (pa_result pr)) False;
               (now, s) = utc_now s;
               adjudication = completed_adjudication i event findings d now gate a prepared pr final in
           if ad_latency_ms adjudication < 0 then (Inl (PyError ''ValidationError''), s)
           else (Inr (adjudication, final,
                   ''LLM adjudication '' @ i @ '': '' @ jr_reason (pa_result pr)), s))
      | (Inl (LLMProviderError code msg), s) \<Rightarrow>
          (let final = resolve_adjudication_action (pd_action d) gate None False;
               (now, s) = utc_now s;
               adjudication =
                 failed_adjudication i event findings d now gate (sv_adjudicator S) prepared final code in
           (Inr (adjudication, final, ''LLM adjudication '' @ i @ '': '' @ safe_error code), s))
      | (Inl e, s) \<Rightarrow> (Inl e, s))"

section \<open>Evaluating an event\<close>

text \<open>The decision after the gate, with the adjudication record if the gate ran.\<close>

definition gated_decision ::
  "'a sys_scheme service \<Rightarrow> llm_adjudication_policy option \<Rightarrow> runtime_event \<Rightarrow> finding list \<Rightarrow>
   policy_decision \<Rightarrow> 'a sys_scheme \<Rightarrow>
   (exn + policy_decision \<times> llm_adjudication option) \<times> 'a sys_scheme" where
  "gated_decision S gate event findings d s =
     (case gate of
        None \<Rightarrow> (Inr (d, None), s)
      | Some g \<Rightarrow>
          if \<not> gate_applies (sv_source S) event findings then (Inr (d, None), s)
          else case run_gate S g event findings d s of
                 (Inl e, s) \<Rightarrow> (Inl e, s)
               | (Inr (a, final, reason), s) \<Rightarrow>
                   (let s = (if sv_store S then update_db (save_llm_adjudication a) s else s);
                        (d', s) = decision_with_action d final reason s
                    in (Inr (d', Some a), s)))"

definition open_approval ::
  "runtime_event \<Rightarrow> policy_decision \<Rightarrow> 'a sys_scheme \<Rightarrow> approval_request \<times> 'a sys_scheme" where
  "open_approval event d s =
     (let (a, s) = new_approval_request (pd_id d) (pd_session d) (pd_event d) (ev_request event)
            (pd_policy d) (pd_reason d) (pd_findings d) (ev_tool event) (ev_capability event)
            (ev_arguments (redact_event event)) StagePreTool JNull JNull s
      in (a, update_db (save_approval_request a) s))"

definition save_decision ::
  "'w service \<Rightarrow> runtime_event \<Rightarrow> policy_decision \<Rightarrow> 'a sys_scheme \<Rightarrow>
   approval_request option \<times> 'a sys_scheme" where
  "save_decision S event d s =
     (if sv_store S then
        (let s = update_db (save_policy_decision d) s in
         if pd_action d = RequireApproval
         then (let (a, s) = open_approval event d s in (Some a, s))
         else (None, s))
      else (None, s))"

definition policy_result :: "policy_decision \<Rightarrow> llm_adjudication option \<Rightarrow> json" where
  "policy_result d adjudication =
     JObj ([(''action'', JStr (action_str (pd_action d))), (''policy_id'', json_opt (pd_policy d))]
           @ (case adjudication of None \<Rightarrow> [] | Some a \<Rightarrow> [(''adjudication_id'', JStr (ad_id a))]))"

text \<open>The three parts of \<open>evaluate\<close>: detection and policy, the gate, and the records of the
  outcome.\<close>

definition assess ::
  "'a sys_scheme service \<Rightarrow> runtime_event \<Rightarrow> 'a sys_scheme \<Rightarrow>
   finding list \<times> policy_decision \<times> 'a sys_scheme" where
  "assess S event s =
     (let s = record_event S event s;
          (findings, s) = detect event s;
          s = (if sv_store S then update_db (save_findings findings) s else s);
          (d, s) = evaluate (sv_engine S) event findings s
      in (findings, d, s))"

definition conclude ::
  "'a sys_scheme service \<Rightarrow> runtime_event \<Rightarrow> finding list \<Rightarrow> policy_decision \<Rightarrow> llm_adjudication option \<Rightarrow>
   'a sys_scheme \<Rightarrow> runtime_decision \<times> 'a sys_scheme" where
  "conclude S event findings d adjudication s =
     (let (approval, s) = save_decision S event d s;
          (policy_event, s) = new_event PolicyEvaluated (sv_source S) (ev_session event)
             (ev_request event) (ev_server event) (ev_tool event) (ev_capability event) None
             (ev_arguments event) (policy_result d adjudication) None (decision_dump d) s;
          s = record_event S policy_event s
      in (\<lparr>rd_event = event, rd_findings = findings, rd_decision = d,
           rd_policy_event = policy_event, rd_approval = approval,
           rd_adjudication = adjudication\<rparr>, s))"

definition service_evaluate ::
  "validators \<Rightarrow> 'a sys_scheme service \<Rightarrow> runtime_event \<Rightarrow> 'a sys_scheme \<Rightarrow>
   (exn + runtime_decision) \<times> 'a sys_scheme" where
  "service_evaluate V S event s =
     (case assess S event s of (findings, d, s) \<Rightarrow>
      (case llm_adjudication_for V (sv_engine S) event findings of
         Inl e \<Rightarrow> (Inl e, s)
       | Inr gate \<Rightarrow>
           (case gated_decision S gate event findings d s of
              (Inl e, s) \<Rightarrow> (Inl e, s)
            | (Inr (d, adjudication), s) \<Rightarrow>
                (let (rd, s) = conclude S event findings d adjudication s in (Inr rd, s)))))"

section \<open>The action that is decided\<close>

definition base_action :: "policy_engine \<Rightarrow> runtime_event \<Rightarrow> finding list \<Rightarrow> policy_action" where
  "base_action E e fs =
     (case deciding (pe_policies E) e fs of
        Some p \<Rightarrow> policy_action p | None \<Rightarrow> if fs = [] then Allow else Alert)"

lemma pd_action_evaluate: "pd_action (fst (evaluate E e fs w)) = base_action E e fs"
  by (simp add: evaluate_def evaluate_policies_deciding base_action_def split: option.splits)

lemma run_gate_outcome:
  assumes "run_gate S g e fs d s = (Inr (a, final, reason), s')"
  shows "final = resolve_adjudication_action (pd_action d) g (ad_result a) False
    \<and> ad_final a = final \<and> adjudication_consistent a \<and> ad_event a = ev_id e
    \<and> ad_mode a = ap_mode g"
  using assms
  by (auto simp: run_gate_def Let_def case_prod_beta completed_adjudication_def
      failed_adjudication_def adjudication_consistent_def
      split: prod.splits sum.splits exn.splits if_splits)

lemma gated_decision_outcome:
  assumes "gated_decision S gate e fs d s = (Inr (d', ad), s')"
  shows "case ad of
      None \<Rightarrow> d' = d \<and> (gate = None \<or> \<not> gate_applies (sv_source S) e fs)
    | Some a \<Rightarrow> gate_applies (sv_source S) e fs \<and> adjudication_consistent a \<and> ad_event a = ev_id e
        \<and> (\<exists>g. gate = Some g \<and> ad_mode a = ap_mode g
            \<and> pd_action d' = resolve_adjudication_action (pd_action d) g (ad_result a) False)
        \<and> ad_final a = pd_action d' \<and> pd_policy d' = pd_policy d"
  using assms run_gate_outcome [of S _ e fs d s]
  by (auto simp: gated_decision_def Let_def case_prod_beta decision_with_action_def
      split: option.splits prod.splits sum.splits if_splits)

text \<open>The steps of a successful evaluation.\<close>

lemma service_evaluate_steps:
  assumes "service_evaluate V S e s = (Inr rd, s')"
  obtains d s2 gate s3 where
    "assess S e s = (rd_findings rd, d, s2)"
    "llm_adjudication_for V (sv_engine S) e (rd_findings rd) = Inr gate"
    "gated_decision S gate e (rd_findings rd) d s2 = (Inr (rd_decision rd, rd_adjudication rd), s3)"
    "conclude S e (rd_findings rd) (rd_decision rd) (rd_adjudication rd) s3 = (rd, s')"
proof -
  obtain fs d s2 where a: "assess S e s = (fs, d, s2)" by (metis prod_cases3)
  then obtain gate d' ad s3 where g: "llm_adjudication_for V (sv_engine S) e fs = Inr gate"
      "gated_decision S gate e fs d s2 = (Inr (d', ad), s3)" "conclude S e fs d' ad s3 = (rd, s')"
    using assms by (auto simp: service_evaluate_def split: sum.splits prod.splits)
  then have "rd_findings rd = fs" "rd_decision rd = d'" "rd_adjudication rd = ad"
    by (auto simp: conclude_def Let_def split: prod.splits)
  with a g that show ?thesis by metis
qed

lemma evaluate_action: "evaluate E e fs w = (d, w') \<Longrightarrow> pd_action d = base_action E e fs"
  using pd_action_evaluate [of E e fs w] by simp

lemma assess_action: "assess S e s = (fs, d, s2) \<Longrightarrow> pd_action d = base_action (sv_engine S) e fs"
  by (auto simp: assess_def Let_def case_prod_beta dest!: evaluate_action)


section \<open>The records of an outcome\<close>

lemmas save_defs = save_event_def save_finding_def save_policy_decision_def save_approval_request_def
  save_llm_adjudication_def note_session_def

lemma new_event_id_frame [frame_simps]:
  "w_ids (snd (new_event ty src se rq sv to ca cx ar re er ra w)) = Suc (w_ids w)"
  by (simp add: new_event_def new_ulid_def utc_now_def Let_def)

lemma keep_event_tables [frame_simps]:
  "db_decisions (sy_db (keep_event tr st e s)) = db_decisions (sy_db s)"
  "db_adjudications (sy_db (keep_event tr st e s)) = db_adjudications (sy_db s)"
  "db_findings (sy_db (keep_event tr st e s)) = db_findings (sy_db s)"
  by (simp_all add: keep_event_def save_defs Let_def)

lemma new_approval_request_frame [frame_simps]:
  "sy_db (snd (new_approval_request d se ev rq p r fs t c a sg rp ep s)) = sy_db s"
  "sy_trace (snd (new_approval_request d se ev rq p r fs t c a sg rp ep s)) = sy_trace s"
  by (simp_all add: new_approval_request_def new_ulid_def utc_now_def Let_def)

lemma new_approval_request_links [simp]:
  "ap_decision (fst (new_approval_request d se ev rq p r fs t c a sg rp ep w)) = d"
  "ap_findings (fst (new_approval_request d se ev rq p r fs t c a sg rp ep w)) = fs"
  "ap_request (fst (new_approval_request d se ev rq p r fs t c a sg rp ep w)) = rq"
  by (simp_all add: new_approval_request_def case_prod_beta Let_def)

lemma save_decision_stored:
  assumes "sv_store S" "save_decision S e d s = (ap, s')"
  shows "map_of (db_decisions (sy_db s')) (pd_id d) = Some d
    \<and> (case ap of
         None \<Rightarrow> pd_action d \<noteq> RequireApproval
       | Some a \<Rightarrow> pd_action d = RequireApproval \<and> get_approval_request (ap_id a) (sy_db s') = Some a
           \<and> ap_status a = Pending \<and> ap_decision a = pd_id d \<and> ap_event a = pd_event d
           \<and> ap_arguments a = ev_arguments (redact_event e))"
  using assms
  by (auto simp: save_decision_def open_approval_def Let_def case_prod_beta update_db_def
      get_approval_request_save frame_simps tab.get_put save_policy_decision_def note_session_def
      split: if_splits)
     (simp_all add: save_approval_request_def note_session_def frame_simps tab.get_put)

lemma conclude_stored:
  assumes "sv_store S" "conclude S e fs d ad s = (rd, s')"
  shows "map_of (db_decisions (sy_db s')) (pd_id d) = Some d
    \<and> map_of (db_events (sy_db s')) (ev_id (rd_policy_event rd)) = Some (redact_event (rd_policy_event rd))
    \<and> (case rd_approval rd of
         None \<Rightarrow> pd_action d \<noteq> RequireApproval
       | Some a \<Rightarrow> pd_action d = RequireApproval \<and> get_approval_request (ap_id a) (sy_db s') = Some a
           \<and> ap_status a = Pending \<and> ap_decision a = pd_id d \<and> ap_event a = pd_event d
           \<and> ap_arguments a = ev_arguments (redact_event e))"
proof -
  obtain ap s1 where s1: "save_decision S e d s = (ap, s1)" by (cases "save_decision S e d s")
  obtain pe s2 where s2: "new_event PolicyEvaluated (sv_source S) (ev_session e)
             (ev_request e) (ev_server e) (ev_tool e) (ev_capability e) None
             (ev_arguments e) (policy_result d ad) None (decision_dump d) s1 = (pe, s2)"
    by (metis surj_pair)
  then have db: "sy_db s2 = sy_db s1" using new_event_sys(1) by (metis snd_conv)
  have c: "rd_approval rd = ap" "rd_policy_event rd = pe" "s' = record_event S pe s2"
    using assms(2) by (auto simp: conclude_def s1 s2)
  have ev: "map_of (db_events (sy_db s')) (ev_id pe) = Some (redact_event pe)"
    using assms(1)
    by (simp add: c record_event_def keep_event_def save_event_def note_session_def tab.get_put
        redact_event_def Let_def)
  have same: "db_approvals (sy_db s') = db_approvals (sy_db s1)"
    "db_decisions (sy_db s') = db_decisions (sy_db s1)"
    by (simp_all add: c record_event_def frame_simps db)
  show ?thesis
    using save_decision_stored [OF assms(1) s1] ev
    by (auto simp: c(1,2) same get_approval_request_same [OF same(1)] split: option.splits)
qed

text \<open>With a database configured, a successful evaluation leaves the decision and the redacted
  policy event stored; an approval request is opened exactly when the decision requires one,
  and then it is stored as pending, linked to the decision, with redacted arguments only.\<close>

theorem decision_is_recorded:
  assumes "service_evaluate V S e s = (Inr rd, s')" "sv_store S"
  shows "map_of (db_decisions (sy_db s')) (pd_id (rd_decision rd)) = Some (rd_decision rd) \<and>
    map_of (db_events (sy_db s')) (ev_id (rd_policy_event rd)) = Some (redact_event (rd_policy_event rd)) \<and>
    (case rd_approval rd of
       None \<Rightarrow> pd_action (rd_decision rd) \<noteq> RequireApproval
     | Some a \<Rightarrow> pd_action (rd_decision rd) = RequireApproval
         \<and> get_approval_request (ap_id a) (sy_db s') = Some a \<and> ap_status a = Pending
         \<and> ap_decision a = pd_id (rd_decision rd)
         \<and> pred_option (\<lambda>d. sealed (JObj d)) (ap_arguments a))"
proof -
  from assms(1) obtain s3 where
    c: "conclude S e (rd_findings rd) (rd_decision rd) (rd_adjudication rd) s3 = (rd, s')"
    by (rule service_evaluate_steps)
  show ?thesis
    using conclude_stored [OF assms(2) c] sealed_redact_event [of e]
    by (auto simp: sealed_event_def split: option.splits simp del: sealed.simps)
qed

section \<open>Failing safe\<close>

definition always_fails :: "'a sys_scheme adjudicator option \<Rightarrow> bool" where
  "always_fails aj =
     (case aj of None \<Rightarrow> True
      | Some a \<Rightarrow> (\<forall>p refs s. \<exists>c m s'. aj_run a p refs s = (Inl (LLMProviderError c m), s')))"

lemma run_gate_fails:
  assumes "always_fails (sv_adjudicator S)" "ap_mode g = Enforce"
  shows "\<exists>a reason s'. run_gate S g e fs d s = (Inr (a, RequireApproval, reason), s')
    \<and> ad_status a = Failed \<and> ad_error_message a \<in> Some ` ({''LLM Gate failed.''} \<union> snd ` set SAFE_ADJUDICATION_ERRORS)"
proof -
  obtain c m s' where c: "consult (sv_adjudicator S)
      (build_adjudication_payload e fs (str_or (pd_policy d) ''unnamed-policy'')) (snd (new_ulid s))
      = (Inl (LLMProviderError c m), s')"
  proof (cases "sv_adjudicator S")
    case None
    then show ?thesis using that by (simp add: consult_def)
  next
    case (Some a)
    let ?p = "build_adjudication_payload e fs (str_or (pd_policy d) ''unnamed-policy'')"
    obtain c m s' where "aj_run a (pp_payload ?p) (pp_refs ?p) (snd (new_ulid s)) = (Inl (LLMProviderError c m), s')"
    proof -
      have "\<forall>p refs s. \<exists>c m s'. aj_run a p refs s = (Inl (LLMProviderError c m), s')"
        using assms(1) Some by (simp add: always_fails_def)
      then show ?thesis using that by blast
    qed
    then show ?thesis using that Some by (simp add: consult_def)
  qed
  have safe: "safe_error c \<in> {''LLM Gate failed.''} \<union> snd ` set SAFE_ADJUDICATION_ERRORS"
    by (auto simp: safe_error_def split: option.splits dest!: map_of_SomeD intro: rev_image_eqI)
  show ?thesis
    using c safe assms(2)
    by (auto simp: run_gate_def Let_def case_prod_beta failed_adjudication_def
        resolve_adjudication_action_def)
qed


section \<open>Nothing unredacted is written\<close>

definition sealed_sys :: "'a sys_scheme \<Rightarrow> bool" where
  "sealed_sys s =
     ((\<forall>(k, e) \<in> set (db_events (sy_db s)). sealed_event e)
      \<and> (\<forall>(k, r) \<in> set (db_approvals (sy_db s)).
            pred_option (\<lambda>d. sealed (JObj d)) (ap_arguments (row_request r)))
      \<and> (\<forall>e \<in> set (sy_trace s). sealed_event e))"

lemma sealed_sys_same:
  assumes "db_events (sy_db s) = db_events (sy_db s')" "db_approvals (sy_db s) = db_approvals (sy_db s')"
    and "sy_trace s = sy_trace s'"
  shows "sealed_sys s = sealed_sys s'"
  using assms by (simp add: sealed_sys_def)

lemma sealed_keep_event [inv_intros]:
  "sealed_sys s \<Longrightarrow> sealed_event e \<Longrightarrow> sealed_sys (keep_event tr st e s)"
  by (auto simp: sealed_sys_def keep_event_def write_event_jsonl_def save_event_def note_session_def
      upsert_def ddel_def Let_def)

lemma sealed_record_event [inv_intros]: "sealed_sys s \<Longrightarrow> sealed_sys (record_event S e s)"
  by (simp add: record_event_def sealed_keep_event sealed_redact_event)

lemma sealed_update_approvals:
  assumes "sealed_sys s"
    and "\<forall>(k, r) \<in> set (db_approvals d). pred_option (\<lambda>d. sealed (JObj d)) (ap_arguments (row_request r))"
    and "db_events d = db_events (sy_db s)"
  shows "sealed_sys (s\<lparr>sy_db := d\<rparr>)"
  using assms by (simp add: sealed_sys_def)

lemma update_if_pending_rows:
  "(k, r) \<in> set (update_if_pending i req t) \<Longrightarrow> (k, r) \<in> set t \<or> row_request r = req"
  by (auto simp: update_if_pending_def split: if_splits)

lemma sealed_transition [inv_intros]:
  assumes "sealed_sys s"
  shows "sealed_sys (snd (on_store (transition_approval_request i st by c) s))"
proof -
  let ?t = "transition_approval_request i st by c (sy_db s) s"
  have "\<forall>(k, r) \<in> set (db_approvals (fst (snd ?t))).
      pred_option (\<lambda>d. sealed (JObj d)) (ap_arguments (row_request r))"
  proof (cases "map_of (db_approvals (sy_db s)) i")
    case None
    then show ?thesis using assms by (simp add: transition_unknown sealed_sys_def)
  next
    case (Some row)
    then have "pred_option (\<lambda>d. sealed (JObj d)) (ap_arguments (row_request row))"
      using assms by (auto simp: sealed_sys_def simp del: sealed.simps dest!: map_of_SomeD)
    moreover have "db_approvals (fst (snd ?t)) =
        update_if_pending i (transitioned st by c (fst (utc_now s)) (row_request row)) (db_approvals (sy_db s))"
      using Some by (auto simp: transition_approval_request_def transitioned_def Let_def case_prod_beta
          split: option.splits)
    ultimately show ?thesis
      using assms update_if_pending_rows
      by (fastforce simp: sealed_sys_def transitioned_def simp del: sealed.simps)
  qed
  moreover have "db_events (fst (snd ?t)) = db_events (sy_db s)"
    by (auto simp: transition_approval_request_def Let_def case_prod_beta split: option.splits)
  moreover have "sy_trace (snd (snd ?t)) = sy_trace s"
    by (auto simp: transition_approval_request_def Let_def case_prod_beta frame_simps
        split: option.splits)
  ultimately show ?thesis
    using assms by (simp add: sealed_sys_def on_store_def case_prod_beta)
qed

lemma sealed_new_event [inv_intros]:
  "sealed_sys s \<Longrightarrow> sealed_sys (snd (new_event ty src se rq sv to ca cx ar re er ra s))"
  by (rule iffD1 [OF sealed_sys_same]) (simp_all add: frame_simps)

lemma sealed_utc_now [inv_intros]: "sealed_sys s \<Longrightarrow> sealed_sys (snd (utc_now s))"
  by (rule iffD1 [OF sealed_sys_same]) (simp_all add: frame_simps)

lemma sealed_record_resolution [inv_intros]:
  "sealed_sys s \<Longrightarrow> sealed_sys (snd (record_approval_resolution r src tr st s))"
  by (auto simp: record_approval_resolution_def Let_def case_prod_beta sealed_redact_event
      intro!: sealed_keep_event sealed_new_event)

lemma sealed_mark_expired [inv_intros]:
  assumes "sealed_sys s"
  shows "sealed_sys (snd (mark_approval_expired_with_audit i src tr s))"
proof -
  obtain r s1 where r: "on_store (mark_approval_expired i) s = (r, s1)" by (metis surj_pair)
  have "on_store (mark_approval_expired i) s = on_store (transition_approval_request i Expired ''system''
      (Some ''Approval expired before human resolution.'')) s"
    by (simp add: on_store_def mark_approval_expired_def)
  with sealed_transition [OF assms] r have "sealed_sys s1" by (metis snd_conv)
  then show ?thesis
    by (auto simp: mark_approval_expired_with_audit_def r Let_def case_prod_beta split: sum.splits
        intro: sealed_record_resolution)
qed

lemma sealed_expire_each [inv_intros]:
  "sealed_sys s \<Longrightarrow> sealed_sys (snd (expire_each cutoff src tr rs s))"
proof (induction rs arbitrary: s)
  case (Cons r rs)
  have "sealed_sys (snd (mark_approval_expired_with_audit (ap_id r) src tr s))"
    using Cons.prems by (rule sealed_mark_expired)
  with Cons show ?case
    by (auto split: prod.splits sum.splits store_error.splits) (metis snd_conv)+
qed simp

lemma sealed_expire_stale [inv_intros]:
  "sealed_sys s \<Longrightarrow> sealed_sys (snd (expire_stale_pending_approvals age src tr s))"
  by (simp add: expire_stale_pending_approvals_def Let_def case_prod_beta sealed_expire_each sealed_utc_now)

lemma sealed_resolve [inv_intros]:
  assumes "sealed_sys s"
  shows "sealed_sys (snd (resolve_approval_with_audit i st by c src tr s))"
proof -
  obtain r s1 where r: "expire_stale_pending_approvals DEFAULT_APPROVAL_TIMEOUT Hook False s = (r, s1)"
    by (metis surj_pair)
  then have s1: "sealed_sys s1" using sealed_expire_stale [OF assms] by (metis snd_conv)
  obtain q s2 where q: "on_store (resolve_approval_request i st by c) s1 = (q, s2)" by (metis surj_pair)
  have "on_store (resolve_approval_request i st by c) s1 = on_store (transition_approval_request i st by c) s1"
    by (simp add: on_store_def resolve_approval_request_def)
  with sealed_transition [OF s1] q have "sealed_sys s2" by (metis snd_conv)
  with s1 show ?thesis
    by (auto simp: resolve_approval_with_audit_def r q Let_def case_prod_beta split: sum.splits
        intro: sealed_record_resolution)
qed

text \<open>The adjudicators a service may hold: none, or one that keeps the contract.\<close>

definition lawful :: "'a sys_scheme adjudicator option \<Rightarrow> bool" where
  "lawful aj = (case aj of None \<Rightarrow> True | Some a \<Rightarrow> adjudicating (aj_run a))"

lemma sealed_monos: "sealed_sys (s\<lparr>w_monos := n\<rparr>) = sealed_sys s"
  by (simp add: sealed_sys_def)

lemma sealed_consult:
  assumes "sealed_sys s" "lawful aj"
  shows "sealed_sys (snd (consult aj prepared s))"
proof (cases aj)
  case (Some a)
  then obtain n where "snd (aj_run a (pp_payload prepared) (pp_refs prepared) s) = s\<lparr>w_monos := n\<rparr>"
    using assms(2) adjudicating.frame by (fastforce simp: lawful_def)
  then show ?thesis
    using assms(1) Some by (auto simp: consult_def sealed_monos split: prod.splits sum.splits)
qed (simp add: consult_def assms)

lemma sealed_new_ulid [inv_intros]: "sealed_sys s \<Longrightarrow> sealed_sys (snd (new_ulid s))"
  by (simp add: new_ulid_def sealed_sys_def)

lemma sealed_run_gate:
  assumes "sealed_sys s" "lawful (sv_adjudicator S)"
  shows "sealed_sys (snd (run_gate S g e fs d s))"
  using sealed_consult [OF sealed_new_ulid [OF assms(1)] assms(2),
      of "build_adjudication_payload e fs (str_or (pd_policy d) ''unnamed-policy'')"]
  by (auto simp: run_gate_def Let_def case_prod_beta split: prod.splits sum.splits exn.splits
      intro: sealed_utc_now)

lemma new_policy_decision_sys [frame_simps]:
  "sy_db (snd (new_policy_decision p a r se ev fs s)) = sy_db s"
  "sy_trace (snd (new_policy_decision p a r se ev fs s)) = sy_trace s"
  by (simp_all add: new_policy_decision_def new_ulid_def utc_now_def Let_def)

lemma evaluate_sys [frame_simps]:
  "sy_db (snd (evaluate E e fs s)) = sy_db s" "sy_trace (snd (evaluate E e fs s)) = sy_trace s"
  by (simp_all add: evaluate_def evaluate_policies_deciding frame_simps split: option.splits)

lemma detect_sys [frame_simps]:
  "sy_db (snd (detect e s)) = sy_db s" "sy_trace (snd (detect e s)) = sy_trace s"
  by (simp_all add: engine.world_after)

lemma save_findings_tables [frame_simps]:
  "db_events (save_findings fs d) = db_events d" "db_approvals (save_findings fs d) = db_approvals d"
  by (induction fs arbitrary: d) (simp_all add: save_findings_def save_finding_def note_session_def)

lemma sealed_assess:
  assumes "sealed_sys s"
  shows "sealed_sys (snd (snd (assess S e s)))"
proof -
  have "sealed_sys (record_event S e s)" using assms by (rule sealed_record_event)
  then show ?thesis
    by (simp add: assess_def Let_def case_prod_beta sealed_sys_def update_db_def frame_simps)
qed

lemma sealed_gated_decision:
  assumes "sealed_sys s" "lawful (sv_adjudicator S)"
  shows "sealed_sys (snd (gated_decision S gate e fs d s))"
proof (cases gate)
  case (Some g)
  obtain r s1 where r: "run_gate S g e fs d s = (r, s1)" by (metis surj_pair)
  then have "sealed_sys s1" using sealed_run_gate [OF assms] by (metis snd_conv)
  then show ?thesis
    using Some assms(1)
    by (auto simp: gated_decision_def r Let_def case_prod_beta decision_with_action_def sealed_sys_def
        update_db_def frame_simps save_llm_adjudication_def note_session_def simp del: sealed.simps
        split: sum.splits)
qed (simp add: gated_decision_def assms)

lemma sealed_save_decision:
  assumes "sealed_sys s"
  shows "sealed_sys (snd (save_decision S e d s))"
  using assms sealed_redact_event [of e]
  by (auto simp: save_decision_def open_approval_def Let_def case_prod_beta sealed_sys_def update_db_def
      frame_simps save_policy_decision_def save_approval_request_def note_session_def upsert_def ddel_def
      sealed_event_def simp del: sealed.simps)

lemma sealed_conclude:
  assumes "sealed_sys s"
  shows "sealed_sys (snd (conclude S e fs d ad s))"
  using assms
  by (auto simp: conclude_def Let_def case_prod_beta
      intro!: sealed_record_event sealed_new_event sealed_save_decision)

lemma sealed_service_evaluate [inv_intros]:
  assumes "sealed_sys s" "lawful (sv_adjudicator S)"
  shows "sealed_sys (snd (service_evaluate V S e s))"
proof -
  obtain fs d s1 where a: "assess S e s = (fs, d, s1)" by (metis prod_cases3)
  then have s1: "sealed_sys s1" using sealed_assess [OF assms(1)] by (metis snd_conv)
  then show ?thesis
    using sealed_gated_decision [OF s1 assms(2)]
    by (auto simp: service_evaluate_def a Let_def case_prod_beta split: sum.splits prod.splits
        intro!: sealed_conclude)
qed

text \<open>The operations of the decision service and of the approval workflow, in any order.\<close>

inductive service_steps :: "validators \<Rightarrow> 'a sys_scheme service \<Rightarrow> 'a sys_scheme \<Rightarrow> 'a sys_scheme \<Rightarrow> bool"
  for V S where
  start: "service_steps V S s s"
| recorded: "service_steps V S s s' \<Longrightarrow> service_steps V S s (record_event S e s')"
| evaluated: "service_steps V S s s' \<Longrightarrow> service_steps V S s (snd (service_evaluate V S e s'))"
| expired: "service_steps V S s s' \<Longrightarrow>
    service_steps V S s (snd (expire_stale_pending_approvals age src tr s'))"
| resolved: "service_steps V S s s' \<Longrightarrow>
    service_steps V S s (snd (resolve_approval_with_audit i st by c src tr s'))"

text \<open>C4. Whatever events are recorded and evaluated and whatever approvals are resolved or expire,
  in any order and also when an evaluation raises, every event in the database and in the trace
  and the arguments of every approval request keep only the marker under a sensitive key.\<close>

theorem service_writes_only_redacted_data:
  assumes "service_steps V S s s'" "sealed_sys s" "lawful (sv_adjudicator S)"
  shows "sealed_sys s'"
  using assms by (induction rule: service_steps.induct) (simp_all add: inv_intros)

section \<open>A concrete service\<close>

definition gate1 :: llm_adjudication_policy where
  "gate1 = \<lparr>ap_mode = Enforce, ap_min_confidence = 8 / 10, ap_true_positive = Block, ap_false_positive = Alert\<rparr>"

definition validators1 :: validators where
  "validators1 =
     \<lparr>val_result_gate = (\<lambda>_. Inl (PyError ''ValidationError'')), val_semantic = (\<lambda>_. Inl (PyError ''ValidationError'')),
      val_guard = (\<lambda>_. Inl (PyError ''ValidationError'')), val_adjudication = (\<lambda>_. Inr gate1)\<rparr>"

definition service1 :: "sys service" where
  "service1 =
     \<lparr>sv_source = McpGateway,
      sv_engine = empty_engine\<lparr>pe_policies :=
        [policy_of [(''capability'', JStr ''filesystem.read'')] [(''llm_adjudication'', JObj [])]]\<rparr>,
      sv_trace = True, sv_store = True, sv_adjudicator = Some UnavailableLLMAdjudicator\<rparr>"

definition sys0 :: sys where
  "sys0 = \<lparr>w_ms = (\<lambda>n. n), w_rand = (\<lambda>n. n), w_ids = 0, w_wall = (\<lambda>n. int n), w_walls = 0,
           w_mono = (\<lambda>n. of_nat n), w_monos = 0, sy_db = empty_store, sy_trace = []\<rparr>"

lemma read_event_clean: "detect read_event w = ([], w)"
proof -
  have "extract_memory_text JNull = []"
    unfolding extract_memory_text_def by (subst plain.walk_text_complete) (simp_all add: texts.simps visited.simps)
  then show ?thesis
    by (simp add: detect_def detectors_def read_event_def detect_sensitive_file_def extract_target_def
        extract_opt_def detect_dangerous_shell_def detect_privilege_escalation_def detect_command_def
        detect_prompt_injection_def detect_memory_poisoning_def detect_secret_leakage_def)
qed

lemma service1_fails_safe:
  "llm_adjudication_for validators1 (sv_engine service1) read_event [] = Inr (Some gate1)"
  "gate_applies (sv_source service1) read_event []" "always_fails (sv_adjudicator service1)"
  "ap_mode gate1 = Enforce"
proof -
  have "event_policy_matches [(''capability'', JStr ''filesystem.read'')] read_event []" by code_simp
  then show "llm_adjudication_for validators1 (sv_engine service1) read_event [] = Inr (Some gate1)"
    by (simp add: llm_adjudication_for_def service1_def policy_of_def validate_opt_def validators1_def dget_def)
qed (simp_all add: gate_applies_def service1_def read_event_def always_fails_def gate1_def
      UnavailableLLMAdjudicator_def unavailable_adjudicate_def)


text \<open>The evaluation of that event succeeds.\<close>

lemma service1_returns: "\<exists>rd s'. service_evaluate validators1 service1 read_event sys0 = (Inr rd, s')"
proof -
  have "\<exists>p s'. gated_decision service1 (Some gate1) read_event [] d s = (Inr p, s')" for d s
    using run_gate_fails [OF service1_fails_safe(3,4), of read_event "[]" d s] service1_fails_safe(2)
    by (auto simp: gated_decision_def case_prod_beta Let_def)
  moreover obtain d s2 where "assess service1 read_event sys0 = ([], d, s2)"
    by (cases "assess service1 read_event sys0")
       (auto simp: assess_def Let_def case_prod_beta read_event_clean)
  ultimately obtain d' ad s3 where
    "assess service1 read_event sys0 = ([], d, s2)"
    "gated_decision service1 (Some gate1) read_event [] d s2 = (Inr (d', ad), s3)"
    by (metis surj_pair)
  then show ?thesis
    using service1_fails_safe(1) by (simp add: service_evaluate_def case_prod_beta Let_def)
qed


theorem decision_is_recorded_witness:
  "\<exists>rd s'. service_evaluate validators1 service1 read_event sys0 = (Inr rd, s') \<and>
    map_of (db_decisions (sy_db s')) (pd_id (rd_decision rd)) = Some (rd_decision rd)"
proof -
  from service1_returns obtain rd s' where
    r: "service_evaluate validators1 service1 read_event sys0 = (Inr rd, s')" by blast
  have "sv_store service1" by (simp add: service1_def)
  from decision_is_recorded [OF r this] r show ?thesis by blast
qed

theorem service_writes_only_redacted_data_witness:
  "sealed_sys (snd (service_evaluate validators1 service1 read_event (record_event service1 env_event sys0)))"
proof (rule service_writes_only_redacted_data)
  show "service_steps validators1 service1 sys0
     (snd (service_evaluate validators1 service1 read_event (record_event service1 env_event sys0)))"
    by (intro service_steps.intros)
  show "sealed_sys sys0" by (simp add: sealed_sys_def sys0_def empty_store_def)
  show "lawful (sv_adjudicator service1)"
    using unavailable.adjudicating_axioms
    by (simp add: lawful_def service1_def UnavailableLLMAdjudicator_def)
qed

end
