(* ===== verification/Coordinator.thy ===== *)
theory Coordinator
  imports Service
begin

text \<open>
  \<open>src/zeroadr/runtime/security_coordinator.py\<close>: the runtime gates in front of agent inputs and
  tool requests, with the security state the coordinator keeps for each session. The state
  extends the system state by the dictionary of sessions. The clock is \<open>time.monotonic\<close>. The
  stage reviewer is a parameter: a function from the stage, the event, the findings and the
  context to its verdict, confidence and latency, or to the exception it raises. A session
  object is read and written through the dictionary; the references that \<open>_review\<close> keeps are
  used only for fields that do not change in between.
\<close>

record session_security_state =
  ss_compromised :: bool
  ss_findings :: "string list"
  ss_events :: "string list"
  ss_last_seen :: rat
  ss_preview :: "string option"

record coord = sys +
  co_sessions :: "(string \<times> session_security_state) list"

record runtime_gate_decision =
  gt_effective :: policy_action
  gt_findings :: "finding list"
  gt_record :: runtime_gate_record

type_synonym reviewer =
  "gate_stage \<Rightarrow> runtime_event \<Rightarrow> finding list \<Rightarrow> jdict \<Rightarrow> exn + string \<times> rat \<times> int"

record coordinator =
  cr_engine :: policy_engine
  cr_store :: bool
  cr_reviewer :: "reviewer option"

definition COMPROMISE_RULES :: "string set" where
  "COMPROMISE_RULES =
     {''prompt-injection-agent-input'', ''prompt-injection-tool-result'', ''memory-poisoning-tool-result''}"

definition RISKY_CAPABILITIES :: "string set" where
  "RISKY_CAPABILITIES =
     {''filesystem.write'', ''shell.exec'', ''network.connect'', ''network.http_post'', ''message.send'',
      ''email.send''}"

definition normalize_gate_action :: "policy_action \<Rightarrow> policy_action" where
  "normalize_gate_action action = (if action = Alert then Allow else action)"

section \<open>Session states\<close>

definition new_session_state :: "rat \<Rightarrow> session_security_state" where
  "new_session_state now =
     \<lparr>ss_compromised = False, ss_findings = [], ss_events = [], ss_last_seen = now, ss_preview = None\<rparr>"

definition expire_sessions :: "'a coord_scheme \<Rightarrow> 'a coord_scheme" where
  "expire_sessions s =
     (let (now, s) = monotonic s
      in s\<lparr>co_sessions := filter (\<lambda>(k, v). \<not> 3600 < now - ss_last_seen v) (co_sessions s)\<rparr>)"

text \<open>\<open>session_state\<close> returns the state and leaves it in the dictionary.\<close>

definition session_state :: "string \<Rightarrow> 'a coord_scheme \<Rightarrow> session_security_state \<times> 'a coord_scheme" where
  "session_state sess s =
     (let s = expire_sessions s;
          (st, s) = (case map_of (co_sessions s) sess of
                       Some st \<Rightarrow> (st, s)
                     | None \<Rightarrow> (let (now, s) = monotonic s in (new_session_state now, s)));
          (now, s) = monotonic s;
          st = st\<lparr>ss_last_seen := now\<rparr>
      in (st, s\<lparr>co_sessions := dset sess st (co_sessions s)\<rparr>))"

definition put_session :: "string \<Rightarrow> session_security_state \<Rightarrow> 'a coord_scheme \<Rightarrow> 'a coord_scheme" where
  "put_session sess st s = s\<lparr>co_sessions := dset sess st (co_sessions s)\<rparr>"

definition mark_compromised :: "string \<Rightarrow> string list \<Rightarrow> 'a coord_scheme \<Rightarrow> 'a coord_scheme" where
  "mark_compromised sess fids s =
     (let (st, s) = session_state sess s in
      put_session sess (st\<lparr>ss_compromised := True,
                           ss_findings := keep_last 256 (dedup (ss_findings st @ fids))\<rparr>) s)"

definition close_session :: "string \<Rightarrow> 'a coord_scheme \<Rightarrow> 'a coord_scheme" where
  "close_session sess s = s\<lparr>co_sessions := ddel sess (co_sessions s)\<rparr>"

definition compromising :: "finding list \<Rightarrow> string list" where
  "compromising findings = map fi_id (filter (\<lambda>f. fi_rule f \<in> COMPROMISE_RULES) findings)"

definition update_state :: "runtime_event \<Rightarrow> finding list \<Rightarrow> 'a coord_scheme \<Rightarrow> 'a coord_scheme" where
  "update_state event findings s =
     (let (st, s) = session_state (ev_session event) s;
          s = put_session (ev_session event) (st\<lparr>ss_events := keep_last 256 (ss_events st @ [ev_id event])\<rparr>) s
      in if compromising findings \<noteq> []
         then mark_compromised (ev_session event) (compromising findings) s else s)"

definition observe_result :: "runtime_event \<Rightarrow> 'a coord_scheme \<Rightarrow> finding list \<times> 'a coord_scheme" where
  "observe_result event s =
     (let (findings, s) = detect event s in (findings, update_state event findings s))"

definition observe_findings :: "runtime_event \<Rightarrow> finding list \<Rightarrow> 'a coord_scheme \<Rightarrow> 'a coord_scheme" where
  "observe_findings event findings s = update_state event findings s"

section \<open>The review of a stage\<close>

definition risky_event :: "runtime_event \<Rightarrow> bool" where
  "risky_event event =
     (case ev_capability event of None \<Rightarrow> True | Some c \<Rightarrow> c \<in> RISKY_CAPABILITIES)"

definition should_review :: "gate_stage \<Rightarrow> runtime_event \<Rightarrow> finding list \<Rightarrow> session_security_state \<Rightarrow> bool" where
  "should_review stage event findings st =
     (if stage = StageAgentInput then True
      else if stage \<noteq> StagePreTool then False
      else ss_compromised st \<or> risky_event event \<or> findings \<noteq> [])"

text \<open>The finding that a compromised session adds to a risky request.\<close>

definition online_finding :: "runtime_event \<Rightarrow> 'a world_scheme \<Rightarrow> finding \<times> 'a world_scheme" where
  "online_finding event w =
     new_finding ''online-compromised-session-action'' ''Compromised session attempted a risky action''
       Critical (99 / 100) (ev_session event) [ev_id event] (str_or (ev_capability event) ''tool.call'')
       (str_or (ev_tool event) ''unknown_tool'')
       ''A session with prior injection evidence attempted a risky action.'' w"

definition stage_findings ::
  "gate_stage \<Rightarrow> runtime_event \<Rightarrow> session_security_state \<Rightarrow> 'a world_scheme \<Rightarrow> finding list \<times> 'a world_scheme" where
  "stage_findings stage event st w =
     (let (findings, w) = detect event w in
      if stage = StagePreTool \<and> ss_compromised st \<and>
         (risky_event event \<or> (\<exists>f \<in> set findings. fi_rule f = ''sensitive-file-access''))
      then (let (f, w) = online_finding event w in (findings @ [f], w))
      else (findings, w))"

definition semantic_review ::
  "coordinator \<Rightarrow> gate_stage \<Rightarrow> runtime_event \<Rightarrow> finding list \<Rightarrow> 'a coord_scheme \<Rightarrow>
   (exn + string \<times> rat \<times> int) \<times> 'a coord_scheme" where
  "semantic_review C stage event findings s =
     (case cr_reviewer C of
        None \<Rightarrow> (Inl (PyError ''RuntimeError''), s)
      | Some review \<Rightarrow>
          (let (a, s) = session_state (ev_session event) s;
               (b, s) = session_state (ev_session event) s;
               (c, s) = session_state (ev_session event) s
           in (review stage event findings
                 [(''session_compromised'', JBool (ss_compromised a)),
                  (''prior_finding_ids'', JList (map JStr (ss_findings b))),
                  (''agent_input'', json_opt (ss_preview c))], s)))"

record proposal =
  pr_action :: policy_action
  pr_verdict :: "string option"
  pr_confidence :: "rat option"
  pr_error :: "string option"

definition verdict_action ::
  "semantic_gate_policy \<Rightarrow> gate_stage \<Rightarrow> finding list \<Rightarrow> string \<Rightarrow> rat \<Rightarrow> policy_action" where
  "verdict_action gate stage findings v confidence =
     (if confidence < sg_min_confidence gate \<or> v = ''uncertain'' then RequireApproval
      else if stage = StagePreTool \<and> v = ''likely_true_positive'' \<and> confidence = sg_min_confidence gate
              \<and> findings = [] then RequireApproval
      else if v = ''likely_true_positive'' then normalize_gate_action (sg_true_positive gate)
      else normalize_gate_action (sg_false_positive gate))"

definition propose ::
  "coordinator \<Rightarrow> gate_stage \<Rightarrow> runtime_event \<Rightarrow> semantic_gate_policy option \<Rightarrow> session_security_state \<Rightarrow>
   finding list \<Rightarrow> policy_action \<Rightarrow> 'a coord_scheme \<Rightarrow> proposal \<times> 'a coord_scheme" where
  "propose C stage event gate st findings base s =
     (let plain = \<lparr>pr_action = base, pr_verdict = None, pr_confidence = None, pr_error = None\<rparr> in
      case gate of
        None \<Rightarrow> (plain, s)
      | Some g \<Rightarrow>
          if \<exists>f \<in> set findings. fi_severity f = Critical
          then (plain\<lparr>pr_action := normalize_gate_action (sg_true_positive g)\<rparr>, s)
          else if sg_review g = Hybrid \<and> should_review stage event findings st
          then case semantic_review C stage event findings s of
                 (Inr (v, confidence, latency), s) \<Rightarrow>
                   (\<lparr>pr_action = verdict_action g stage findings v confidence, pr_verdict = Some v,
                     pr_confidence = Some confidence, pr_error = None\<rparr>, s)
               | (Inl (LLMProviderError code msg), s) \<Rightarrow>
                   (plain\<lparr>pr_action := RequireApproval, pr_error := Some code\<rparr>, s)
               | (Inl _, s) \<Rightarrow>
                   (plain\<lparr>pr_action := RequireApproval, pr_error := Some ''stage_reviewer_error''\<rparr>, s)
          else (plain, s))"

definition has_online_finding :: "finding list \<Rightarrow> bool" where
  "has_online_finding findings = (\<exists>f \<in> set findings. fi_rule f = ''online-compromised-session-action'')"

text \<open>The session guard replaces the proposed action for a risky request of a compromised
  session.\<close>

definition guard_action ::
  "coordinator \<Rightarrow> gate_stage \<Rightarrow> session_security_state \<Rightarrow> finding list \<Rightarrow> policy_action \<Rightarrow> policy_action" where
  "guard_action C stage st findings proposed =
     (case pe_guard (cr_engine C) of
        None \<Rightarrow> proposed
      | Some guard \<Rightarrow>
          if stage = StagePreTool \<and> ss_compromised st \<and> has_online_finding findings
          then normalize_gate_action (gd_action guard) else proposed)"

definition effective_action ::
  "coordinator \<Rightarrow> semantic_gate_policy option \<Rightarrow> policy_action \<Rightarrow> policy_action" where
  "effective_action C gate proposed =
     (let effective = (case gate of None \<Rightarrow> proposed
                       | Some g \<Rightarrow> if sg_mode g = Shadow then Allow else proposed)
      in case pe_guard (cr_engine C) of
           None \<Rightarrow> effective
         | Some guard \<Rightarrow>
             if gd_mode guard = Shadow \<and> proposed = gd_action guard then Allow else effective)"

definition gate_record ::
  "gate_stage \<Rightarrow> runtime_event \<Rightarrow> semantic_gate_policy option \<Rightarrow> finding list \<Rightarrow> policy_action \<Rightarrow>
   proposal \<Rightarrow> policy_action \<Rightarrow> policy_action \<Rightarrow> session_security_state \<Rightarrow> int \<Rightarrow> string \<Rightarrow> int \<Rightarrow> runtime_gate_record" where
  "gate_record stage event gate findings base p proposed effective st latency i now =
     \<lparr>rg_id = i, rg_session = ev_session event, rg_event = ev_id event, rg_created = now,
      rg_stage = stage,
      rg_mode = (case gate of None \<Rightarrow> Shadow | Some g \<Rightarrow> sg_mode g),
      rg_review = (case gate of None \<Rightarrow> Rules | Some g \<Rightarrow> sg_review g),
      rg_base = base, rg_proposed = proposed, rg_effective = effective,
      rg_findings = map fi_id findings, rg_rules = map fi_rule findings,
      rg_adjudication = None, rg_approval = None, rg_verdict = pr_verdict p,
      rg_confidence = pr_confidence p, rg_capability = ev_capability event,
      rg_target_sha256 = (case ev_tool event of
          None \<Rightarrow> None | Some t \<Rightarrow> if t = [] then None else Some (sha256 (utf8 t))),
      rg_executed = False, rg_delivered = False, rg_compromised = ss_compromised st,
      rg_truncated = False, rg_latency_ms = latency, rg_error = pr_error p\<rparr>"

definition save_review ::
  "bool \<Rightarrow> runtime_event \<Rightarrow> finding list \<Rightarrow> runtime_gate_record \<Rightarrow> 'a sys_scheme \<Rightarrow> 'a sys_scheme" where
  "save_review st event findings r s =
     (if st then update_db (\<lambda>d. save_runtime_gate_record r (save_findings findings (save_event event d))) s
      else s)"

text \<open>The two halves of \<open>_review\<close>: the findings and the proposed action, then the update of the
  session and the audit record.\<close>

definition examine ::
  "coordinator \<Rightarrow> runtime_event \<Rightarrow> gate_stage \<Rightarrow> semantic_gate_policy option \<Rightarrow> 'a coord_scheme \<Rightarrow>
   finding list \<times> policy_action \<times> proposal \<times> policy_action \<times> 'a coord_scheme" where
  "examine C event stage gate s =
     (let (st, s) = session_state (ev_session event) s;
          (findings, s) = stage_findings stage event st s;
          (d, s) = evaluate (cr_engine C) event findings s;
          base = normalize_gate_action (pd_action d);
          (p, s) = propose C stage event gate st findings base s
      in (findings, base, p, guard_action C stage st findings (pr_action p), s))"

definition review_stage ::
  "coordinator \<Rightarrow> runtime_event \<Rightarrow> gate_stage \<Rightarrow> semantic_gate_policy option \<Rightarrow> 'a coord_scheme \<Rightarrow>
   (exn + runtime_gate_decision) \<times> 'a coord_scheme" where
  "review_stage C event stage gate s =
     (let (started, s) = monotonic s;
          (findings, base, p, proposed, s) = examine C event stage gate s;
          effective = effective_action C gate proposed;
          s = update_state event findings s;
          (st, s) = session_state (ev_session event) s;
          (ended, s) = monotonic s;
          (i, s) = new_ulid s;
          (now, s) = utc_now s;
          r = gate_record stage event gate findings base p proposed effective st
                (max 0 (py_round ((ended - started) * 1000))) i now in
      if pred_option unit_interval (rg_confidence r)
      then (Inr \<lparr>gt_effective = effective, gt_findings = findings, gt_record = r\<rparr>,
            save_review (cr_store C) event findings r s)
      else (Inl (PyError ''ValidationError''), s))"

definition review_agent_input ::
  "coordinator \<Rightarrow> runtime_event \<Rightarrow> 'a coord_scheme \<Rightarrow> (exn + runtime_gate_decision) \<times> 'a coord_scheme" where
  "review_agent_input C event s =
     (let content = (case ev_arguments event of None \<Rightarrow> JNull | Some d \<Rightarrow> dget d ''content'');
          s = (case content of
                 JStr t \<Rightarrow> (let (st, s) = session_state (ev_session event) s
                           in put_session (ev_session event) (st\<lparr>ss_preview := Some (take 4096 t)\<rparr>) s)
               | _ \<Rightarrow> s)
      in review_stage C event StageAgentInput (pe_input_gate (cr_engine C)) s)"

definition review_tool_request ::
  "coordinator \<Rightarrow> runtime_event \<Rightarrow> 'a coord_scheme \<Rightarrow> (exn + runtime_gate_decision) \<times> 'a coord_scheme" where
  "review_tool_request C event s =
     review_stage C event StagePreTool (pe_request_gate (cr_engine C)) s"

section \<open>The sessions stay bounded\<close>

definition session_ok :: "session_security_state \<Rightarrow> bool" where
  "session_ok st =
     (distinct (ss_findings st) \<and> length (ss_findings st) \<le> 256 \<and> length (ss_events st) \<le> 256
      \<and> pred_option (\<lambda>t. length t \<le> 4096) (ss_preview st)
      \<and> (ss_findings st \<noteq> [] \<longrightarrow> ss_compromised st))"

definition sessions_ok :: "'a coord_scheme \<Rightarrow> bool" where
  "sessions_ok s =
     (distinct (map fst (co_sessions s)) \<and> (\<forall>(k, st) \<in> set (co_sessions s). session_ok st))"

lemma monotonic_coord [frame_simps]:
  "co_sessions (snd (monotonic s)) = co_sessions s" "sy_db (snd (monotonic s)) = sy_db s"
  by (simp_all add: monotonic_def)

lemma sessions_ok_same: "co_sessions s = co_sessions s' \<Longrightarrow> sessions_ok s = sessions_ok s'"
  by (simp add: sessions_ok_def)

lemma session_ok_sel [simp]:
  "session_ok (st\<lparr>ss_last_seen := t\<rparr>) = session_ok st"
  "session_ok (new_session_state t)"
  by (simp_all add: session_ok_def new_session_state_def)

lemma session_ok_events: "session_ok st \<Longrightarrow> session_ok (st\<lparr>ss_events := keep_last 256 xs\<rparr>)"
  by (simp add: session_ok_def)

lemma session_ok_preview: "session_ok st \<Longrightarrow> session_ok (st\<lparr>ss_preview := Some (take 4096 t)\<rparr>)"
  by (simp add: session_ok_def)

lemma session_ok_compromised:
  "session_ok (st\<lparr>ss_compromised := True, ss_findings := keep_last 256 (dedup xs)\<rparr>)
     = session_ok (st\<lparr>ss_compromised := True, ss_findings := []\<rparr>)"
  by (simp add: session_ok_def distinct_keep_last)

lemma in_set_dset: "x \<in> set (dset k v d) \<Longrightarrow> x = (k, v) \<or> x \<in> set d"
  by (induction k v d rule: dset.induct) (auto split: if_splits)

lemma put_session_ok [inv_intros]:
  "sessions_ok s \<Longrightarrow> session_ok st \<Longrightarrow> sessions_ok (put_session sess st s)"
  by (auto simp: sessions_ok_def put_session_def dest!: in_set_dset)

lemma expire_sessions_ok [inv_intros]: "sessions_ok s \<Longrightarrow> sessions_ok (expire_sessions s)"
  by (auto simp: sessions_ok_def expire_sessions_def Let_def case_prod_beta frame_simps
      distinct_map_filter)

lemma session_state_ok:
  assumes "sessions_ok s"
  shows "session_ok (fst (session_state sess s))" "sessions_ok (snd (session_state sess s))"
proof -
  have e: "sessions_ok (expire_sessions s)" using assms by (rule expire_sessions_ok)
  have lookup: "session_ok st" if "map_of (co_sessions (expire_sessions s)) sess = Some st" for st
    using e that by (auto simp: sessions_ok_def dest!: map_of_SomeD)
  show "session_ok (fst (session_state sess s))"
    using lookup by (auto simp: session_state_def Let_def case_prod_beta split: option.splits)
  then show "sessions_ok (snd (session_state sess s))"
    using e by (auto simp: session_state_def Let_def case_prod_beta frame_simps sessions_ok_def
        split: option.splits dest!: in_set_dset)
qed

lemma mark_compromised_ok [inv_intros]:
  assumes "sessions_ok s"
  shows "sessions_ok (mark_compromised sess fids s)"
  using session_state_ok [OF assms, of sess]
  by (auto simp: mark_compromised_def Let_def case_prod_beta session_ok_compromised
      intro!: put_session_ok) (simp add: session_ok_def)

lemma update_state_ok [inv_intros]:
  assumes "sessions_ok s"
  shows "sessions_ok (update_state e fs s)"
  using session_state_ok [OF assms, of "ev_session e"]
  by (simp add: update_state_def Let_def case_prod_beta put_session_ok session_ok_events mark_compromised_ok)

lemma close_session_ok [inv_intros]: "sessions_ok s \<Longrightarrow> sessions_ok (close_session sess s)"
  by (auto simp: sessions_ok_def close_session_def ddel_def distinct_map_filter)

lemma detect_coord [frame_simps]: "co_sessions (snd (detect e s)) = co_sessions s"
  by (simp add: engine.world_after)

lemma new_finding_coord [frame_simps]:
  "co_sessions (snd (new_ulid s)) = co_sessions s" "co_sessions (snd (utc_now s)) = co_sessions s"
  by (simp_all add: new_ulid_def utc_now_def)

lemma evaluate_coord [frame_simps]: "co_sessions (snd (evaluate E e fs s)) = co_sessions s"
  by (simp add: evaluate_def evaluate_policies_deciding new_policy_decision_def new_ulid_def utc_now_def
      Let_def split: option.splits)

lemma stage_findings_coord [frame_simps]: "co_sessions (snd (stage_findings stage e st s)) = co_sessions s"
  by (simp add: stage_findings_def online_finding_def Let_def case_prod_beta frame_simps)

lemma semantic_review_ok [inv_intros]:
  "sessions_ok s \<Longrightarrow> sessions_ok (snd (semantic_review C stage e fs s))"
  by (simp add: semantic_review_def Let_def case_prod_beta session_state_ok split: option.splits)

lemma propose_ok [inv_intros]:
  assumes "sessions_ok s"
  shows "sessions_ok (snd (propose C stage e gate st fs base s))"
  using semantic_review_ok [OF assms, of C stage e fs] assms
  by (auto simp: propose_def Let_def split: option.splits prod.splits sum.splits exn.splits)

lemma save_review_coord [frame_simps]: "co_sessions (save_review st e fs r s) = co_sessions s"
  by (simp add: save_review_def update_db_def)

lemma examine_ok:
  assumes "sessions_ok s"
  shows "sessions_ok (snd (snd (snd (snd (examine C e stage gate s)))))"
proof -
  have "sessions_ok (snd (session_state (ev_session e) s))" by (rule session_state_ok [OF assms])
  then have "sessions_ok (snd (evaluate (cr_engine C) e fs
      (snd (stage_findings stage e st (snd (session_state (ev_session e) s))))))" for fs st
    using sessions_ok_same frame_simps by metis
  then show ?thesis by (simp add: examine_def Let_def case_prod_beta propose_ok)
qed

lemma review_stage_ok [inv_intros]:
  assumes "sessions_ok s"
  shows "sessions_ok (snd (review_stage C e stage gate s))"
proof -
  obtain started s0 where s0: "monotonic s = (started, s0)" by (metis surj_pair)
  then have ok0: "sessions_ok s0" using assms sessions_ok_same frame_simps(1) by (metis monotonic_coord(1) snd_conv)
  obtain fs base p proposed s1 where s1: "examine C e stage gate s0 = (fs, base, p, proposed, s1)"
    by (metis prod_cases5)
  then have "sessions_ok s1" using examine_ok [OF ok0, of C e stage gate] by simp
  then have "sessions_ok (snd (session_state (ev_session e) (update_state e fs s1)))"
    using session_state_ok update_state_ok by blast
  then show ?thesis
    by (simp add: review_stage_def s0 s1 Let_def case_prod_beta sessions_ok_def frame_simps)
qed

lemma observe_result_ok [inv_intros]: "sessions_ok s \<Longrightarrow> sessions_ok (snd (observe_result e s))"
  using sessions_ok_same [OF detect_coord, of e s]
  by (simp add: observe_result_def Let_def case_prod_beta update_state_ok)

lemma review_agent_input_ok [inv_intros]: "sessions_ok s \<Longrightarrow> sessions_ok (snd (review_agent_input C e s))"
  by (simp add: review_agent_input_def Let_def case_prod_beta review_stage_ok put_session_ok
      session_state_ok session_ok_preview split: json.splits)

text \<open>What a gateway does with its coordinator, in any order.\<close>

inductive coord_steps :: "coordinator \<Rightarrow> 'a coord_scheme \<Rightarrow> 'a coord_scheme \<Rightarrow> bool" for C where
  start: "coord_steps C s s"
| input: "coord_steps C s s' \<Longrightarrow> coord_steps C s (snd (review_agent_input C e s'))"
| request: "coord_steps C s s' \<Longrightarrow> coord_steps C s (snd (review_tool_request C e s'))"
| result: "coord_steps C s s' \<Longrightarrow> coord_steps C s (snd (observe_result e s'))"
| findings: "coord_steps C s s' \<Longrightarrow> coord_steps C s (observe_findings e fs s')"
| marked: "coord_steps C s s' \<Longrightarrow> coord_steps C s (mark_compromised sess fids s')"
| closed: "coord_steps C s s' \<Longrightarrow> coord_steps C s (close_session sess s')"

text \<open>Over any sequence of reviews, observations, marks and closed sessions, with any reviewer
  and any clock, every session keeps at most 256 distinct finding ids, at most 256 event ids and
  at most 4096 characters of the input, and holds finding ids only if it is compromised.\<close>

theorem session_memory_bounded:
  assumes "coord_steps C s s'" "sessions_ok s"
  shows "sessions_ok s'"
  using assms
  by (induction rule: coord_steps.induct)
     (simp_all add: inv_intros review_tool_request_def observe_findings_def)

section \<open>What a gate decides\<close>

lemma examine_parts:
  fixes s :: "'a coord_scheme"
  assumes "examine C e stage gate s = (fs, base, p, proposed, s1)"
  defines "st \<equiv> fst (session_state (ev_session e) s)"
  obtains s2 :: "'a coord_scheme" and s3 where
    "fs = fst (stage_findings stage e st s2)"
    "base = normalize_gate_action (base_action (cr_engine C) e fs)"
    "propose C stage e gate st fs base s3 = (p, s1)"
    "proposed = guard_action C stage st fs (pr_action p)"
proof -
  obtain st0 s0 where 0: "session_state (ev_session e) s = (st0, s0)" by (metis surj_pair)
  obtain fs' s2 where 1: "stage_findings stage e st0 s0 = (fs', s2)" by (metis surj_pair)
  obtain d s3 where 2: "evaluate (cr_engine C) e fs' s2 = (d, s3)" by (metis surj_pair)
  note evaluate_action [OF 2]
  with assms(1) 0 1 2 show ?thesis
    by (intro that [of s0 s3]) (auto simp: examine_def Let_def st_def split: prod.splits)
qed

lemma review_stage_parts:
  assumes "review_stage C e stage gate s = (res, s')"
  obtains fs base p proposed s1 r s2 where
    "examine C e stage gate (snd (monotonic s)) = (fs, base, p, proposed, s1)"
    "rg_effective r = effective_action C gate proposed" "rg_proposed r = proposed"
    "rg_base r = base" "rg_findings r = map fi_id fs" "rg_verdict r = pr_verdict p"
    "rg_error r = pr_error p"
    "if pred_option unit_interval (pr_confidence p)
     then res = Inr \<lparr>gt_effective = effective_action C gate proposed, gt_findings = fs, gt_record = r\<rparr>
        \<and> s' = save_review (cr_store C) e fs r s2
     else res = Inl (PyError ''ValidationError'')"
proof -
  obtain fs base p proposed s1 where
    e: "examine C e stage gate (snd (monotonic s)) = (fs, base, p, proposed, s1)"
    by (metis prod_cases5)
  show ?thesis
    by (rule that [OF e], insert assms e)
       (auto simp: review_stage_def Let_def case_prod_beta gate_record_def split: if_splits)
qed

text \<open>The severities found in an event do not depend on the clock and the random source, and a
  stage only adds to them.\<close>

lemma severities_independent:
  fixes w w' :: "'a world_scheme"
  shows "map fi_severity (fst (detect e w)) = map fi_severity (fst (detect e w'))"
proof -
  have "map fi_severity xs = map fi_severity (map blank xs)" for xs by (simp add: blank_def)
  then show ?thesis using engine.content_independent by metis
qed

lemma stage_findings_critical:
  fixes w w' :: "'a world_scheme"
  assumes "\<exists>f\<in>set (fst (detect e w)). fi_severity f = Critical"
  shows "\<exists>f\<in>set (fst (stage_findings stage e st w')). fi_severity f = Critical"
proof -
  have "Critical \<in> set (map fi_severity (fst (detect e w')))"
    using assms severities_independent [of e w w'] by (metis image_eqI list.set_map)
  then have "\<exists>f\<in>set (fst (detect e w')). fi_severity f = Critical" by (auto intro: sym)
  then show ?thesis by (auto simp: stage_findings_def Let_def case_prod_beta)
qed

text \<open>What the proposal is, whatever the reviewer answers.\<close>

lemma propose_critical:
  assumes "\<exists>f\<in>set fs. fi_severity f = Critical"
  shows "pr_action (fst (propose C stage e (Some g) st fs base s)) = normalize_gate_action (sg_true_positive g)
    \<and> pr_verdict (fst (propose C stage e (Some g) st fs base s)) = None
    \<and> pr_confidence (fst (propose C stage e (Some g) st fs base s)) = None"
  using assms by (simp add: propose_def)

text \<open>A critical finding fixes the decision of an enforcing gate: the effective action is the
  configured one for true positives, no language model is consulted, and the audit record says
  so; the result does not depend on the reviewer or on the session.\<close>

theorem critical_finding_fixes_gate_action:
  assumes "review_stage C e stage (Some g) s = (res, s')" "sg_mode g = Enforce"
    and "pe_guard (cr_engine C) = None"
    and "\<exists>f \<in> set (fst (detect e (s :: 'a coord_scheme))). fi_severity f = Critical"
  shows "\<exists>d. res = Inr d \<and> gt_effective d = normalize_gate_action (sg_true_positive g)
    \<and> rg_effective (gt_record d) = gt_effective d \<and> rg_verdict (gt_record d) = None"
proof -
  from assms(1) obtain fs base p proposed s1 r s2 where
    ex: "examine C e stage (Some g) (snd (monotonic s)) = (fs, base, p, proposed, s1)"
    and r: "rg_effective r = effective_action C (Some g) proposed" "rg_verdict r = pr_verdict p"
    and res: "if pred_option unit_interval (pr_confidence p)
     then res = Inr \<lparr>gt_effective = effective_action C (Some g) proposed, gt_findings = fs, gt_record = r\<rparr>
        \<and> s' = save_review (cr_store C) e fs r s2
     else res = Inl (PyError ''ValidationError'')"
    by (rule review_stage_parts)
  from ex obtain s3 s4 :: "'a coord_scheme" where
    fs: "fs = fst (stage_findings stage e (fst (session_state (ev_session e) (snd (monotonic s)))) s3)"
    and p: "propose C stage e (Some g) (fst (session_state (ev_session e) (snd (monotonic s)))) fs base s4 = (p, s1)"
    and proposed: "proposed = guard_action C stage (fst (session_state (ev_session e) (snd (monotonic s)))) fs (pr_action p)"
    by (rule examine_parts)
  have "\<exists>f\<in>set fs. fi_severity f = Critical"
    unfolding fs by (rule stage_findings_critical [OF assms(4)])
  from propose_critical [OF this, of C stage e g _ base s4] p
  have "pr_action p = normalize_gate_action (sg_true_positive g)" "pr_verdict p = None" "pr_confidence p = None"
    by (metis fst_conv)+
  then show ?thesis
    using res r proposed assms(2,3) by (simp add: guard_action_def effective_action_def)
qed

text \<open>A reviewer that is missing or raises on every call.\<close>

definition reviewer_fails :: "coordinator \<Rightarrow> bool" where
  "reviewer_fails C =
     (case cr_reviewer C of None \<Rightarrow> True
      | Some review \<Rightarrow> (\<forall>stage e fs ctx. \<exists>x. review stage e fs ctx = Inl x))"

lemma semantic_review_fails:
  assumes "reviewer_fails C"
  shows "\<exists>x s'. semantic_review C stage e fs s = (Inl x, s')"
proof (cases "cr_reviewer C")
  case (Some review)
  then have "\<forall>stage e fs ctx. \<exists>x. review stage e fs ctx = Inl x"
    using assms by (simp add: reviewer_fails_def)
  then show ?thesis using Some by (simp add: semantic_review_def Let_def case_prod_beta)
qed (simp add: semantic_review_def)

lemma propose_fails:
  assumes "reviewer_fails C" "sg_review g = Hybrid" "should_review stage e fs st"
    and "\<forall>f\<in>set fs. fi_severity f \<noteq> Critical"
  shows "pr_action (fst (propose C stage e (Some g) st fs base s)) = RequireApproval
    \<and> pr_error (fst (propose C stage e (Some g) st fs base s)) \<noteq> None
    \<and> pr_confidence (fst (propose C stage e (Some g) st fs base s)) = None"
  using semantic_review_fails [OF assms(1), of stage e fs s] assms(2-4)
  by (auto simp: propose_def Let_def split: exn.splits)


text \<open>A gate in shadow mode never holds anything back: its effective action is to allow,
  whatever was found, proposed or answered.\<close>

theorem shadow_gate_allows:
  assumes "review_stage C e stage (Some g) s = (Inr d, s')" "sg_mode g = Shadow"
  shows "gt_effective d = Allow \<and> rg_effective (gt_record d) = Allow"
proof -
  from assms(1) obtain fs proposed r s2 and p :: proposal where
    r: "rg_effective r = effective_action C (Some g) proposed"
    and res: "if pred_option unit_interval (pr_confidence p)
     then Inr d = (Inr \<lparr>gt_effective = effective_action C (Some g) proposed, gt_findings = fs, gt_record = r\<rparr>
                     :: exn + runtime_gate_decision)
        \<and> s' = save_review (cr_store C) e fs r s2
     else Inr d = (Inl (PyError ''ValidationError'') :: exn + runtime_gate_decision)"
    by (rule review_stage_parts)
  then show ?thesis
    using assms(2) by (auto simp: effective_action_def split: if_splits option.splits)
qed

section \<open>The guard of a compromised session\<close>

lemma w_mono_coord [frame_simps]:
  "w_mono (snd (detect e s)) = w_mono s" "w_mono (expire_sessions s) = w_mono s"
  "w_mono (snd (session_state sess s)) = w_mono s" "w_mono (put_session sess st s) = w_mono s"
  by (simp_all add: engine.world_after expire_sessions_def session_state_def put_session_def Let_def
      case_prod_beta frame_simps split: option.splits)

lemma session_state_stored:
  "map_of (co_sessions (snd (session_state sess s))) sess = Some (fst (session_state sess s))"
  by (simp add: session_state_def Let_def case_prod_beta)

lemma session_state_seen: "\<exists>k. ss_last_seen (fst (session_state sess s)) = w_mono s k"
  by (auto simp: session_state_def Let_def case_prod_beta frame_simps split: option.splits)

lemma map_of_filter_distinct:
  "distinct (map fst d) \<Longrightarrow> map_of d k = Some v \<Longrightarrow> P (k, v) \<Longrightarrow> map_of (filter P d) k = Some v"
  by (metis (no_types, lifting) distinct_map_filter map_of_eq_Some_iff mem_Collect_eq set_filter)

text \<open>A session that was seen within the last hour is found again.\<close>

lemma session_state_kept:
  assumes "sessions_ok s" "map_of (co_sessions s) sess = Some st"
    and "w_mono s (w_monos s) - ss_last_seen st \<le> 3600"
  shows "ss_compromised (fst (session_state sess s)) = ss_compromised st"
proof -
  have "map_of (co_sessions (expire_sessions s)) sess = Some st"
    using assms map_of_filter_distinct [of "co_sessions s" sess st]
    by (simp add: expire_sessions_def Let_def case_prod_beta frame_simps sessions_ok_def)
  then show ?thesis by (simp add: session_state_def Let_def case_prod_beta)
qed

lemma update_state_compromises:
  assumes "compromising fs \<noteq> []"
  shows "\<exists>st k. map_of (co_sessions (update_state e fs s)) (ev_session e) = Some st \<and> ss_compromised st
    \<and> ss_last_seen st = w_mono s k"
proof -
  define s1 where "s1 = put_session (ev_session e) ((fst (session_state (ev_session e) s))
      \<lparr>ss_events := keep_last 256 (ss_events (fst (session_state (ev_session e) s)) @ [ev_id e])\<rparr>)
      (snd (session_state (ev_session e) s))"
  obtain k where k: "ss_last_seen (fst (session_state (ev_session e) s1)) = w_mono s1 k"
    using session_state_seen by blast
  have "update_state e fs s = mark_compromised (ev_session e) (compromising fs) s1"
    using assms by (simp add: update_state_def s1_def Let_def case_prod_beta)
  then show ?thesis
    using k by (auto simp: mark_compromised_def put_session_def Let_def case_prod_beta s1_def frame_simps)
qed

lemma propose_guarded:
  assumes "has_online_finding fs" "\<forall>f\<in>set fs. fi_rule f = ''online-compromised-session-action'' \<longrightarrow> fi_severity f = Critical"
  shows "pr_confidence (fst (propose C stage e gate st fs base s)) = None"
  using assms by (auto simp: propose_def has_online_finding_def Let_def split: option.splits)

lemma online_rule_new: "f \<in> set (fst (detect e w)) \<Longrightarrow> fi_rule f \<noteq> ''online-compromised-session-action''"
  using engine.provenance [of f e w] by (auto simp: engine_rules_def)

lemma stage_findings_online:
  assumes "ss_compromised st" "risky_event e"
  shows "has_online_finding (fst (stage_findings StagePreTool e st w))"
    and "\<forall>f\<in>set (fst (stage_findings StagePreTool e st w)).
       fi_rule f = ''online-compromised-session-action'' \<longrightarrow> fi_severity f = Critical"
  using assms online_rule_new [of _ e w]
  by (auto simp: stage_findings_def online_finding_def has_online_finding_def Let_def case_prod_beta)

lemma review_compromised:
  assumes "review_tool_request C e s = (res, s')"
    and "ss_compromised (fst (session_state (ev_session e) (snd (monotonic s))))" "risky_event e"
    and "pe_guard (cr_engine C) = Some guard" "gd_mode guard = Enforce"
    and "pred_option (\<lambda>g. sg_mode g = Enforce) (pe_request_gate (cr_engine C))"
  shows "\<exists>d. res = Inr d \<and> gt_effective d = normalize_gate_action (gd_action guard)
     \<and> has_online_finding (gt_findings d)"
proof -
  let ?gate = "pe_request_gate (cr_engine C)"
  from assms(1) [unfolded review_tool_request_def] obtain fs base p proposed s1 r s2 where
    ex: "examine C e StagePreTool ?gate (snd (monotonic s)) = (fs, base, p, proposed, s1)"
    and res: "if pred_option unit_interval (pr_confidence p)
     then res = Inr \<lparr>gt_effective = effective_action C ?gate proposed, gt_findings = fs, gt_record = r\<rparr>
        \<and> s' = save_review (cr_store C) e fs r s2
     else res = Inl (PyError ''ValidationError'')"
    by (rule review_stage_parts)
  let ?st = "fst (session_state (ev_session e) (snd (monotonic s)))"
  from ex obtain s3 s4 :: "'a coord_scheme" where
    fs: "fs = fst (stage_findings StagePreTool e ?st s3)"
    and p: "propose C StagePreTool e ?gate ?st fs base s4 = (p, s1)"
    and proposed: "proposed = guard_action C StagePreTool ?st fs (pr_action p)"
    by (rule examine_parts)
  note online = stage_findings_online [OF assms(2,3), of s3, folded fs]
  have "pr_confidence p = None"
    using propose_guarded [OF online, of C StagePreTool e ?gate ?st base s4] p by simp
  then show ?thesis
    using res online(1) assms(2,4,5,6)
    by (auto simp: proposed guard_action_def effective_action_def split: option.splits)
qed

lemma w_mono_update [frame_simps]:
  "w_mono (mark_compromised sess fids s) = w_mono s" "w_mono (update_state e fs s) = w_mono s"
  by (simp_all add: mark_compromised_def update_state_def Let_def case_prod_beta frame_simps)


text \<open>Memory poisoning found in a tool result or a request never marks its session: the third
  of the compromising rules is none of the rules that the detection engine reports, so only
  prompt injections compromise a session.\<close>

theorem memory_poisoning_never_compromises:
  "compromising (fst (detect e w)) =
     map fi_id (filter (\<lambda>f. fi_rule f \<in> {''prompt-injection-agent-input'', ''prompt-injection-tool-result''})
       (fst (detect e w))) \<and>
   ''memory-poisoning-detection'' \<notin> COMPROMISE_RULES"
proof -
  have "fi_rule f \<noteq> ''memory-poisoning-tool-result''" if "f \<in> set (fst (detect e w))" for f
    using engine.provenance [of f e w] that by (auto simp: engine_rules_def)
  then show ?thesis
    by (auto simp: compromising_def COMPROMISE_RULES_def intro!: arg_cong [of _ _ "map fi_id"] filter_cong)
qed

text \<open>With a session guard in shadow mode whose action is to block, an enforcing gate that
  blocks true positives lets a request with a critical finding through: the audit record
  proposes to block, the effective action is to allow, in every session, compromised or
  not.\<close>

theorem shadow_guard_disarms_enforcing_gate:
  assumes "review_stage C e stage (Some g) s = (res, s')" "sg_mode g = Enforce"
    and "sg_true_positive g = Block" "pe_guard (cr_engine C) = Some guard"
    and "gd_mode guard = Shadow" "gd_action guard = Block"
    and "\<exists>f \<in> set (fst (detect e (s :: 'a coord_scheme))). fi_severity f = Critical"
  shows "\<exists>d. res = Inr d \<and> rg_proposed (gt_record d) = Block \<and> gt_effective d = Allow"
proof -
  from assms(1) obtain fs base p proposed s1 r s2 where
    ex: "examine C e stage (Some g) (snd (monotonic s)) = (fs, base, p, proposed, s1)"
    and r: "rg_proposed r = proposed"
    and res: "if pred_option unit_interval (pr_confidence p)
     then res = Inr \<lparr>gt_effective = effective_action C (Some g) proposed, gt_findings = fs, gt_record = r\<rparr>
        \<and> s' = save_review (cr_store C) e fs r s2
     else res = Inl (PyError ''ValidationError'')"
    by (rule review_stage_parts)
  let ?st = "fst (session_state (ev_session e) (snd (monotonic s)))"
  from ex obtain s3 s4 :: "'a coord_scheme" where
    fs: "fs = fst (stage_findings stage e ?st s3)"
    and p: "propose C stage e (Some g) ?st fs base s4 = (p, s1)"
    and proposed: "proposed = guard_action C stage ?st fs (pr_action p)"
    by (rule examine_parts)
  have "\<exists>f\<in>set fs. fi_severity f = Critical"
    unfolding fs by (rule stage_findings_critical [OF assms(7)])
  from propose_critical [OF this, of C stage e g ?st base s4] p
  have "pr_action p = Block" "pr_confidence p = None" using assms(3) by (simp_all add: normalize_gate_action_def)
  then show ?thesis
    using res r proposed assms
    by (simp add: guard_action_def effective_action_def normalize_gate_action_def)
qed

text \<open>With a database configured, a reviewed event is stored as it came, unredacted, under its
  own id, and replaces a redacted copy stored before.\<close>

theorem review_stores_event_unredacted:
  assumes "review_stage C e stage gate s = (Inr d, s')" "cr_store C"
  shows "map_of (db_events (sy_db s')) (ev_id e) = Some e"
proof -
  from assms(1) obtain fs r s2 where "s' = save_review True e fs r s2"
  proof (rule review_stage_parts)
    fix fs r s2 and p :: proposal and proposed
    assume "if pred_option unit_interval (pr_confidence p)
     then Inr d = (Inr \<lparr>gt_effective = effective_action C gate proposed, gt_findings = fs, gt_record = r\<rparr>
                     :: exn + runtime_gate_decision)
        \<and> s' = save_review (cr_store C) e fs r s2
     else Inr d = (Inl (PyError ''ValidationError'') :: exn + runtime_gate_decision)"
    then show thesis using that assms(2) by (auto split: if_splits)
  qed
  then show ?thesis
    by (simp add: save_review_def update_db_def save_runtime_gate_record_def note_session_def
        save_findings_tables save_event_def tab.get_put)
qed

section \<open>A concrete coordinator\<close>

definition gate_of :: "gate_mode \<Rightarrow> semantic_gate_policy" where
  "gate_of m = \<lparr>sg_mode = m, sg_review = Hybrid, sg_min_confidence = 8 / 10, sg_true_positive = Block,
                sg_false_positive = Allow\<rparr>"

definition coordinator1 :: "semantic_gate_policy option \<Rightarrow> session_guard_policy option \<Rightarrow> coordinator" where
  "coordinator1 gate guard =
     \<lparr>cr_engine = empty_engine\<lparr>pe_input_gate := gate, pe_request_gate := gate, pe_guard := guard\<rparr>,
      cr_store = True, cr_reviewer = None\<rparr>"

definition coord0 :: coord where
  "coord0 = \<lparr>w_ms = (\<lambda>n. n), w_rand = (\<lambda>n. n), w_ids = 0, w_wall = (\<lambda>n. int n), w_walls = 0,
             w_mono = (\<lambda>n. 0), w_monos = 0, sy_db = empty_store, sy_trace = [], co_sessions = []\<rparr>"

lemma coord0_ok: "sessions_ok coord0"
  by (simp add: sessions_ok_def coord0_def)

lemma coordinator1_reviewer: "cr_reviewer (coordinator1 gate guard) = None"
  by (simp add: coordinator1_def)

lemma review_without_reviewer:
  assumes "cr_reviewer C = None"
  obtains d s' where "review_stage C e stage gate s = (Inr d, s')"
proof -
  obtain res s' where r: "review_stage C e stage gate s = (res, s')" by (metis surj_pair)
  from r obtain fs base p proposed s1 r s2 where
    ex: "examine C e stage gate (snd (monotonic s)) = (fs, base, p, proposed, s1)"
    and res: "if pred_option unit_interval (pr_confidence p)
     then res = Inr \<lparr>gt_effective = effective_action C gate proposed, gt_findings = fs, gt_record = r\<rparr>
        \<and> s' = save_review (cr_store C) e fs r s2
     else res = Inl (PyError ''ValidationError'')"
    by (rule review_stage_parts)
  from ex obtain st s4 where "propose C stage e gate st fs base s4 = (p, s1)"
    by (rule examine_parts)
  then have "pr_confidence p = None"
    using assms by (auto simp: propose_def semantic_review_def Let_def split: option.splits if_splits)
  with res r that show ?thesis by simp
qed

lemma key_read_critical: "\<exists>f \<in> set (fst (detect read_key_event w)). fi_severity f = Critical"
proof -
  have "classify_sensitive_path ''~/.ssh/id_rsa'' = Some Critical" by code_simp
  then have "\<exists>f \<in> set (fst (detect_sensitive_file read_key_event w)). fi_severity f = Critical"
    by (simp add: detect_sensitive_file_def read_key_event_def extract_target_def extract_opt_def
        TARGET_KEYS_def Let_def case_prod_beta)
  then show ?thesis by (auto simp: detect_def detectors_def Let_def case_prod_beta)
qed

theorem session_memory_bounded_witness:
  "sessions_ok (snd (review_tool_request (coordinator1 None None) read_event
     (mark_compromised ''s'' [''f'', ''f''] coord0)))"
  by (rule session_memory_bounded [OF _ coord0_ok, of "coordinator1 None None"]) (intro coord_steps.intros)

theorem critical_finding_fixes_gate_action_witness:
  "\<exists>d s'. review_stage (coordinator1 (Some (gate_of Enforce)) None) read_key_event StagePreTool
      (Some (gate_of Enforce)) coord0 = (Inr d, s') \<and> gt_effective d = Block"
proof -
  let ?C = "coordinator1 (Some (gate_of Enforce)) None"
  obtain d s' where r: "review_stage ?C read_key_event StagePreTool (Some (gate_of Enforce)) coord0 = (Inr d, s')"
    by (rule review_without_reviewer [OF coordinator1_reviewer])
  from critical_finding_fixes_gate_action [OF r _ _ key_read_critical] r show ?thesis
    by (simp add: gate_of_def coordinator1_def empty_engine_def normalize_gate_action_def)
qed


theorem shadow_gate_allows_witness:
  "\<exists>d s'. review_stage (coordinator1 (Some (gate_of Shadow)) None) read_key_event StagePreTool
      (Some (gate_of Shadow)) coord0 = (Inr d, s') \<and> gt_effective d = Allow"
proof -
  let ?C = "coordinator1 (Some (gate_of Shadow)) None"
  obtain d s' where r: "review_stage ?C read_key_event StagePreTool (Some (gate_of Shadow)) coord0 = (Inr d, s')"
    by (rule review_without_reviewer [OF coordinator1_reviewer])
  from shadow_gate_allows [OF r] r show ?thesis by (simp add: gate_of_def)
qed

definition injection_finding :: finding where
  "injection_finding = read_finding\<lparr>fi_rule := ''prompt-injection-tool-result''\<rparr>"


theorem shadow_guard_disarms_enforcing_gate_witness:
  "\<exists>d s'. review_stage (coordinator1 (Some (gate_of Enforce)) (Some \<lparr>gd_mode = Shadow, gd_action = Block\<rparr>))
      read_key_event StagePreTool (Some (gate_of Enforce)) coord0 = (Inr d, s') \<and> gt_effective d = Allow"
proof -
  let ?C = "coordinator1 (Some (gate_of Enforce)) (Some \<lparr>gd_mode = Shadow, gd_action = Block\<rparr>)"
  obtain d s' where r: "review_stage ?C read_key_event StagePreTool (Some (gate_of Enforce)) coord0 = (Inr d, s')"
    by (rule review_without_reviewer [OF coordinator1_reviewer])
  from shadow_guard_disarms_enforcing_gate [OF r, of "\<lparr>gd_mode = Shadow, gd_action = Block\<rparr>"] key_read_critical [of coord0] r show ?thesis
    by (simp add: gate_of_def coordinator1_def empty_engine_def)
qed

theorem review_stores_event_unredacted_witness:
  "\<exists>d s'. review_stage (coordinator1 None None) env_event StageToolResult None coord0 = (Inr d, s')
     \<and> map_of (db_events (sy_db s')) ''e'' = Some env_event \<and> \<not> sealed_event env_event"
proof -
  obtain d s' where r: "review_stage (coordinator1 None None) env_event StageToolResult None coord0 = (Inr d, s')"
    by (rule review_without_reviewer [OF coordinator1_reviewer])
  have k: "is_sensitive_key ''API_KEY''" "\<not> is_sensitive_key ''env''" by code_simp+
  have "\<not> sealed_event env_event" by (simp add: sealed_event_def env_event_def k REDACTED_def)
  moreover have "ev_id env_event = ''e''" by (simp add: env_event_def)
  ultimately show ?thesis
    using review_stores_event_unredacted [OF r] r by (simp add: coordinator1_def)
qed

end
