(* ===== verification/HookAdapter.thy ===== *)
theory HookAdapter
  imports Coordinator
begin

text \<open>
  \<open>src/zeroadr/hook/models.py\<close>, \<open>adapters.py\<close> and \<open>adapter.py\<close>: the events of agent hooks, the
  adapters of the supported clients, and the runtime that answers a hook. A generic payload is
  validated by the schema library, which is a parameter; for the other clients the adapters
  build the event themselves and only the request id is left to be checked.
\<close>

section \<open>Hook events\<close>

datatype hook_event_type = AgentInput | PreToolUse | PostToolUse

fun hook_event_type_str :: "hook_event_type \<Rightarrow> string" where
  "hook_event_type_str AgentInput = ''agent_input''"
| "hook_event_type_str PreToolUse = ''pre_tool_use''"
| "hook_event_type_str PostToolUse = ''post_tool_use''"

record hook_event =
  he_type :: hook_event_type
  he_session :: string
  he_request :: "request_id option"
  he_tool :: "string option"
  he_arguments :: "jdict option"
  he_result :: json
  he_error :: "jdict option"
  he_raw :: jdict

record hook_response =
  hr_action :: policy_action
  hr_policy :: "string option"
  hr_reason :: string
  hr_findings :: "string list"
  hr_event :: "string option"
  hr_decision :: "string option"
  hr_approval :: "string option"
  hr_adjudication :: "string option"

text \<open>The value of a field of type \<open>str | int | None\<close>: a truth value counts as a number, a
  float only if it is integral.\<close>

definition request_id_field :: "json \<Rightarrow> exn + request_id option" where
  "request_id_field v =
     (case v of
        JNull \<Rightarrow> Inr None
      | JStr s \<Rightarrow> Inr (Some (RStr s))
      | JInt i \<Rightarrow> Inr (Some (RInt i))
      | JBool b \<Rightarrow> Inr (Some (RInt (if b then 1 else 0)))
      | JFloat m e \<Rightarrow>
          if of_int \<lfloor>float_val m e\<rfloor> = float_val m e then Inr (Some (RInt \<lfloor>float_val m e\<rfloor>))
          else Inl (PyError ''ValidationError'')
      | _ \<Rightarrow> Inl (PyError ''ValidationError''))"

text \<open>\<open>a or b\<close>.\<close>

definition json_or :: "json \<Rightarrow> json \<Rightarrow> json" where
  "json_or a b = (if truthy a then a else b)"

definition dict_or_empty :: "json \<Rightarrow> jdict" where
  "dict_or_empty v = (case v of JObj d \<Rightarrow> d | _ \<Rightarrow> [])"

definition dict_opt :: "json \<Rightarrow> jdict option" where
  "dict_opt v = (case v of JObj d \<Rightarrow> Some d | _ \<Rightarrow> None)"

section \<open>The clients\<close>

datatype hook_client = Generic | ClaudeCode | Codex

definition normalize_tool_input :: "jdict \<Rightarrow> jdict" where
  "normalize_tool_input tool_input =
     (let file_path = dget tool_input ''file_path''; arguments = ddel ''file_path'' tool_input
      in if file_path \<noteq> JNull \<and> map_of arguments ''path'' = None
         then dset ''path'' file_path arguments else arguments)"

definition is_error_response :: "json \<Rightarrow> bool" where
  "is_error_response value =
     (case value of JObj d \<Rightarrow> (case dget d ''error'' of JObj _ \<Rightarrow> True | _ \<Rightarrow> False) | _ \<Rightarrow> False)"

definition str_field :: "jdict \<Rightarrow> string \<Rightarrow> string option" where
  "str_field d k = (if dget d k \<noteq> JNull then Some (py_str (dget d k)) else None)"

definition with_request_id :: "json \<Rightarrow> (request_id option \<Rightarrow> hook_event) \<Rightarrow> exn + hook_event" where
  "with_request_id v f = (case request_id_field v of Inl e \<Rightarrow> Inl e | Inr r \<Rightarrow> Inr (f r))"

definition claude_code_hook_event :: "jdict \<Rightarrow> exn + hook_event" where
  "claude_code_hook_event payload =
     (let name = py_str (dget_or payload ''hook_event_name'' (JStr []));
          sess = py_str (dget_or payload ''session_id'' (JStr ''unknown-session'')) in
      if name = ''UserPromptSubmit''
      then with_request_id (dget payload ''request_id'') (\<lambda>r.
             \<lparr>he_type = AgentInput, he_session = sess, he_request = r, he_tool = None,
              he_arguments = Some [(''content'', JStr (py_str (dget_or payload ''prompt'' (JStr []))))],
              he_result = JNull, he_error = None, he_raw = payload\<rparr>)
      else
        (let arguments = normalize_tool_input (dict_or_empty (dget payload ''tool_input''));
             tool_response = dget payload ''tool_response'';
             error = (if is_error_response tool_response then dict_opt tool_response else None)
         in with_request_id (json_or (dget payload ''tool_call_id'') (dget payload ''request_id'')) (\<lambda>r.
              \<lparr>he_type = (if name = ''PostToolUse'' then PostToolUse else PreToolUse),
               he_session = sess, he_request = r, he_tool = str_field payload ''tool_name'',
               he_arguments = Some arguments,
               he_result = (if error \<noteq> None then JNull else tool_response),
               he_error = error, he_raw = payload\<rparr>)))"

definition codex_hook_event :: "jdict \<Rightarrow> exn + hook_event" where
  "codex_hook_event payload =
     (let name = py_str (dget_or payload ''event'' (JStr []));
          tool_payload = dict_or_empty (dget payload ''tool'')
      in with_request_id (json_or (dget payload ''call_id'') (dget payload ''request_id'')) (\<lambda>r.
           \<lparr>he_type = (if name = ''post_tool_use'' then PostToolUse else PreToolUse),
            he_session = py_str (dget_or payload ''session_id'' (JStr ''unknown-session'')),
            he_request = r, he_tool = str_field tool_payload ''name'',
            he_arguments = Some (dict_or_empty (dget tool_payload ''arguments'')),
            he_result = (if dget payload ''error'' = JNull then dget payload ''result'' else JNull),
            he_error = dict_opt (dget payload ''error''), he_raw = payload\<rparr>))"

definition hook_event_from_client_payload ::
  "(jdict \<Rightarrow> exn + hook_event) \<Rightarrow> jdict \<Rightarrow> hook_client \<Rightarrow> exn + hook_event" where
  "hook_event_from_client_payload validate payload client =
     (case client of
        Generic \<Rightarrow> validate payload
      | ClaudeCode \<Rightarrow> claude_code_hook_event payload
      | Codex \<Rightarrow> codex_hook_event payload)"

section \<open>The runtime\<close>

definition runtime_event_type :: "hook_event \<Rightarrow> event_type" where
  "runtime_event_type h =
     (if he_type h = AgentInput then AgentInputReceived
      else if he_type h = PreToolUse then ToolCallRequested
      else if he_error h \<noteq> None then ToolCallFailed
      else ToolCallCompleted)"

definition hook_dump :: "hook_event \<Rightarrow> jdict" where
  "hook_dump h =
     [(''hook_event_type'', JStr (hook_event_type_str (he_type h))), (''session_id'', JStr (he_session h)),
      (''request_id'', json_rid (he_request h)), (''tool_name'', json_opt (he_tool h)),
      (''arguments'', json_dict_opt (he_arguments h)), (''result'', he_result h),
      (''error'', json_dict_opt (he_error h)), (''raw'', JObj (he_raw h))]"

definition hook_event_to_runtime_event ::
  "hook_event \<Rightarrow> 'a world_scheme \<Rightarrow> runtime_event \<times> 'a world_scheme" where
  "hook_event_to_runtime_event h w =
     (let mapping = map_capability (he_tool h) (he_arguments h) None in
      new_event (runtime_event_type h) Hook (he_session h) (he_request h) None (he_tool h)
        (if he_type h = AgentInput then Some ''agent.input'' else cm_capability mapping) None
        (he_arguments h) (he_result h) (he_error h)
        (if he_raw h \<noteq> [] then he_raw h else hook_dump h) w)"

definition plain_response ::
  "policy_action \<Rightarrow> string option \<Rightarrow> string \<Rightarrow> string list \<Rightarrow> string \<Rightarrow> hook_response" where
  "plain_response act pol reason fids ev =
     \<lparr>hr_action = act, hr_policy = pol, hr_reason = reason, hr_findings = fids, hr_event = Some ev,
      hr_decision = None, hr_approval = None, hr_adjudication = None\<rparr>"

text \<open>The runtime of a hook shares the policy engine and the store between the decision service
  and the coordinator.\<close>

definition hook_coordinator :: "'w service \<Rightarrow> reviewer option \<Rightarrow> coordinator" where
  "hook_coordinator S review =
     \<lparr>cr_engine = sv_engine S, cr_store = sv_store S, cr_reviewer = review\<rparr>"

definition handle_agent_input ::
  "'w service \<Rightarrow> reviewer option \<Rightarrow> runtime_event \<Rightarrow> 'a coord_scheme \<Rightarrow>
   (exn + hook_response) \<times> 'a coord_scheme" where
  "handle_agent_input S review event s =
     (if pe_input_gate (sv_engine S) = None
      then (Inr (plain_response Allow None ''Agent Input Gate is disabled.'' [] (ev_id event)),
            record_event S event s)
      else case review_agent_input (hook_coordinator S review) event s of
             (Inl e, s) \<Rightarrow> (Inl e, s)
           | (Inr gate, s) \<Rightarrow>
               (let (d, s) = new_policy_decision (Some ''agent-input-gate'') (gt_effective gate)
                      ''Agent Input Gate reviewed the input.'' (ev_session event) (ev_id event)
                      (map fi_id (gt_findings gate)) s;
                    (approval, s) =
                      (if sv_store S then
                         (let s = update_db (save_policy_decision d) s in
                          if gt_effective gate = RequireApproval
                          then (let (a, s) = new_approval_request (pd_id d) (ev_session event) (ev_id event)
                                       (ev_request event) (pd_policy d) (pd_reason d) (pd_findings d) None
                                       (Some ''agent.input'') None StageAgentInput JNull
                                       (json_dict_opt (ev_arguments (redact_event event))) s
                                in (Some (ap_id a), update_db (save_approval_request a) s))
                          else (None, s))
                       else (None, s))
                in (Inr \<lparr>hr_action = gt_effective gate, hr_policy = pd_policy d, hr_reason = pd_reason d,
                         hr_findings = map fi_id (gt_findings gate), hr_event = Some (ev_id event),
                         hr_decision = Some (pd_id d), hr_approval = approval,
                         hr_adjudication = None\<rparr>, s)))"

definition handle_hook ::
  "validators \<Rightarrow> 'a coord_scheme service \<Rightarrow> reviewer option \<Rightarrow> hook_event \<Rightarrow> 'a coord_scheme \<Rightarrow>
   (exn + hook_response) \<times> 'a coord_scheme" where
  "handle_hook V S review h s =
     (let (event, s) = hook_event_to_runtime_event h s in
      if he_type h = AgentInput then handle_agent_input S review event s
      else case service_evaluate V S event s of
             (Inl e, s) \<Rightarrow> (Inl e, s)
           | (Inr rd, s) \<Rightarrow>
               (Inr \<lparr>hr_action = pd_action (rd_decision rd), hr_policy = pd_policy (rd_decision rd),
                     hr_reason = pd_reason (rd_decision rd), hr_findings = pd_findings (rd_decision rd),
                     hr_event = Some (ev_id (rd_event rd)), hr_decision = Some (pd_id (rd_decision rd)),
                     hr_approval = map_option ap_id (rd_approval rd),
                     hr_adjudication = map_option ad_id (rd_adjudication rd)\<rparr>, s))"

section \<open>What the adapters keep\<close>

text \<open>The arguments of a Claude Code call are the tool input under its own keys, except that
  \<open>file_path\<close> is reported as \<open>path\<close> when no \<open>path\<close> is given, which is where the detectors
  look for the target.\<close>

theorem claude_path_alias:
  "map_of (normalize_tool_input d) k =
     (if k = ''file_path'' then None
      else if k = ''path'' then
        (case map_of d ''path'' of
           Some v \<Rightarrow> Some v
         | None \<Rightarrow> if dget d ''file_path'' = JNull then None else Some (dget d ''file_path''))
      else map_of d k)"
  by (auto simp: normalize_tool_input_def Let_def split: option.splits)

section \<open>Tool calls through the hook\<close>

text \<open>The decision service reads nothing of its engine but the policies.\<close>

definition same_policies :: "'w service \<Rightarrow> 'w service \<Rightarrow> bool" where
  "same_policies S S' =
     (pe_policies (sv_engine S) = pe_policies (sv_engine S') \<and> sv_source S = sv_source S'
      \<and> sv_trace S = sv_trace S' \<and> sv_store S = sv_store S' \<and> sv_adjudicator S = sv_adjudicator S')"

lemma service_evaluate_policies:
  assumes "same_policies S S'"
  shows "service_evaluate V S e s = service_evaluate V S' e s"
proof -
  have a: "assess S e s = assess S' e s" for s
    using assms by (simp add: assess_def record_event_def same_policies_def evaluate_def)
  have g: "gated_decision S gate e fs d s = gated_decision S' gate e fs d s" for gate fs d s
  proof -
    have eq: "sv_adjudicator S = sv_adjudicator S'" "sv_store S = sv_store S'" "sv_source S = sv_source S'"
      using assms by (simp_all add: same_policies_def)
    have rg: "run_gate S = run_gate S'" by (intro ext) (unfold run_gate_def eq, rule refl)
    show ?thesis unfolding gated_decision_def eq rg ..
  qed
  have c: "conclude S e fs d ad s = conclude S' e fs d ad s" for fs d ad s
    using assms by (simp add: conclude_def save_decision_def record_event_def same_policies_def)
  have p: "pe_policies (sv_engine S) = pe_policies (sv_engine S')"
    using assms by (simp add: same_policies_def)
  show ?thesis unfolding service_evaluate_def llm_adjudication_for_def a g c p ..
qed

text \<open>The answer to a tool hook is the decision of the policies alone: it does not depend on
  the tool request gate, the session guard, the reviewer or the input and result gates, and so
  is the same in a compromised session.\<close>

theorem hook_tool_calls_bypass_gates:
  assumes "he_type h \<noteq> AgentInput" "same_policies S S'"
  shows "handle_hook V S review h s = handle_hook V S' review' h s"
  using assms(1) service_evaluate_policies [OF assms(2)]
  by (simp add: handle_hook_def)

definition shell_hook :: hook_event where
  "shell_hook = \<lparr>he_type = PreToolUse, he_session = ''s'', he_request = None, he_tool = Some ''shell'',
     he_arguments = None, he_result = JNull, he_error = None, he_raw = []\<rparr>"

definition guarded_service :: "coord service" where
  "guarded_service =
     \<lparr>sv_source = Hook, sv_engine = empty_engine\<lparr>pe_request_gate := Some (gate_of Enforce),
        pe_guard := Some \<lparr>gd_mode = Enforce, gd_action = Block\<rparr>\<rparr>,
      sv_trace = True, sv_store = True, sv_adjudicator = None\<rparr>"

theorem hook_tool_calls_bypass_gates_witness:
  "handle_hook validators1 guarded_service None shell_hook (mark_compromised ''s'' [''f''] coord0) =
   handle_hook validators1 (guarded_service\<lparr>sv_engine := empty_engine\<rparr>) None shell_hook
     (mark_compromised ''s'' [''f''] coord0)"
  by (rule hook_tool_calls_bypass_gates)
     (simp_all add: shell_hook_def same_policies_def guarded_service_def empty_engine_def)

section \<open>Agent inputs through the hook\<close>

lemma new_approval_request_evidence [simp]:
  "ap_evidence_preview (fst (new_approval_request d se ev rq p r fs t c a sg rp ep w)) = ep"
  by (simp add: new_approval_request_def case_prod_beta Let_def)

text \<open>The answer to an agent input is the effective action of the gate; with a database, an
  input that needs approval has a pending request in the store, for the input stage, whose
  evidence is redacted, and the answer names it; without that requirement no request is
  named.\<close>

theorem agent_input_answer:
  assumes "handle_agent_input S review e s = (Inr r, s')" "pe_input_gate (sv_engine S) \<noteq> None" "sv_store S"
  shows "(\<exists>gate s1. review_agent_input (hook_coordinator S review) e s = (Inr gate, s1)
        \<and> hr_action r = gt_effective gate \<and> hr_findings r = map fi_id (gt_findings gate)) \<and>
    (case hr_approval r of
       None \<Rightarrow> hr_action r \<noteq> RequireApproval
     | Some i \<Rightarrow> hr_action r = RequireApproval
         \<and> (\<exists>a. get_approval_request i (sy_db s') = Some a \<and> ap_status a = Pending
              \<and> ap_stage a = StageAgentInput \<and> Some (ap_decision a) = hr_decision r
              \<and> sealed (ap_evidence_preview a)))"
proof -
  obtain gate s1 where g: "review_agent_input (hook_coordinator S review) e s = (Inr gate, s1)"
    using assms(1,2) by (auto simp: handle_agent_input_def split: prod.splits sum.splits if_splits)
  have "sealed (json_dict_opt (ev_arguments (redact_event e)))"
    using sealed_redact_event [of e]
    by (auto simp: sealed_event_def json_dict_opt_def simp del: sealed.simps(1) split: option.splits)
  then show ?thesis
    using assms
    by (auto simp: handle_agent_input_def g Let_def case_prod_beta update_db_def
        get_approval_request_save new_approval_request_evidence split: if_splits)
qed

definition input_service :: "coord service" where
  "input_service = guarded_service\<lparr>sv_engine := empty_engine\<lparr>pe_input_gate := Some (gate_of Enforce)\<rparr>\<rparr>"

lemma input_service_answers: "\<exists>r s'. handle_agent_input input_service None read_event coord0 = (Inr r, s')"
proof -
  have "cr_reviewer (hook_coordinator input_service None) = None" by (simp add: hook_coordinator_def)
  then obtain d s' where
    "review_agent_input (hook_coordinator input_service None) read_event coord0 = (Inr d, s')"
    unfolding review_agent_input_def Let_def by (rule review_without_reviewer)
  then show ?thesis
    by (simp add: handle_agent_input_def Let_def case_prod_beta input_service_def)
qed

theorem agent_input_answer_witness:
  "\<exists>r s'. handle_agent_input input_service None read_event coord0 = (Inr r, s') \<and>
     (hr_approval r = None) = (hr_action r \<noteq> RequireApproval)"
proof -
  obtain r s' where r: "handle_agent_input input_service None read_event coord0 = (Inr r, s')"
    using input_service_answers by blast
  have "pe_input_gate (sv_engine input_service) \<noteq> None" "sv_store input_service"
    by (simp_all add: input_service_def guarded_service_def empty_engine_def)
  from agent_input_answer [OF r this] r show ?thesis by (auto split: option.splits)
qed

end
