(* ===== verification/ToolResultReview.thy ===== *)
theory ToolResultReview
  imports Adjudication
begin

text \<open>
  \<open>src/zeroadr/llm/tool_result_review.py\<close>: the payload for the review of a tool result, with
  long texts cut to three windows, and the reviewer that asks the model again when its answer
  does not fit. The reviewer counts its calls and keeps the error codes; the counters are part
  of the state of a call. The HTTP client and the schema validation are parameters.
\<close>

definition MAX_TOOL_RESULT_REVIEW_BYTES :: nat where
  "MAX_TOOL_RESULT_REVIEW_BYTES = 16 * 1024"

definition MAX_TOOL_RESULT_TEXT_BYTES :: nat where
  "MAX_TOOL_RESULT_TEXT_BYTES = 4 * 1024"

definition TOOL_RESULT_REVIEW_PROMPT_VERSION :: string where
  "TOOL_RESULT_REVIEW_PROMPT_VERSION = ''tool-result-review-v0.3''"

record prepared_review =
  pv_payload :: jdict
  pv_refs :: "string list"
  pv_sha256 :: string
  pv_truncated :: bool

section \<open>Cutting a result\<close>

definition window_size :: nat where
  "window_size = MAX_TOOL_RESULT_TEXT_BYTES div 3"

definition window_starts :: "string \<Rightarrow> nat list" where
  "window_starts value = [0, (length value - window_size) div 2, length value - window_size]"

definition bounded_result_text :: "string \<Rightarrow> json" where
  "bounded_result_text value =
     (if length (utf8 value) \<le> MAX_TOOL_RESULT_TEXT_BYTES then JStr value
      else JObj [(''truncated'', JBool True), (''original_length'', JInt (int (length value))),
                 (''windows'', JList (map (\<lambda>start.
                    JObj [(''start'', JInt (int start)), (''text'', JStr (take window_size (drop start value)))])
                    (window_starts value)))])"

fun bounded_result :: "json \<Rightarrow> json" where
  "bounded_result (JObj d) = JObj (take 50 (map (\<lambda>(k, v). (k, bounded_result v)) d))"
| "bounded_result (JList xs) = JList (take 50 (map bounded_result xs))"
| "bounded_result (JTuple xs) = JList (take 50 (map bounded_result xs))"
| "bounded_result (JStr s) = bounded_result_text s"
| "bounded_result v = v"

fun contains_truncation :: "json \<Rightarrow> bool" where
  "contains_truncation (JObj d) =
     (map_of d ''truncated'' = Some (JBool True) \<or> (\<exists>(k, v) \<in> set d. contains_truncation v))"
| "contains_truncation (JList xs) = (\<exists>x \<in> set xs. contains_truncation x)"
| "contains_truncation (JTuple xs) = (\<exists>x \<in> set xs. contains_truncation x)"
| "contains_truncation (JStr s) = sublist ''[TRUNCATED'' s"
| "contains_truncation v = False"

section \<open>The payload\<close>

definition review_payload :: "runtime_event \<Rightarrow> finding list \<Rightarrow> string \<Rightarrow> jdict" where
  "review_payload event findings case_id =
     (let redacted = redact_event event in
      redact_dict
        [(''case_id'', JStr case_id),
         (''event'', JObj
            [(''event_id'', JStr (ev_id redacted)),
             (''event_type'', JStr (event_type_str (ev_type redacted))),
             (''tool_name'', json_opt (ev_tool redacted)),
             (''capability'', json_opt (ev_capability redacted)),
             (''result'', bounded_result (ev_result redacted))]),
         (''findings'', JList (map adjudication_finding (take 5 findings)))])"

definition cut_result :: "jdict \<Rightarrow> jdict" where
  "cut_result payload =
     (case dget payload ''event'' of
        JObj ev \<Rightarrow> dset ''event'' (JObj (dset ''result''
                      (JStr ''[TRUNCATED: payload exceeded 16 KiB]'') ev)) payload
      | _ \<Rightarrow> payload)"

text \<open>\<open>{key: value for key, value in d.items() if key != k}\<close> on a value that is a dictionary.\<close>

definition without_key :: "string \<Rightarrow> json \<Rightarrow> json" where
  "without_key k v = (case v of JObj d \<Rightarrow> JObj (ddel k d) | _ \<Rightarrow> v)"

definition semantic_payload :: "jdict \<Rightarrow> json" where
  "semantic_payload payload =
     JObj [(''prompt_version'', JStr TOOL_RESULT_REVIEW_PROMPT_VERSION),
           (''event'', without_key ''event_id'' (dget payload ''event'')),
           (''findings'', JList (map (without_key ''finding_id'') (findings_of payload)))]"

definition build_tool_result_review_payload ::
  "runtime_event \<Rightarrow> finding list \<Rightarrow> string \<Rightarrow> prepared_review" where
  "build_tool_result_review_payload event findings case_id =
     (let payload = review_payload event findings case_id;
          too_long = MAX_TOOL_RESULT_REVIEW_BYTES < encoded_length payload;
          truncated = contains_truncation (JObj payload) \<or> too_long;
          payload = (if too_long then cut_result payload else payload)
      in \<lparr>pv_payload = payload, pv_refs = ev_id event # map fi_id (take 5 findings),
          pv_sha256 = sha256 (utf8 (canonical_json (semantic_payload payload))),
          pv_truncated = truncated\<rparr>)"

definition result_preview :: "prepared_review \<Rightarrow> json" where
  "result_preview p = (case dget (pv_payload p) ''event'' of JObj ev \<Rightarrow> dget ev ''result'' | _ \<Rightarrow> JNull)"

section \<open>The reviewer\<close>

definition output_correction_prompt :: string where
  "output_correction_prompt =
     '' Your previous output failed schema or evidence-reference validation. Return exactly one ''
   @ ''valid JSON object with the required keys. Copy evidence_refs exactly from the supplied ''
   @ ''evidence_refs list; do not invent, summarize, or rename references.''"

text \<open>What the schema library makes of the content of an answer, after the repair of a
  \<open>limitations\<close> text, with the classes of its exceptions; every one of them is caught.\<close>

record review_schema =
  rs_result :: "json option \<Rightarrow> exn + llm_adjudication_result"
  rs_usage :: "json option \<Rightarrow> token_usage option"

definition parse_result :: "review_schema \<Rightarrow> json option \<Rightarrow> exn + llm_adjudication_result" where
  "parse_result S body =
     (case rs_result S body of
        Inr r \<Rightarrow> Inr r
      | Inl (PyError c) \<Rightarrow>
          Inl (if c \<in> {''KeyError'', ''IndexError'', ''TypeError'', ''ValueError'', ''ValidationError'',
                       ''JSONDecodeError''}
               then LLMProviderError ''invalid_model_output'' ''Model output did not match the review schema.''
               else PyError c)
      | Inl e \<Rightarrow> Inl e)"

record review_stats =
  rv_calls :: nat
  rv_retries :: nat
  rv_recovered :: nat
  rv_errors :: "string list"

definition review_body :: "openai_config \<Rightarrow> string \<Rightarrow> jdict \<Rightarrow> string list \<Rightarrow> json" where
  "review_body C prompt payload refs =
     JObj [(''model'', JStr (oa_model C)),
           (''messages'', JList
              [JObj [(''role'', JStr ''system''), (''content'', JStr prompt)],
               JObj [(''role'', JStr ''user''),
                     (''content'', JStr (json_text False '', '' '': '' (sort_keys
                        (JObj [(''evidence_refs'', JList (map JStr (sort (remdups refs)))),
                               (''evidence'', JObj payload)]))))]]),
           (''stream'', JBool False), (''n'', JInt 1), (''temperature'', JInt 0),
           (''max_tokens'', JInt (oa_max_tokens C)),
           (''response_format'', JObj [(''type'', JStr ''json_object'')])]"

text \<open>The loop over the attempts. \<open>left\<close> counts the attempts after this one, \<open>again\<close> says that
  this is not the first. The prompt is an argument.\<close>

fun review_attempts ::
  "http_post \<Rightarrow> review_schema \<Rightarrow> openai_config \<Rightarrow> string \<Rightarrow> jdict \<Rightarrow> string list \<Rightarrow> nat \<Rightarrow> bool \<Rightarrow>
   review_stats \<Rightarrow>
   (exn + llm_adjudication_result \<times> json option \<times> string option) \<times> review_stats" where
  "review_attempts post S C prompt payload refs left again st =
     (let st = st\<lparr>rv_calls := rv_calls st + 1\<rparr>;
          body = review_body C (if again then prompt @ output_correction_prompt else prompt) payload refs in
      case provider_post post C body of
        HttpTimeout \<Rightarrow> (Inl (LLMProviderError ''provider_timeout'' ''Provider request timed out.''), st)
      | HttpTransportError \<Rightarrow>
          (Inl (LLMProviderError ''provider_connection_error'' ''Provider connection failed.''), st)
      | HttpResponse status parsed request_id \<Rightarrow>
          if is_error_status status
          then (Inl (LLMProviderError ''provider_http_error''
                       (''Provider returned HTTP '' @ nat_str status @ ''.'')), st)
          else case parse_result S parsed of
            Inl (LLMProviderError code msg) \<Rightarrow>
              if code \<noteq> ''invalid_model_output'' then (Inl (LLMProviderError code msg), st)
              else (let st = st\<lparr>rv_errors := rv_errors st @ [code]\<rparr> in
                    case left of
                      0 \<Rightarrow> (Inl (LLMProviderError code msg), st)
                    | Suc n \<Rightarrow> review_attempts post S C prompt payload refs n True
                                 (st\<lparr>rv_retries := rv_retries st + 1\<rparr>))
          | Inl e \<Rightarrow> (Inl e, st)
          | Inr result \<Rightarrow>
              if set (jr_refs result) \<subseteq> set refs
              then (Inr (result, parsed, request_id),
                    if again then st\<lparr>rv_recovered := rv_recovered st + 1\<rparr> else st)
              else (let st = st\<lparr>rv_errors := rv_errors st @ [''unknown_evidence_reference'']\<rparr> in
                    case left of
                      0 \<Rightarrow> (Inl (LLMProviderError ''unknown_evidence_reference''
                              ''Model output referenced evidence that was not supplied.''), st)
                    | Suc n \<Rightarrow> review_attempts post S C prompt payload refs n True
                                 (st\<lparr>rv_retries := rv_retries st + 1\<rparr>)))"

declare review_attempts.simps [simp del]

definition review_adjudicate ::
  "http_post \<Rightarrow> review_schema \<Rightarrow> openai_config \<Rightarrow> string \<Rightarrow> nat \<Rightarrow> jdict \<Rightarrow> string list \<Rightarrow> review_stats \<Rightarrow>
   'w world_scheme \<Rightarrow> (exn + provider_adjudication) \<times> review_stats \<times> 'w world_scheme" where
  "review_adjudicate post S C prompt retries payload refs st w =
     (let (started, w) = monotonic w in
      case review_attempts post S C prompt payload refs retries False st of
        (Inl e, st) \<Rightarrow> (Inl e, st, w)
      | (Inr (result, parsed, request_id), st) \<Rightarrow>
          (let (ended, w) = monotonic w in
           (Inr \<lparr>pa_result = result, pa_usage = rs_usage S parsed, pa_request = request_id,
                pa_latency_ms = max 0 (py_round ((ended - started) * 1000))\<rparr>, st, w)))"

section \<open>What the reviewer guarantees\<close>

lemma review_attempts_stats:
  assumes "review_attempts post S C prompt payload refs left again st = (res, st')"
  shows "rv_calls st' = rv_calls st + 1 + (rv_retries st' - rv_retries st) \<and> rv_retries st \<le> rv_retries st'
    \<and> rv_retries st' \<le> rv_retries st + left
    \<and> (\<forall>r p i. res = Inr (r, p, i) \<longrightarrow> set (jr_refs r) \<subseteq> set refs)"
  using assms
proof (induction left arbitrary: again st)
  case 0
  then show ?case
    by (subst (asm) review_attempts.simps)
       (auto simp: Let_def split: http_outcome.splits if_splits sum.splits exn.splits)
next
  case (Suc n)
  show ?case
    using Suc.prems
    by (subst (asm) review_attempts.simps)
       (auto simp: Let_def split: http_outcome.splits if_splits sum.splits exn.splits
         dest!: Suc.IH)
qed

text \<open>However the model answers, a review makes at least one call and at most one more than
  the configured retries, one for each counted retry and one to begin with; an answer is
  accepted only if it cites supplied evidence alone.\<close>

theorem review_calls_bounded:
  assumes "review_attempts post S C prompt payload refs retries False st = (res, st')"
  shows "rv_calls st < rv_calls st' \<and> rv_calls st' \<le> rv_calls st + retries + 1 \<and>
    rv_calls st' - rv_calls st = rv_retries st' - rv_retries st + 1 \<and>
    (\<forall>r p i. res = Inr (r, p, i) \<longrightarrow> set (jr_refs r) \<subseteq> set refs)"
  using review_attempts_stats [OF assms] by auto

definition no_schema :: review_schema where
  "no_schema = \<lparr>rs_result = (\<lambda>_. Inl (PyError ''KeyError'')), rs_usage = (\<lambda>_. None)\<rparr>"

definition config1 :: openai_config where
  "config1 = \<lparr>oa_base_url = ''https://x'', oa_api_key = ''k'', oa_model = ''m'', oa_timeout = 8, oa_max_tokens = 256\<rparr>"

definition stats0 :: review_stats where
  "stats0 = \<lparr>rv_calls = 0, rv_retries = 0, rv_recovered = 0, rv_errors = []\<rparr>"

text \<open>A provider that answers every call with a body the schema rejects.\<close>

definition babbling_post :: http_post where
  "babbling_post = (\<lambda>_ _ _ _. HttpResponse 200 None None)"

theorem review_calls_bounded_witness:
  "rv_calls (snd (review_attempts babbling_post no_schema config1 [] [] [] 1 False stats0)) \<in> {1, 2}"
proof -
  obtain res st' where r: "review_attempts babbling_post no_schema config1 [] [] [] 1 False stats0 = (res, st')"
    by (metis surj_pair)
  from review_calls_bounded [OF r] r show ?thesis by (auto simp: stats0_def)
qed

interpretation reviewer: adjudicating
  "\<lambda>p refs w. case review_adjudicate post S C prompt retries p refs st w of (r, st', w') \<Rightarrow> (r, w')"
  for post S C prompt retries st
proof
  fix p refs and w w' :: "'w world_scheme" and a
  let ?run = "\<lambda>p refs w. case review_adjudicate post S C prompt retries p refs st w of (r, st', w') \<Rightarrow> (r, w')"
  obtain res st1 where r: "review_attempts post S C prompt p refs retries False st = (res, st1)"
    by (metis surj_pair)
  show "?run p refs w = (Inr a, w') \<Longrightarrow> set (jr_refs (pa_result a)) \<subseteq> set refs"
    using review_attempts_stats [OF r]
    by (auto simp: review_adjudicate_def r monotonic_def Let_def split: sum.splits prod.splits)
  show "\<exists>n. snd (?run p refs w) = w\<lparr>w_monos := n\<rparr>"
    by (auto simp: review_adjudicate_def r monotonic_def Let_def split: sum.splits prod.splits)
qed

section \<open>The retained windows\<close>

text \<open>A text of more than 4096 bytes is replaced by three windows of at most 1365 characters,
  of which the first is a beginning and the last an end of the text; a shorter text is kept
  whole.\<close>

theorem long_text_windows:
  "if length (utf8 t) \<le> 4096 then bounded_result_text t = JStr t
   else \<exists>a m b. dget (case bounded_result_text t of JObj d \<Rightarrow> d) ''windows'' =
       JList [JObj [(''start'', JInt 0), (''text'', JStr a)],
              JObj [(''start'', JInt (int ((length t - 1365) div 2))), (''text'', JStr m)],
              JObj [(''start'', JInt (int (length t - 1365))), (''text'', JStr b)]]
     \<and> prefix a t \<and> sublist m t \<and> suffix b t \<and> length a = 1365 \<and> length m = 1365 \<and> length b = 1365"
proof (cases "length (utf8 t) \<le> 4096")
  case True
  then show ?thesis by (simp add: bounded_result_text_def MAX_TOOL_RESULT_TEXT_BYTES_def)
next
  case False
  have "length (utf8 t) \<le> 2 * length t"
    by (induction t) (auto simp: utf8_def utf8_char_def Let_def)
  with False have len: "1365 < length t" by simp
  have "suffix (take 1365 (drop (length t - 1365) t)) t"
    using len by (simp add: suffix_drop)
  moreover have "prefix (take 1365 t) t" by (rule prefix_take)
  moreover have "sublist (take 1365 (drop ((length t - 1365) div 2) t)) t"
    by (meson sublist_order.order.trans sublist_drop sublist_take)
  moreover have "1365 \<le> length t - (length t - 1365) div 2" using len by linarith
  ultimately show ?thesis
    using False len
    by (simp add: bounded_result_text_def MAX_TOOL_RESULT_TEXT_BYTES_def window_size_def
        window_starts_def dget_def min_def)
qed

end
