(* ===== verification/Gateway.thy ===== *)
theory Gateway
  imports HookAdapter ToolResultReview
begin

text \<open>
  \<open>GatewayRuntime\<close> of \<open>src/zeroadr/gateway/stdio_proxy.py\<close>: the inspection of client requests
  and of server responses. The state extends the coordinator's state by the dictionary of
  pending calls. An id of a JSON-RPC message is usable if it is a text or a number without a
  fraction; a truth value counts as the number 0 or 1, as in the program.
\<close>

record pending_call =
  pc_id :: request_id
  pc_tool :: "string option"
  pc_arguments :: jdict
  pc_event :: runtime_event

record gw = coord +
  gw_pending :: "(request_id \<times> pending_call) list"

record 'w gateway =
  gy_session :: string
  gy_server :: "string option"
  gy_service :: "'w service"
  gy_stage_reviewer :: "reviewer option"
  gy_result_reviewer :: "'w adjudicator option"

record client_inspection =
  ci_block :: "jdict option"
  ci_approval :: "string option"
  ci_pending :: "pending_call option"

record result_inspection =
  ri_action :: policy_action
  ri_error :: "int option"
  ri_approval :: "approval_request option"
  ri_adjudication :: "llm_adjudication option"
  ri_record :: "tool_result_gate_record option"

definition passed_client :: client_inspection where
  "passed_client = \<lparr>ci_block = None, ci_approval = None, ci_pending = None\<rparr>"

definition passed_result :: result_inspection where
  "passed_result =
     \<lparr>ri_action = Allow, ri_error = None, ri_approval = None, ri_adjudication = None, ri_record = None\<rparr>"

definition gateway_engine :: "'w gateway \<Rightarrow> policy_engine" where
  "gateway_engine G = sv_engine (gy_service G)"

definition gateway_coordinator :: "'w gateway \<Rightarrow> coordinator" where
  "gateway_coordinator G =
     \<lparr>cr_engine = gateway_engine G, cr_store = sv_store (gy_service G), cr_reviewer = gy_stage_reviewer G\<rparr>"

text \<open>The last action of the constructor: the start of the session is recorded.\<close>

definition start_session :: "'w gateway \<Rightarrow> 'a gw_scheme \<Rightarrow> 'a gw_scheme" where
  "start_session G s =
     (let (e, s) = new_event SessionStart McpGateway (gy_session G) None (gy_server G) None None None
            None JNull None [] s
      in record_event (gy_service G) e s)"

section \<open>Requests of the client\<close>

definition rid_of :: "json \<Rightarrow> request_id option" where
  "rid_of v =
     (case v of
        JStr s \<Rightarrow> Some (RStr s)
      | JInt i \<Rightarrow> Some (RInt i)
      | JBool b \<Rightarrow> Some (RInt (if b then 1 else 0))
      | _ \<Rightarrow> None)"

definition invalid_request :: jdict where
  "invalid_request =
     [(''jsonrpc'', JStr ''2.0''), (''id'', JNull),
      (''error'', JObj [(''code'', JInt (- 32600)), (''message'', JStr ''Invalid Request''),
        (''data'', JObj [(''reason'', JStr ''request id must be a string, number, or null'')])])]"

definition call_params :: "jdict \<Rightarrow> jdict" where
  "call_params message = dict_or_empty (dget message ''params'')"

definition call_tool :: "jdict \<Rightarrow> string option" where
  "call_tool message = (case dget (call_params message) ''name'' of JStr t \<Rightarrow> Some t | _ \<Rightarrow> None)"

definition call_arguments :: "jdict \<Rightarrow> jdict" where
  "call_arguments message = dict_or_empty (dget (call_params message) ''arguments'')"

definition request_event ::
  "'w gateway \<Rightarrow> jdict \<Rightarrow> 'a world_scheme \<Rightarrow> runtime_event \<times> 'a world_scheme" where
  "request_event G message w =
     new_event ToolCallRequested McpGateway (gy_session G) (rid_of (dget message ''id'')) (gy_server G)
       (call_tool message)
       (cm_capability (map_capability (call_tool message) (Some (call_arguments message)) None)) None
       (Some (call_arguments message)) JNull None message w"

definition pending_of :: "jdict \<Rightarrow> runtime_event \<Rightarrow> pending_call option" where
  "pending_of message event =
     map_option (\<lambda>i. \<lparr>pc_id = i, pc_tool = call_tool message, pc_arguments = call_arguments message,
                     pc_event = event\<rparr>) (rid_of (dget message ''id''))"

text \<open>The tool request gate replaces the decision when it blocks or requires approval.\<close>

definition apply_request_gate ::
  "'w gateway \<Rightarrow> runtime_event \<Rightarrow> policy_decision \<Rightarrow> 'a gw_scheme \<Rightarrow> (exn + policy_decision) \<times> 'a gw_scheme" where
  "apply_request_gate G event d s =
     (if pe_request_gate (gateway_engine G) = None then (Inr d, s)
      else case review_tool_request (gateway_coordinator G) event s of
             (Inl e, s) \<Rightarrow> (Inl e, s)
           | (Inr gate, s) \<Rightarrow>
               if gt_effective gate \<in> {Block, RequireApproval}
               then (let (d, s) = new_policy_decision (Some ''tool-request-gate'') (gt_effective gate)
                            ''Tool Request Gate enforced the request.'' (ev_session event) (ev_id event)
                            (map fi_id (gt_findings gate)) s
                     in (Inr d, s))
               else (Inr d, s))"

definition request_approval ::
  "'w gateway \<Rightarrow> runtime_event \<Rightarrow> policy_decision \<Rightarrow> approval_request option \<Rightarrow> 'a gw_scheme \<Rightarrow>
   approval_request option \<times> 'a gw_scheme" where
  "request_approval G event d approval s =
     (if approval = None \<and> sv_store (gy_service G)
      then (let (a, s) = new_approval_request (pd_id d) (ev_session event) (ev_id event) (ev_request event)
                   (pd_policy d) (pd_reason d) (pd_findings d) (ev_tool event) (ev_capability event)
                   (ev_arguments event) StagePreTool JNull JNull s
            in (Some a, update_db (save_approval_request a) s))
      else (approval, s))"

definition answer_request ::
  "'w gateway \<Rightarrow> jdict \<Rightarrow> runtime_event \<Rightarrow> policy_decision \<Rightarrow> approval_request option \<Rightarrow> 'a gw_scheme \<Rightarrow>
   client_inspection \<times> 'a gw_scheme" where
  "answer_request G message event d approval s =
     (let pending = pending_of message event in
      if pd_action d = Block
      then (passed_client\<lparr>ci_block := Some (render_jsonrpc_error (rid_of (dget message ''id'')) d)\<rparr>, s)
      else if pd_action d = RequireApproval
      then (let (approval, s) = request_approval G event d approval s
            in (passed_client\<lparr>ci_approval := map_option ap_id approval, ci_pending := pending\<rparr>, s))
      else (passed_client\<lparr>ci_pending := pending\<rparr>,
            case pending of None \<Rightarrow> s | Some p \<Rightarrow> s\<lparr>gw_pending := dset (pc_id p) p (gw_pending s)\<rparr>))"

definition inspect_client_message ::
  "validators \<Rightarrow> 'a gw_scheme gateway \<Rightarrow> jdict \<Rightarrow> 'a gw_scheme \<Rightarrow> (exn + client_inspection) \<times> 'a gw_scheme" where
  "inspect_client_message V G message s =
     (if dget message ''method'' \<noteq> JStr ''tools/call'' then (Inr passed_client, s)
      else if dget message ''id'' \<noteq> JNull \<and> rid_of (dget message ''id'') = None
      then (Inr (passed_client\<lparr>ci_block := Some invalid_request\<rparr>), s)
      else
        (let (event, s) = request_event G message s in
         case service_evaluate V (gy_service G) event s of
           (Inl e, s) \<Rightarrow> (Inl e, s)
         | (Inr rd, s) \<Rightarrow>
             (case apply_request_gate G event (rd_decision rd) s of
                (Inl e, s) \<Rightarrow> (Inl e, s)
              | (Inr d, s) \<Rightarrow>
                  (let (r, s) = answer_request G message event d (rd_approval rd) s in (Inr r, s)))))"

section \<open>Responses of the server\<close>

definition server_event ::
  "'w gateway \<Rightarrow> jdict \<Rightarrow> pending_call \<Rightarrow> 'a world_scheme \<Rightarrow> runtime_event \<times> 'a world_scheme" where
  "server_event G message p w =
     new_event (if map_of message ''error'' \<noteq> None then ToolCallFailed else ToolCallCompleted) McpGateway
       (gy_session G) (Some (pc_id p)) (gy_server G) (pc_tool p) (ev_capability (pc_event p)) None
       (Some (pc_arguments p)) (dget message ''result'') (dict_opt (dget message ''error'')) message w"

record result_proposal =
  rp_action :: policy_action
  rp_verdict :: "string option"
  rp_confidence :: "rat option"
  rp_error :: "string option"
  rp_adjudication :: "llm_adjudication option"

definition result_verdict_action :: "tool_result_gate_policy \<Rightarrow> llm_adjudication_result \<Rightarrow> policy_action" where
  "result_verdict_action gate r =
     (if jr_confidence r < trg_min_confidence gate \<or> jr_verdict r = Uncertain then RequireApproval
      else if jr_verdict r = LikelyTruePositive then trg_true_positive gate
      else trg_false_positive gate)"

definition shadowed :: "tool_result_gate_policy \<Rightarrow> policy_action \<Rightarrow> policy_action" where
  "shadowed gate act = (if trg_mode gate = Enforce then act else Allow)"

definition result_prompt_version :: "'w adjudicator option \<Rightarrow> string" where
  "result_prompt_version aj =
     (case aj of None \<Rightarrow> ''tool-result-review-v0.2''
      | Some a \<Rightarrow> (case aj_version a of None \<Rightarrow> ''tool-result-review-v0.2'' | Some v \<Rightarrow> v))"

definition result_adjudication ::
  "string \<Rightarrow> runtime_event \<Rightarrow> finding list \<Rightarrow> policy_decision \<Rightarrow> int \<Rightarrow> tool_result_gate_policy \<Rightarrow>
   'w adjudicator option \<Rightarrow> prepared_review \<Rightarrow> policy_action \<Rightarrow> llm_adjudication" where
  "result_adjudication i event findings base now gate aj prepared proposed =
     \<lparr>ad_id = i, ad_session = ev_session event, ad_event = ev_id event,
      ad_findings = map fi_id findings, ad_policy = str_or (pd_policy base) ''tool-result-gate'',
      ad_created = now, ad_status = Failed, ad_mode = trg_mode gate, ad_stage = StageToolResult,
      ad_provider = ''openai-compatible'',
      ad_model = (case aj of None \<Rightarrow> ''unconfigured'' | Some a \<Rightarrow> aj_model a),
      ad_prompt_version = result_prompt_version aj, ad_input_sha256 = pv_sha256 prepared,
      ad_result = None, ad_proposed = proposed, ad_final = shadowed gate proposed, ad_latency_ms = 0,
      ad_usage = None, ad_provider_request = None, ad_error_code = None, ad_error_message = None\<rparr>"

definition failed_result_review ::
  "string \<Rightarrow> runtime_event \<Rightarrow> finding list \<Rightarrow> policy_decision \<Rightarrow> int \<Rightarrow> tool_result_gate_policy \<Rightarrow>
   'w adjudicator option \<Rightarrow> prepared_review \<Rightarrow> string \<Rightarrow> llm_adjudication" where
  "failed_result_review i event findings base now gate aj prepared code =
     (result_adjudication i event findings base now gate aj prepared RequireApproval)
       \<lparr>ad_error_code := Some code, ad_error_message := Some ''Tool Result review failed safely.''\<rparr>"

definition completed_result_review ::
  "string \<Rightarrow> runtime_event \<Rightarrow> finding list \<Rightarrow> policy_decision \<Rightarrow> int \<Rightarrow> tool_result_gate_policy \<Rightarrow>
   'w adjudicator option \<Rightarrow> prepared_review \<Rightarrow> policy_action \<Rightarrow> provider_adjudication \<Rightarrow> llm_adjudication" where
  "completed_result_review i event findings base now gate aj prepared proposed pr =
     (result_adjudication i event findings base now gate aj prepared proposed)
       \<lparr>ad_status := Completed, ad_result := Some (pa_result pr), ad_latency_ms := pa_latency_ms pr,
        ad_usage := pa_usage pr, ad_provider_request := pa_request pr\<rparr>"

text \<open>The \<open>try\<close> statement catches every exception; a record rejected by its constructor leaves
  the verdict and the confidence set.\<close>

definition run_result_review ::
  "'a gw_scheme gateway \<Rightarrow> tool_result_gate_policy \<Rightarrow> runtime_event \<Rightarrow> finding list \<Rightarrow> prepared_review \<Rightarrow>
   policy_decision \<Rightarrow> 'a gw_scheme \<Rightarrow> result_proposal \<times> 'a gw_scheme" where
  "run_result_review G gate event findings prepared base s =
     (let (i, s) = new_ulid s;
          aj = gy_result_reviewer G;
          (answer, s) =
            (case aj of
               None \<Rightarrow> (Inl (LLMProviderError ''missing_llm_config'' ''Tool Result reviewer is not configured.''), s)
             | Some a \<Rightarrow> aj_run a (pv_payload prepared) (pv_refs prepared) s);
          (now, s) = utc_now s;
          failed = (\<lambda>v c code. \<lparr>rp_action = RequireApproval, rp_verdict = v, rp_confidence = c,
                      rp_error = Some code,
                      rp_adjudication = Some (failed_result_review i event findings base now gate aj prepared code)\<rparr>)
      in case answer of
           Inl (LLMProviderError code msg) \<Rightarrow> (failed None None code, s)
         | Inl _ \<Rightarrow> (failed None None ''review_internal_error'', s)
         | Inr pr \<Rightarrow>
             (let v = Some (verdict_str (jr_verdict (pa_result pr))); c = Some (jr_confidence (pa_result pr));
                  proposed = result_verdict_action gate (pa_result pr) in
              if pa_latency_ms pr < 0
              then (let (later, s) = utc_now s in
                    (\<lparr>rp_action = RequireApproval, rp_verdict = v, rp_confidence = c,
                      rp_error = Some ''review_internal_error'',
                      rp_adjudication = Some (failed_result_review i event findings base later gate aj prepared
                        ''review_internal_error'')\<rparr>, s))
              else (\<lparr>rp_action = proposed, rp_verdict = v, rp_confidence = c, rp_error = None,
                     rp_adjudication = Some (completed_result_review i event findings base now gate aj
                        prepared proposed pr)\<rparr>, s)))"

definition propose_result ::
  "'a gw_scheme gateway \<Rightarrow> tool_result_gate_policy \<Rightarrow> runtime_event \<Rightarrow> finding list \<Rightarrow> prepared_review \<Rightarrow>
   policy_decision \<Rightarrow> bool \<Rightarrow> 'a gw_scheme \<Rightarrow> result_proposal \<times> 'a gw_scheme" where
  "propose_result G gate event findings prepared base limit_exceeded s =
     (let plain = \<lparr>rp_action = pd_action base, rp_verdict = None, rp_confidence = None, rp_error = None,
                   rp_adjudication = None\<rparr> in
      if limit_exceeded
      then (plain\<lparr>rp_error := Some ''resource_limit'',
                  rp_action := (if trg_mode gate = Enforce then Block else Allow)\<rparr>, s)
      else if trg_review gate = Hybrid
      then if \<exists>f \<in> set findings. fi_severity f = Critical
           then (plain\<lparr>rp_action := trg_true_positive gate\<rparr>, s)
           else run_result_review G gate event findings prepared base s
      else (plain, s))"

text \<open>The records of a reviewed result: decision, adjudication and approval request.\<close>

definition save_result_outcome ::
  "'w gateway \<Rightarrow> runtime_event \<Rightarrow> policy_decision \<Rightarrow> llm_adjudication option \<Rightarrow> json \<Rightarrow> 'a gw_scheme \<Rightarrow>
   approval_request option \<times> 'a gw_scheme" where
  "save_result_outcome G event d adjudication preview s =
     (if sv_store (gy_service G) then
        (let s = update_db (save_policy_decision d) s;
             s = (case adjudication of None \<Rightarrow> s | Some a \<Rightarrow> update_db (save_llm_adjudication a) s) in
         if pd_action d = RequireApproval
         then (let (a, s) = new_approval_request (pd_id d) (ev_session event) (ev_id event)
                      (ev_request event) (pd_policy d) (pd_reason d) (pd_findings d) (ev_tool event)
                      (ev_capability event) None StageToolResult preview JNull s
               in (Some a, update_db (save_approval_request a) s))
         else (None, s))
      else (None, s))"

definition result_gate_record ::
  "runtime_event \<Rightarrow> tool_result_gate_policy \<Rightarrow> policy_decision \<Rightarrow> result_proposal \<Rightarrow> finding list \<Rightarrow>
   approval_request option \<Rightarrow> nat \<Rightarrow> prepared_review \<Rightarrow> int \<Rightarrow> string \<Rightarrow> int \<Rightarrow> tool_result_gate_record" where
  "result_gate_record event gate base p findings approval bytes prepared latency i now =
     \<lparr>tg_id = i, tg_session = ev_session event, tg_event = ev_id event, tg_request = ev_request event,
      tg_created = now, tg_mode = trg_mode gate, tg_review = trg_review gate, tg_base = pd_action base,
      tg_proposed = rp_action p, tg_effective = shadowed gate (rp_action p),
      tg_findings = map fi_id findings, tg_rules = map fi_rule findings,
      tg_adjudication = map_option ad_id (rp_adjudication p), tg_approval = map_option ap_id approval,
      tg_approval_status = (if approval = None then None else Some Pending),
      tg_verdict = rp_verdict p, tg_confidence = rp_confidence p, tg_bytes = bytes,
      tg_truncated = pv_truncated prepared, tg_latency_ms = latency, tg_error = rp_error p,
      tg_preview = result_preview prepared\<rparr>"

text \<open>\<open>_inspect_tool_result\<close> up to the proposed action, and the rest of it.\<close>

definition assess_result ::
  "'a gw_scheme gateway \<Rightarrow> tool_result_gate_policy \<Rightarrow> runtime_event \<Rightarrow> finding list \<Rightarrow> prepared_review \<Rightarrow>
   bool \<Rightarrow> 'a gw_scheme \<Rightarrow> policy_decision \<times> result_proposal \<times> 'a gw_scheme" where
  "assess_result G gate event findings prepared limit_exceeded s =
     (let s = record_event (gy_service G) (event\<lparr>ev_result := result_preview prepared, ev_raw := []\<rparr>) s;
          s = (if sv_store (gy_service G) then update_db (save_findings findings) s else s);
          (base, s) = evaluate (gateway_engine G) event findings s;
          (p, s) = propose_result G gate event findings prepared base limit_exceeded s
      in (base, p, s))"

definition conclude_result ::
  "'a gw_scheme gateway \<Rightarrow> tool_result_gate_policy \<Rightarrow> runtime_event \<Rightarrow> finding list \<Rightarrow> prepared_review \<Rightarrow>
   nat \<Rightarrow> bool \<Rightarrow> rat \<Rightarrow> policy_decision \<Rightarrow> result_proposal \<Rightarrow> 'a gw_scheme \<Rightarrow>
   (exn + result_inspection) \<times> 'a gw_scheme" where
  "conclude_result G gate event findings prepared bytes limit_exceeded started base p s =
     (let effective = shadowed gate (rp_action p);
          (d, s) = new_policy_decision (pd_policy base) effective
             (if trg_mode gate = Shadow then ''Tool Result Gate shadow observation.''
              else ''Tool Result Gate enforced the reviewed result.'')
             (ev_session event) (ev_id event) (map fi_id findings) s;
          (approval, s) = save_result_outcome G event d (rp_adjudication p) (result_preview prepared) s;
          (ended, s) = monotonic s;
          (i, s) = new_ulid s;
          (now, s) = utc_now s;
          r = result_gate_record event gate base p findings approval bytes prepared
                (max 0 (py_round ((ended - started) * 1000))) i now in
      if pred_option unit_interval (tg_confidence r)
      then (Inr \<lparr>ri_action = effective,
                 ri_error = (if limit_exceeded \<and> trg_mode gate = Enforce then Some (- 32004)
                             else if effective = Block then Some (- 32001) else None),
                 ri_approval = approval, ri_adjudication = rp_adjudication p, ri_record = Some r\<rparr>,
            if sv_store (gy_service G) then update_db (save_tool_result_gate_record r) s else s)
      else (Inl (PyError ''ValidationError''), s))"

definition inspect_tool_result ::
  "'a gw_scheme gateway \<Rightarrow> tool_result_gate_policy \<Rightarrow> runtime_event \<Rightarrow> nat \<Rightarrow> bool \<Rightarrow>
   (finding list \<times> prepared_review) option \<Rightarrow> 'a gw_scheme \<Rightarrow> (exn + result_inspection) \<times> 'a gw_scheme" where
  "inspect_tool_result G gate event bytes limit_exceeded given s =
     (let (started, s) = monotonic s;
          (findings, s) = (case given of None \<Rightarrow> detect event s | Some (fs, _) \<Rightarrow> (fs, s));
          s = observe_findings event findings s;
          prepared = (case given of None \<Rightarrow> build_tool_result_review_payload event findings (ev_id event)
                      | Some (_, p) \<Rightarrow> p);
          (base, p, s) = assess_result G gate event findings prepared limit_exceeded s
      in conclude_result G gate event findings prepared bytes limit_exceeded started base p s)"

definition pop_pending ::
  "json \<Rightarrow> 'a gw_scheme \<Rightarrow> pending_call option \<times> 'a gw_scheme" where
  "pop_pending v s =
     (case rid_of v of
        None \<Rightarrow> (None, s)
      | Some i \<Rightarrow> (map_of (gw_pending s) i, s\<lparr>gw_pending := ddel i (gw_pending s)\<rparr>))"

definition inspect_server_message ::
  "'a gw_scheme gateway \<Rightarrow> jdict \<Rightarrow> nat \<Rightarrow> bool \<Rightarrow> 'a gw_scheme \<Rightarrow> (exn + result_inspection) \<times> 'a gw_scheme" where
  "inspect_server_message G message bytes limit_exceeded s =
     (case pop_pending (dget message ''id'') s of
        (None, s) \<Rightarrow> (Inr passed_result, s)
      | (Some p, s) \<Rightarrow>
          (let (event, s) = server_event G message p s in
           case pe_result_gate (gateway_engine G) of
             Some gate \<Rightarrow>
               if ev_type event = ToolCallCompleted
               then inspect_tool_result G gate event bytes limit_exceeded None s
               else (Inr passed_result, record_event (gy_service G) event s)
           | None \<Rightarrow>
               (let s = record_event (gy_service G) event s;
                    s = (if ev_type event = ToolCallCompleted \<and> pe_guard (gateway_engine G) \<noteq> None
                         then snd (observe_result event s) else s)
                in (Inr passed_result, s))))"

record prepared_shadow =
  ps_event :: runtime_event
  ps_findings :: "finding list"
  ps_review :: prepared_review

definition prepare_shadow_tool_result ::
  "'w gateway \<Rightarrow> jdict \<Rightarrow> 'a gw_scheme \<Rightarrow> prepared_shadow option \<times> 'a gw_scheme" where
  "prepare_shadow_tool_result G message s =
     (case pop_pending (dget message ''id'') s of
        (None, s) \<Rightarrow> (None, s)
      | (Some p, s) \<Rightarrow>
          (let (event, s) = server_event G message p s in
           if ev_type event \<noteq> ToolCallCompleted then (None, record_event (gy_service G) event s)
           else (let (findings, s) = detect event s;
                     prepared = build_tool_result_review_payload event findings (ev_id event)
                 in (Some \<lparr>ps_event = event\<lparr>ev_result := result_preview prepared, ev_raw := []\<rparr>,
                          ps_findings = findings, ps_review = prepared\<rparr>, s))))"

definition inspect_prepared_shadow_tool_result ::
  "'a gw_scheme gateway \<Rightarrow> tool_result_gate_policy \<Rightarrow> prepared_shadow \<Rightarrow> nat \<Rightarrow> 'a gw_scheme \<Rightarrow>
   (exn + result_inspection) \<times> 'a gw_scheme" where
  "inspect_prepared_shadow_tool_result G gate prepared bytes s =
     inspect_tool_result G gate (ps_event prepared) bytes False
       (Some (ps_findings prepared, ps_review prepared)) s"

section \<open>Errors for the client and the end of a session\<close>

definition render_approval_block_response :: "request_id option \<Rightarrow> jdict \<Rightarrow> jdict" where
  "render_approval_block_response request_id outcome =
     (if py_str (dget_or outcome ''status'' (JStr ''denied'')) = ''expired''
      then render_approval_jsonrpc_error request_id ''Approval expired before human resolution''
             ''Approval request expired.'' (- 32003)
      else render_approval_jsonrpc_error request_id ''Denied by ZeroADR approval''
             (py_str (json_or (dget outcome ''resolution_comment'') (JStr ''Approval denied.''))) (- 32002))"

definition render_tool_result_error :: "request_id option \<Rightarrow> int \<Rightarrow> string \<Rightarrow> string \<Rightarrow> jdict" where
  "render_tool_result_error request_id code message reason =
     render_approval_jsonrpc_error request_id message reason code"

definition finalize_tool_result_approval ::
  "'w gateway \<Rightarrow> tool_result_gate_record \<Rightarrow> approval_status \<Rightarrow> 'a sys_scheme \<Rightarrow>
   tool_result_gate_record \<times> 'a sys_scheme" where
  "finalize_tool_result_approval G r status s =
     (let updated = r\<lparr>tg_approval_status := Some status,
                      tg_effective := (if status = Approved then Allow else Block)\<rparr>
      in (updated, if sv_store (gy_service G) then update_db (save_tool_result_gate_record updated) s else s))"

fun expire_results ::
  "'w gateway \<Rightarrow> (string \<times> tool_result_gate_record) list \<Rightarrow> approval_request list \<Rightarrow> 'a sys_scheme \<Rightarrow> 'a sys_scheme" where
  "expire_results G records [] s = s"
| "expire_results G records (request # rest) s =
     (if ap_stage request \<noteq> StageToolResult then expire_results G records rest s
      else case on_store (mark_approval_expired (ap_id request)) s of
             (Inl e, s) \<Rightarrow> expire_results G records rest s
           | (Inr a, s) \<Rightarrow>
               expire_results G records rest
                 (case map_of records (ap_id request) of
                    None \<Rightarrow> s
                  | Some r \<Rightarrow> snd (finalize_tool_result_approval G r Expired s)))"

text \<open>The dictionary keeps the last record of an approval.\<close>

definition records_by_approval :: "tool_result_gate_record list \<Rightarrow> (string \<times> tool_result_gate_record) list" where
  "records_by_approval rs =
     rev (concat (map (\<lambda>r. case tg_approval r of None \<Rightarrow> [] | Some i \<Rightarrow> if i = [] then [] else [(i, r)]) rs))"

definition expire_pending_tool_result_approvals :: "'w gateway \<Rightarrow> 'a sys_scheme \<Rightarrow> 'a sys_scheme" where
  "expire_pending_tool_result_approvals G s =
     (if \<not> sv_store (gy_service G) then s
      else expire_results G
             (records_by_approval (tool_result_gate_records_for_session (gy_session G) (sy_db s)))
             (list_approval_requests (Some Pending) (Some (gy_session G)) None 0 (sy_db s)) s)"

section \<open>What an inspection leaves unchanged\<close>

text \<open>A part of the state that clock readings, the database, the trace and the sessions do not touch
  survives every evaluation, review and inspection, if the adjudicators keep their contract.\<close>

locale untouched =
  fixes view :: "'a gw_scheme \<Rightarrow> 'b"
  assumes keeps [simp]: "view (s\<lparr>w_ids := n\<rparr>) = view s" "view (s\<lparr>w_walls := n\<rparr>) = view s"
    "view (s\<lparr>w_monos := n\<rparr>) = view s" "view (s\<lparr>sy_db := d\<rparr>) = view s" "view (s\<lparr>sy_trace := tr\<rparr>) = view s"
    "view (s\<lparr>co_sessions := c\<rparr>) = view s"
begin

lemma world_view [frame_simps]:
  "view (snd (new_ulid s)) = view s" "view (snd (utc_now s)) = view s"
  "view (snd (monotonic s)) = view s" "view (snd (detect e s)) = view s"
  "view (snd (new_event ty src se rq sv to ca cx ar re er ra s)) = view s"
  "view (snd (new_policy_decision p act r se ev fs s)) = view s"
  "view (snd (new_approval_request d se ev rq p r fs t c a sg rp ep s)) = view s"
  "view (update_db f s) = view s"
  "view (keep_event tr st e s) = view s"
  by (simp_all add: new_ulid_def utc_now_def monotonic_def engine.world_after new_event_def
      new_policy_decision_def new_approval_request_def update_db_def keep_event_def Let_def)

lemma evaluate_view [frame_simps]: "view (snd (evaluate E e fs s)) = view s"
  by (simp add: evaluate_def evaluate_policies_deciding frame_simps split: option.splits)

lemma record_event_view [frame_simps]: "view (record_event S e s) = view s"
  by (simp add: record_event_def frame_simps)

lemma consult_view:
  assumes "lawful aj"
  shows "view (snd (consult aj prepared s)) = view s"
proof (cases aj)
  case (Some a)
  then obtain n where "snd (aj_run a (pp_payload prepared) (pp_refs prepared) s) = s\<lparr>w_monos := n\<rparr>"
    using assms adjudicating.frame by (fastforce simp: lawful_def)
  then show ?thesis
    using Some by (auto simp: consult_def split: prod.splits sum.splits)
qed (simp add: consult_def)

lemma run_gate_view:
  assumes "lawful (sv_adjudicator S)"
  shows "view (snd (run_gate S g e fs d s)) = view s"
  using consult_view [OF assms, of "build_adjudication_payload e fs (str_or (pd_policy d) ''unnamed-policy'')"
      "snd (new_ulid s)"]
  by (auto simp: run_gate_def Let_def case_prod_beta frame_simps split: prod.splits sum.splits exn.splits)

lemma gated_decision_view:
  assumes "lawful (sv_adjudicator S)"
  shows "view (snd (gated_decision S gate e fs d s)) = view s"
proof (cases gate)
  case (Some g)
  obtain r s1 where r: "run_gate S g e fs d s = (r, s1)" by (metis surj_pair)
  then show ?thesis
    using Some run_gate_view [OF assms, of g e fs d s]
    by (auto simp: gated_decision_def r Let_def case_prod_beta decision_with_action_def frame_simps
        split: sum.splits)
qed (simp add: gated_decision_def)

lemma save_decision_view [frame_simps]: "view (snd (save_decision S e d s)) = view s"
  by (simp add: save_decision_def open_approval_def Let_def case_prod_beta frame_simps)

lemma assess_view [frame_simps]: "view (snd (snd (assess S e s))) = view s"
  by (simp add: assess_def Let_def case_prod_beta frame_simps)

lemma service_evaluate_view:
  assumes "lawful (sv_adjudicator S)"
  shows "view (snd (service_evaluate V S e s)) = view s"
proof -
  obtain fs d s1 where a: "assess S e s = (fs, d, s1)" by (metis prod_cases3)
  then have "view s1 = view s" using assess_view [of S e s] by simp
  then show ?thesis
    using gated_decision_view [OF assms, of _ e fs d s1]
    by (auto simp: service_evaluate_def a conclude_def Let_def case_prod_beta frame_simps
        split: sum.splits prod.splits)
qed

lemma session_view [frame_simps]:
  "view (expire_sessions s) = view s" "view (put_session sess st s) = view s"
  "view (snd (session_state sess s)) = view s"
  by (simp_all add: expire_sessions_def put_session_def session_state_def Let_def case_prod_beta
      frame_simps split: option.splits)

lemma update_state_view [frame_simps]:
  "view (update_state e fs s) = view s"
  by (simp_all add: update_state_def mark_compromised_def Let_def case_prod_beta frame_simps)

lemma semantic_review_view [frame_simps]: "view (snd (semantic_review C stage e fs s)) = view s"
  by (simp_all add: semantic_review_def Let_def case_prod_beta frame_simps split: option.splits)

lemma propose_view [frame_simps]:
  "view (snd (propose C stage e gate st fs base s)) = view s"
  using semantic_review_view [of C stage e fs s]
  by (auto simp: propose_def Let_def split: option.splits prod.splits sum.splits exn.splits)

lemma stage_findings_view [frame_simps]:
  "view (snd (stage_findings stage e st s)) = view s"
  by (simp_all add: stage_findings_def online_finding_def new_finding_def Let_def case_prod_beta frame_simps)

lemma review_stage_view [frame_simps]: "view (snd (review_stage C e stage gate s)) = view s"
  by (simp add: review_stage_def examine_def save_review_def Let_def case_prod_beta frame_simps)

lemma request_event_view [frame_simps]: "view (snd (request_event G m s)) = view s"
  by (simp add: request_event_def frame_simps)

lemma aj_run_view:
  assumes "lawful (Some a)"
  shows "view (snd (aj_run a p refs s)) = view s"
proof -
  obtain n where "snd (aj_run a p refs s) = s\<lparr>w_monos := n\<rparr>"
    using assms adjudicating.frame by (fastforce simp: lawful_def)
  then show ?thesis by simp
qed

lemma run_result_review_view:
  assumes "lawful (gy_result_reviewer G)"
  shows "view (snd (run_result_review G gate e fs prepared base s)) = view s"
proof (cases "gy_result_reviewer G")
  case (Some a)
  obtain res s1 where r: "aj_run a (pv_payload prepared) (pv_refs prepared) (snd (new_ulid s)) = (res, s1)"
    by (metis surj_pair)
  then have "view s1 = view s"
    using aj_run_view [of a] assms Some frame_simps by (metis snd_conv)
  then show ?thesis
    by (simp add: run_result_review_def Some r Let_def case_prod_beta frame_simps split: sum.splits exn.splits)
qed (simp add: run_result_review_def Let_def case_prod_beta frame_simps)

lemma save_result_outcome_view [frame_simps]:
  "view (snd (save_result_outcome G e d ad pv s)) = view s"
  by (simp add: save_result_outcome_def Let_def case_prod_beta frame_simps split: option.splits)

lemma conclude_result_view [frame_simps]:
  "view (snd (conclude_result G gate e fs prepared bytes over st base q s)) = view s"
  unfolding conclude_result_def Let_def case_prod_beta
  by (simp only: if_distrib [of snd] if_distrib [of view] snd_conv frame_simps if_cancel)

lemma inspect_tool_result_view:
  assumes "lawful (gy_result_reviewer G)"
  shows "view (snd (inspect_tool_result G gate e bytes over given s)) = view s"
proof -
  have p: "view (snd (propose_result G gate e fs prepared base over s)) = view s" for fs prepared base s
    by (simp add: propose_result_def Let_def run_result_review_view [OF assms])
  have a: "view (snd (snd (assess_result G gate e fs prepared over s))) = view s" for fs prepared s
    by (simp add: assess_result_def Let_def case_prod_beta p frame_simps)
  show ?thesis
    by (simp add: inspect_tool_result_def observe_findings_def Let_def case_prod_beta a frame_simps
        split: option.splits)
qed

lemma server_event_view [frame_simps]: "view (snd (server_event G m p s)) = view s"
  by (simp add: server_event_def frame_simps)

lemma observe_result_view [frame_simps]: "view (snd (observe_result e s)) = view s"
  by (simp add: observe_result_def Let_def case_prod_beta frame_simps)

end

interpretation pending: untouched gw_pending
  by unfold_locales simp_all

lemma session_db [frame_simps]:
  "sy_db (expire_sessions s) = sy_db s" "sy_db (put_session sess st s) = sy_db s"
  "sy_db (snd (session_state sess s)) = sy_db s"
  by (simp_all add: expire_sessions_def put_session_def session_state_def Let_def case_prod_beta
      frame_simps split: option.splits)

lemma new_ulid_sys [frame_simps]: "sy_db (snd (new_ulid s)) = sy_db s"
  by (simp add: new_ulid_def)

lemma update_state_db [frame_simps]: "sy_db (update_state e fs s) = sy_db s"
  by (simp add: update_state_def mark_compromised_def Let_def case_prod_beta frame_simps)

lemma semantic_review_db [frame_simps]: "sy_db (snd (semantic_review C stage e fs s)) = sy_db s"
  by (simp add: semantic_review_def Let_def case_prod_beta frame_simps split: option.splits)

lemma propose_db [frame_simps]: "sy_db (snd (propose C stage e gate st fs base s)) = sy_db s"
  using semantic_review_db [of C stage e fs s]
  by (auto simp: propose_def Let_def split: option.splits prod.splits sum.splits exn.splits)

lemma stage_findings_db [frame_simps]: "sy_db (snd (stage_findings stage e st s)) = sy_db s"
  by (simp add: stage_findings_def online_finding_def new_finding_def Let_def case_prod_beta frame_simps)

lemma review_stage_approvals [frame_simps]:
  "db_approvals (sy_db (snd (review_stage C e stage gate s))) = db_approvals (sy_db s)"
  by (simp add: review_stage_def examine_def save_review_def update_db_def save_runtime_gate_record_def
      note_session_def save_event_approvals Let_def case_prod_beta frame_simps)

section \<open>Requests\<close>

lemma evaluate_event: "pd_event (fst (evaluate E e fs w)) = ev_id e"
  by (simp add: evaluate_def evaluate_policies_deciding split: option.splits)

lemma service_decision_event:
  assumes "service_evaluate V S e s = (Inr rd, s')"
  shows "pd_event (rd_decision rd) = ev_id e"
proof -
  from assms obtain d s2 gate s3 where
    a: "assess S e s = (rd_findings rd, d, s2)"
    and g: "gated_decision S gate e (rd_findings rd) d s2 = (Inr (rd_decision rd, rd_adjudication rd), s3)"
    by (rule service_evaluate_steps)
  have "pd_event (fst (snd (assess S e s))) = ev_id e"
    by (simp add: assess_def Let_def case_prod_beta evaluate_event)
  then have "pd_event d = ev_id e" by (simp add: a)
  then show ?thesis
    using g by (auto simp: gated_decision_def decision_with_action_def Let_def case_prod_beta
        split: option.splits if_splits prod.splits sum.splits
        dest!: arg_cong [of _ "rd_decision rd" pd_event])
qed

text \<open>What the inspection of a call went through.\<close>

lemma inspect_client_parts:
  assumes "inspect_client_message V G m s = (Inr r, s')" "dget m ''method'' = JStr ''tools/call''"
    and "dget m ''id'' = JNull \<or> rid_of (dget m ''id'') \<noteq> None"
  obtains event s0 rd s1 d s2 where
    "request_event G m s = (event, s0)" "service_evaluate V (gy_service G) event s0 = (Inr rd, s1)"
    "apply_request_gate G event (rd_decision rd) s1 = (Inr d, s2)"
    "answer_request G m event d (rd_approval rd) s2 = (r, s')"
proof -
  obtain event s0 where e: "request_event G m s = (event, s0)" by (metis surj_pair)
  obtain rd s1 where rd: "service_evaluate V (gy_service G) event s0 = (Inr rd, s1)"
    using assms by (auto simp: inspect_client_message_def e split: prod.splits sum.splits if_splits)
  obtain d s2 where d: "apply_request_gate G event (rd_decision rd) s1 = (Inr d, s2)"
    using assms by (auto simp: inspect_client_message_def e rd split: prod.splits sum.splits if_splits)
  show ?thesis
    by (rule that [OF e rd d], insert assms)
       (auto simp: inspect_client_message_def e rd d split: prod.splits if_splits)
qed

lemma apply_request_gate_frame:
  assumes "apply_request_gate G event d s = (res, s')"
  shows "gw_pending s' = gw_pending s" "db_approvals (sy_db s') = db_approvals (sy_db s)"
  using assms pending.review_stage_view [of "gateway_coordinator G" event StagePreTool "pe_request_gate (gateway_engine G)" s]
    review_stage_approvals [of "gateway_coordinator G" event StagePreTool "pe_request_gate (gateway_engine G)" s]
  by (auto simp: apply_request_gate_def review_tool_request_def gateway_coordinator_def case_prod_beta
      frame_simps Let_def split: if_splits sum.splits prod.splits)

text \<open>C11. With a store, the inspection of a tool call ends in exactly one of three ways. The call is
  answered by an error and not registered; or it needs an approval, which is then pending in the
  store for this very call, and it is not registered either; or it is passed on and, if it has an
  id, registered under it, and then the policies allow it and the tool request gate, if there is
  one, reviewed it with an action that neither blocks nor asks.\<close>

theorem call_passed_only_if_allowed:
  assumes "inspect_client_message V G m s = (Inr r, s')" "dget m ''method'' = JStr ''tools/call''"
    and "sv_store (gy_service G)" "lawful (sv_adjudicator (gy_service G))"
  defines "event \<equiv> fst (request_event G m s)"
  shows "case (ci_block r, ci_approval r) of
      (Some _, a) \<Rightarrow> a = None \<and> gw_pending s' = gw_pending s
    | (None, Some i) \<Rightarrow> gw_pending s' = gw_pending s \<and>
        (\<exists>a. get_approval_request i (sy_db s') = Some a \<and> ap_status a = Pending \<and> ap_event a = ev_id event)
    | (None, None) \<Rightarrow>
        gw_pending s' = (case pending_of m event of None \<Rightarrow> gw_pending s | Some p \<Rightarrow> dset (pc_id p) p (gw_pending s)) \<and>
        (\<exists>rd s1. service_evaluate V (gy_service G) event (snd (request_event G m s)) = (Inr rd, s1) \<and>
           pd_action (rd_decision rd) \<in> {Allow, Alert} \<and>
           (pe_request_gate (gateway_engine G) \<noteq> None \<longrightarrow>
             (\<exists>gate s2. review_tool_request (gateway_coordinator G) event s1 = (Inr gate, s2)
                \<and> gt_effective gate \<notin> {Block, RequireApproval})))"
proof (cases "dget m ''id'' = JNull \<or> rid_of (dget m ''id'') \<noteq> None")
  case False
  then show ?thesis using assms(1,2) by (auto simp: inspect_client_message_def passed_client_def)
next
  case True
  from assms(1,2) True obtain s0 rd s1 d s2 where
    e: "request_event G m s = (event, s0)" and rd: "service_evaluate V (gy_service G) event s0 = (Inr rd, s1)"
    and d: "apply_request_gate G event (rd_decision rd) s1 = (Inr d, s2)"
    and a: "answer_request G m event d (rd_approval rd) s2 = (r, s')"
    unfolding event_def by (rule inspect_client_parts) auto
  have "gw_pending s0 = gw_pending s" using e by (metis pending.request_event_view snd_conv)
  moreover have "gw_pending s1 = gw_pending s0"
    using pending.service_evaluate_view [OF assms(4), of V event s0] rd by simp
  ultimately have p: "gw_pending s2 = gw_pending s" using apply_request_gate_frame(1) [OF d] by simp
  have stored: "case rd_approval rd of None \<Rightarrow> True
      | Some a \<Rightarrow> get_approval_request (ap_id a) (sy_db s2) = Some a \<and> ap_status a = Pending \<and> ap_event a = ev_id event"
  proof -
    from rd obtain s3 where c: "conclude (gy_service G) event (rd_findings rd) (rd_decision rd) (rd_adjudication rd) s3 = (rd, s1)"
      by (rule service_evaluate_steps)
    show ?thesis
      using conclude_stored [OF assms(3) c] service_decision_event [OF rd]
        get_approval_request_same [OF apply_request_gate_frame(2) [OF d]]
      by (auto split: option.splits)
  qed
  have gate: "pd_action d \<notin> {Block, RequireApproval} \<Longrightarrow> d = rd_decision rd \<and> (pe_request_gate (gateway_engine G) \<noteq> None \<longrightarrow>
             (\<exists>gate s2. review_tool_request (gateway_coordinator G) event s1 = (Inr gate, s2)
                \<and> gt_effective gate \<notin> {Block, RequireApproval}))"
    using d by (cases "review_tool_request (gateway_coordinator G) event s1")
      (auto simp: apply_request_gate_def Let_def case_prod_beta split: if_splits sum.splits)
  show ?thesis
  proof (cases "pd_action d \<in> {Block, RequireApproval}")
    case True
    then show ?thesis
      using a p stored assms(3)
      by (auto simp: answer_request_def request_approval_def passed_client_def Let_def case_prod_beta frame_simps
         update_db_def get_approval_request_save split: option.splits if_splits)
  next
    case False
    then have "r = passed_client\<lparr>ci_pending := pending_of m event\<rparr>"
      "gw_pending s' = (case pending_of m event of None \<Rightarrow> gw_pending s | Some p \<Rightarrow> dset (pc_id p) p (gw_pending s))"
      using a p by (auto simp: answer_request_def Let_def split: option.splits)
    moreover have "pd_action (rd_decision rd) \<in> {Allow, Alert}"
      using False gate by (cases "pd_action d") auto
    ultimately show ?thesis
      using gate [OF False] rd e by (simp add: passed_client_def)
  qed
qed

text \<open>A block of the policies does not survive a tool request gate that asks a person: the call
  waits for an approval and is passed on if it is granted.\<close>

lemma request_gate_softens_block:
  assumes "request_event G m s = (event, s0)" "service_evaluate V (gy_service G) event s0 = (Inr rd, s1)"
    and "pd_action (rd_decision rd) = Block" "pe_request_gate (gateway_engine G) \<noteq> None"
    and "review_tool_request (gateway_coordinator G) event s1 = (Inr gate, s2)" "gt_effective gate = RequireApproval"
    and "dget m ''method'' = JStr ''tools/call''" "rid_of (dget m ''id'') \<noteq> None" "sv_store (gy_service G)"
  shows "\<exists>r s'. inspect_client_message V G m s = (Inr r, s') \<and> ci_block r = None \<and> ci_approval r \<noteq> None"
  using assms
  by (auto simp: inspect_client_message_def apply_request_gate_def answer_request_def request_approval_def
      passed_client_def Let_def case_prod_beta)

section \<open>Matching responses\<close>

text \<open>Every registered call stands under its own id, once, with the event of its request.\<close>

definition pending_ok :: "'w gateway \<Rightarrow> 'a gw_scheme \<Rightarrow> bool" where
  "pending_ok G s =
     (distinct (map fst (gw_pending s)) \<and>
      (\<forall>(i, p) \<in> set (gw_pending s). pc_id p = i \<and> ev_request (pc_event p) = Some i
         \<and> ev_session (pc_event p) = gy_session G \<and> ev_type (pc_event p) = ToolCallRequested
         \<and> ev_tool (pc_event p) = pc_tool p \<and> ev_arguments (pc_event p) = Some (pc_arguments p)))"

lemma pending_ok_same: "gw_pending s = gw_pending s' \<Longrightarrow> pending_ok G s = pending_ok G s'"
  by (simp add: pending_ok_def)

lemma pending_ok_register:
  assumes "pending_ok G s" "pending_of m (fst (request_event G m w)) = Some p"
  shows "pending_ok G (s\<lparr>gw_pending := dset (pc_id p) p (gw_pending s)\<rparr>)"
  using assms
  by (auto simp: pending_ok_def pending_of_def request_event_def distinct_dset dest!: in_set_dset)

lemma pop_pending_ok:
  assumes "pending_ok G s"
  shows "pending_ok G (snd (pop_pending v s))"
  using assms by (auto simp: pending_ok_def pop_pending_def ddel_def split: option.splits
      intro: distinct_map_filter)

definition register_pending :: "pending_call \<Rightarrow> 'a gw_scheme \<Rightarrow> 'a gw_scheme" where
  "register_pending p s = s\<lparr>gw_pending := dset (pc_id p) p (gw_pending s)\<rparr>"

lemma inspect_client_ok:
  assumes "pending_ok G s" "lawful (sv_adjudicator (gy_service G))"
  shows "pending_ok G (snd (inspect_client_message V G m s))"
proof -
  obtain e s0 where e: "request_event G m s = (e, s0)" by (metis surj_pair)
  then have s0: "gw_pending s0 = gw_pending s" by (metis pending.request_event_view snd_conv)
  obtain rd s1 where rd: "service_evaluate V (gy_service G) e s0 = (rd, s1)" by (metis surj_pair)
  then have s1: "pending_ok G s1"
    using pending.service_evaluate_view [OF assms(2), of V e s0] s0 assms(1) by (auto simp: pending_ok_def)
  have "pending_ok G (snd (apply_request_gate G e d s1))" for d
    using apply_request_gate_frame(1) [of G e d s1] s1 by (metis pending_ok_same surjective_pairing)
  moreover have "pending_ok G (snd (answer_request G m e d ap t))" if "pending_ok G t" for d ap t
    using that pending_ok_register [of G t m s] e
    by (auto simp: answer_request_def request_approval_def Let_def case_prod_beta frame_simps pending_ok_def
        split: option.splits)
  ultimately show ?thesis
    using assms(1) s1 by (auto simp: inspect_client_message_def e rd Let_def case_prod_beta split: sum.splits prod.splits)
qed

lemma inspect_server_gw:
  assumes "lawful (gy_result_reviewer G)"
  shows "gw_pending (snd (inspect_server_message G m bytes over s)) = gw_pending (snd (pop_pending (dget m ''id'') s))"
proof -
  obtain p s1 where p: "pop_pending (dget m ''id'') s = (p, s1)" by (metis surj_pair)
  show ?thesis
    by (simp add: inspect_server_message_def p Let_def case_prod_beta frame_simps
        pending.inspect_tool_result_view [OF assms] split: option.splits)
qed

lemma prepare_shadow_gw:
  "gw_pending (snd (prepare_shadow_tool_result G m s)) = gw_pending (snd (pop_pending (dget m ''id'') s))"
proof -
  obtain p s1 where p: "pop_pending (dget m ''id'') s = (p, s1)" by (metis surj_pair)
  show ?thesis
    by (simp add: prepare_shadow_tool_result_def p Let_def case_prod_beta frame_simps split: option.splits)
qed

text \<open>What the proxy does with its runtime, in any order: the inspection of requests and responses,
  the registration of an approved call and the review of a response in the background.\<close>

inductive gateway_steps :: "validators \<Rightarrow> 'a gw_scheme gateway \<Rightarrow> 'a gw_scheme \<Rightarrow> 'a gw_scheme \<Rightarrow> bool"
  for V G where
  start: "gateway_steps V G s s"
| client: "gateway_steps V G s s' \<Longrightarrow> gateway_steps V G s (snd (inspect_client_message V G m s'))"
| approved: "gateway_steps V G s s' \<Longrightarrow> gateway_steps V G s t \<Longrightarrow> inspect_client_message V G m s' = (Inr r, s'') \<Longrightarrow>
    ci_pending r = Some p \<Longrightarrow> gateway_steps V G s (register_pending p t)"
| server: "gateway_steps V G s s' \<Longrightarrow> gateway_steps V G s (snd (inspect_server_message G m bytes over s'))"
| prepared: "gateway_steps V G s s' \<Longrightarrow> gateway_steps V G s (snd (prepare_shadow_tool_result G m s'))"
| reviewed: "gateway_steps V G s s' \<Longrightarrow>
    gateway_steps V G s (snd (inspect_prepared_shadow_tool_result G gate q bytes s'))"

lemma inspected_pending:
  assumes "inspect_client_message V G m s = (Inr r, s')" "ci_pending r = Some p"
  shows "pending_of m (fst (request_event G m s)) = Some p"
proof (cases "dget m ''method'' = JStr ''tools/call'' \<and> (dget m ''id'' = JNull \<or> rid_of (dget m ''id'') \<noteq> None)")
  case True
  with assms(1) show ?thesis
    by (elim inspect_client_parts [of V G m s r s'])
       (use assms(2) in \<open>auto simp: answer_request_def passed_client_def Let_def case_prod_beta split: if_splits\<close>)
qed (use assms in \<open>auto simp: inspect_client_message_def passed_client_def split: if_splits\<close>)

text \<open>C13. In every state the runtime reaches, the registered calls have pairwise different ids, each
  stands under its own id, and each carries the request event with this id, session, tool and
  arguments.\<close>

theorem pending_calls_well_formed:
  assumes "gateway_steps V G s s'" "pending_ok G s"
    and "lawful (sv_adjudicator (gy_service G))" "lawful (gy_result_reviewer G)"
  shows "pending_ok G s'"
  using assms
proof (induction rule: gateway_steps.induct)
  case (approved s s' t m r s'' p)
  then show ?case
    using pending_ok_register [OF _ inspected_pending [OF approved.hyps(3,4)]]
    by (simp add: register_pending_def)
next
  case (server s s' m bytes over)
  then show ?case
    using pop_pending_ok inspect_server_gw pending_ok_same by metis
next
  case (prepared s s' m)
  then show ?case
    using pop_pending_ok prepare_shadow_gw pending_ok_same by metis
next
  case (reviewed s s' gate q bytes)
  then show ?case
    using pending.inspect_tool_result_view pending_ok_same
    unfolding inspect_prepared_shadow_tool_result_def by metis
qed (simp_all add: inspect_client_ok)

lemma pop_absent: "map_of (gw_pending s) i = None \<Longrightarrow> rid_of v = Some i \<Longrightarrow> pop_pending v s = (None, s)"
proof -
  assume a: "map_of (gw_pending s) i = None" "rid_of v = Some i"
  then have "ddel i (gw_pending s) = gw_pending s"
    by (force simp: ddel_def map_of_eq_None_iff intro!: filter_True)
  with a show ?thesis by (simp add: pop_pending_def)
qed


section \<open>The gate of the results\<close>

text \<open>What the answer of the reviewer stands for; no answer or a rejected one asks a person.\<close>

definition reviewed_action ::
  "tool_result_gate_policy \<Rightarrow> (exn + provider_adjudication) option \<Rightarrow> policy_action" where
  "reviewed_action gate answer =
     (case answer of
        Some (Inr pr) \<Rightarrow> if pa_latency_ms pr < 0 then RequireApproval else result_verdict_action gate (pa_result pr)
      | _ \<Rightarrow> RequireApproval)"

lemma run_result_review_action:
  "\<exists>w. rp_action (fst (run_result_review G gate e fs prepared base s)) =
     reviewed_action gate (map_option (\<lambda>a. fst (aj_run a (pv_payload prepared) (pv_refs prepared) w))
       (gy_result_reviewer G))"
  by (rule exI [of _ "snd (new_ulid s)"])
     (auto simp: run_result_review_def reviewed_action_def Let_def case_prod_beta
       split: option.splits sum.splits exn.splits)

lemma propose_result_action:
  "\<exists>w. rp_action (fst (propose_result G gate e fs prepared base over s)) =
     (if over then if trg_mode gate = Enforce then Block else Allow
      else if trg_review gate = Rules then pd_action base
      else if \<exists>f \<in> set fs. fi_severity f = Critical then trg_true_positive gate
      else reviewed_action gate (map_option (\<lambda>a. fst (aj_run a (pv_payload prepared) (pv_refs prepared) w))
       (gy_result_reviewer G)))"
  using run_result_review_action [of G gate e fs prepared base s]
  by (cases "trg_review gate") (auto simp: propose_result_def Let_def)

lemma save_result_outcome_stored:
  assumes "sv_store (gy_service G)" "pd_action d = RequireApproval"
    and "save_result_outcome G e d ad pv s = (ap, s')"
  shows "\<exists>a. ap = Some a \<and> get_approval_request (ap_id a) (sy_db s') = Some a \<and> ap_status a = Pending
     \<and> ap_stage a = StageToolResult \<and> ap_event a = ev_id e \<and> ap_arguments a = None"
  using assms
  by (auto simp: save_result_outcome_def Let_def case_prod_beta update_db_def get_approval_request_save)

lemma conclude_result_outcome:
  assumes "conclude_result G gate e fs prepared bytes over started base p s = (Inr r, s')"
  shows "ri_action r = shadowed gate (rp_action p) \<and>
    (sv_store (gy_service G) \<and> ri_action r = RequireApproval \<longrightarrow>
      (\<exists>a. ri_approval r = Some a \<and> get_approval_request (ap_id a) (sy_db s') = Some a \<and> ap_status a = Pending
         \<and> ap_stage a = StageToolResult \<and> ap_event a = ev_id e \<and> ap_arguments a = None))"
proof -
  obtain d s1 where nd: "new_policy_decision (pd_policy base) (shadowed gate (rp_action p))
             (if trg_mode gate = Shadow then ''Tool Result Gate shadow observation.''
              else ''Tool Result Gate enforced the reviewed result.'')
             (ev_session e) (ev_id e) (map fi_id fs) s = (d, s1)"
    by (metis surj_pair)
  then have d: "pd_action d = shadowed gate (rp_action p)" by (metis fst_conv new_policy_decision_sel(2))
  obtain ap s2 where o: "save_result_outcome G e d (rp_adjudication p) (result_preview prepared) s1 = (ap, s2)"
    by (metis surj_pair)
  have r: "ri_action r = shadowed gate (rp_action p)" "ri_approval r = ap"
    "db_approvals (sy_db s') = db_approvals (sy_db s2)"
    using assms
    by (auto simp: conclude_result_def nd o Let_def case_prod_beta frame_simps update_db_def
        save_tool_result_gate_record_def note_session_def split: if_splits)
  show ?thesis
    using save_result_outcome_stored [OF _ _ o] d get_approval_request_same [OF r(3)] by (auto simp: r(1,2))
qed

text \<open>The action on a tool result. In shadow mode it is always to allow. An enforcing gate blocks
  a response beyond the size limit; without a semantic review it follows the policies; with one it
  takes the true-positive action on a critical finding and otherwise does what the answer of the
  reviewer stands for, and a missing, failing or unsure reviewer means that a person is asked.
  With a store, a person is asked by a pending request that holds no arguments of the call.\<close>

theorem result_gate_action:
  fixes s :: "'a gw_scheme"
  assumes "inspect_tool_result G gate e bytes over None s = (Inr r, s')"
  defines "fs \<equiv> fst (detect e (snd (monotonic s)))"
  shows "(\<exists>w. ri_action r =
      (if trg_mode gate = Shadow then Allow
       else if over then Block
       else if trg_review gate = Rules then base_action (gateway_engine G) e fs
       else if \<exists>f \<in> set fs. fi_severity f = Critical then trg_true_positive gate
       else (let p = build_tool_result_review_payload e fs (ev_id e) in
         reviewed_action gate (map_option (\<lambda>a. fst (aj_run a (pv_payload p) (pv_refs p) w)) (gy_result_reviewer G))))) \<and>
    (sv_store (gy_service G) \<and> ri_action r = RequireApproval \<longrightarrow>
      (\<exists>a. ri_approval r = Some a \<and> get_approval_request (ap_id a) (sy_db s') = Some a \<and> ap_status a = Pending
         \<and> ap_stage a = StageToolResult \<and> ap_event a = ev_id e \<and> ap_arguments a = None))"
proof -
  define prepared where "prepared = build_tool_result_review_payload e fs (ev_id e)"
  define s0 where "s0 = observe_findings e fs (snd (detect e (snd (monotonic s))))"
  obtain base p s1 where a: "assess_result G gate e fs prepared over s0 = (base, p, s1)" by (metis prod_cases3)
  have c: "conclude_result G gate e fs prepared bytes over (fst (monotonic s)) base p s1 = (Inr r, s')"
    using assms(1) a by (simp add: inspect_tool_result_def Let_def case_prod_beta fs_def s0_def prepared_def)
  have "pd_action (fst (assess_result G gate e fs prepared over s0)) = base_action (gateway_engine G) e fs
      \<and> (\<exists>t. fst (snd (assess_result G gate e fs prepared over s0)) =
           fst (propose_result G gate e fs prepared (fst (assess_result G gate e fs prepared over s0)) over t))"
    by (auto simp: assess_result_def Let_def case_prod_beta pd_action_evaluate)
  then obtain t where t: "pd_action base = base_action (gateway_engine G) e fs"
      "p = fst (propose_result G gate e fs prepared base over t)"
    by (auto simp: a)
  obtain w where
    w: "rp_action p = (if over then if trg_mode gate = Enforce then Block else Allow
      else if trg_review gate = Rules then base_action (gateway_engine G) e fs
      else if \<exists>f \<in> set fs. fi_severity f = Critical then trg_true_positive gate
      else reviewed_action gate (map_option (\<lambda>a. fst (aj_run a (pv_payload prepared) (pv_refs prepared) w))
       (gy_result_reviewer G)))"
    using propose_result_action [of G gate e fs prepared base over t] unfolding t(1) t(2) [symmetric] by (rule exE)
  have "ri_action r = shadowed gate (rp_action p)" using conclude_result_outcome [OF c] by blast
  then have "ri_action r =
      (if trg_mode gate = Shadow then Allow
       else if over then Block
       else if trg_review gate = Rules then base_action (gateway_engine G) e fs
       else if \<exists>f \<in> set fs. fi_severity f = Critical then trg_true_positive gate
       else reviewed_action gate (map_option (\<lambda>a. fst (aj_run a (pv_payload prepared) (pv_refs prepared) w))
         (gy_result_reviewer G)))"
    unfolding w by (cases "trg_mode gate") (simp_all add: shadowed_def)
  then show ?thesis
    using conclude_result_outcome [OF c] unfolding Let_def prepared_def by blast
qed

section \<open>A concrete gateway\<close>

definition result_gate1 :: tool_result_gate_policy where
  "result_gate1 = \<lparr>trg_mode = Enforce, trg_review = Hybrid, trg_min_confidence = 8 / 10, trg_true_positive = Block,
     trg_false_positive = Allow, trg_max_pending = 64, trg_max_bytes = 1048576\<rparr>"

definition gateway1 :: "gw gateway" where
  "gateway1 =
     \<lparr>gy_session = ''s'', gy_server = None,
      gy_service = \<lparr>sv_source = McpGateway, sv_engine = empty_engine\<lparr>pe_result_gate := Some result_gate1\<rparr>,
        sv_trace = True, sv_store = True, sv_adjudicator = None\<rparr>,
      gy_stage_reviewer = None, gy_result_reviewer = None\<rparr>"

definition gw0 :: gw where
  "gw0 = \<lparr>w_ms = (\<lambda>n. n), w_rand = (\<lambda>n. n), w_ids = 0, w_wall = (\<lambda>n. int n), w_walls = 0,
          w_mono = (\<lambda>n. 0), w_monos = 0, sy_db = empty_store, sy_trace = [], co_sessions = [], gw_pending = []\<rparr>"

definition call1 :: jdict where
  "call1 = [(''method'', JStr ''tools/call''), (''id'', JInt 1), (''params'', JObj [(''name'', JStr ''fetch'')])]"

definition reply1 :: jdict where
  "reply1 = [(''id'', JInt 1), (''result'', JStr ''done'')]"

lemma gateway1_lawful: "lawful (sv_adjudicator (gy_service gateway1))" "lawful (gy_result_reviewer gateway1)"
  by (simp_all add: gateway1_def lawful_def)

lemma gateway1_policies:
  "pe_policies (sv_engine (gy_service gateway1)) = []" "pe_request_gate (gateway_engine gateway1) = None"
  "sv_store (gy_service gateway1)"
  by (simp_all add: gateway1_def gateway_engine_def empty_engine_def)

lemma evaluate_without_policies:
  assumes "pe_policies (sv_engine S) = []"
  shows "\<exists>rd s'. service_evaluate V S e s = (Inr rd, s') \<and> pd_action (rd_decision rd) \<in> {Allow, Alert}"
proof -
  obtain fs d s2 where a: "assess S e s = (fs, d, s2)" by (metis prod_cases3)
  have "pd_action d \<in> {Allow, Alert}"
    using assess_action [OF a] assms by (simp add: base_action_def deciding_def)
  then show ?thesis
    using assms by (simp add: service_evaluate_def a llm_adjudication_for_def gated_decision_def conclude_def
        Let_def case_prod_beta)
qed

lemma call1_passed:
  "\<exists>r s'. inspect_client_message validators1 gateway1 call1 gw0 = (Inr r, s') \<and> ci_block r = None \<and> ci_approval r = None"
proof -
  obtain e s0 where e: "request_event gateway1 call1 gw0 = (e, s0)" by (metis surj_pair)
  obtain rd s1 where rd: "service_evaluate validators1 (gy_service gateway1) e s0 = (Inr rd, s1)"
      "pd_action (rd_decision rd) \<in> {Allow, Alert}"
    using evaluate_without_policies [OF gateway1_policies(1)] by blast
  have "dget call1 ''method'' = JStr ''tools/call''" "dget call1 ''id'' = JInt 1"
    by (simp_all add: call1_def)
  then show ?thesis
    using rd(2) by (auto simp: inspect_client_message_def e rd(1) rid_of_def apply_request_gate_def gateway1_policies
        answer_request_def passed_client_def Let_def)
qed

theorem call_passed_only_if_allowed_witness:
  "\<exists>r s'. inspect_client_message validators1 gateway1 call1 gw0 = (Inr r, s') \<and> RInt 1 \<in> fst ` set (gw_pending s')"
proof -
  obtain r s' where r: "inspect_client_message validators1 gateway1 call1 gw0 = (Inr r, s')"
      "ci_block r = None" "ci_approval r = None"
    using call1_passed by blast
  have m: "dget call1 ''method'' = JStr ''tools/call''" "rid_of (dget call1 ''id'') = Some (RInt 1)"
    by (simp_all add: call1_def rid_of_def)
  from call_passed_only_if_allowed [OF r(1) m(1) gateway1_policies(3) gateway1_lawful(1)] r m(2)
  show ?thesis by (simp add: pending_of_def gw0_def)
qed

lemma gw0_ok: "pending_ok gateway1 gw0"
  by (simp add: pending_ok_def gw0_def)

theorem pending_calls_well_formed_witness:
  "pending_ok gateway1 (snd (inspect_server_message gateway1 reply1 0 False
     (snd (inspect_client_message validators1 gateway1 call1 gw0))))"
  by (rule pending_calls_well_formed [OF _ gw0_ok gateway1_lawful, of validators1])
     (intro gateway_steps.intros)


lemma over_limit_returns:
  "\<exists>r s'. inspect_tool_result gateway1 result_gate1 read_event 0 True None gw0 = (Inr r, s')"
proof -
  have c: "\<exists>r s'. conclude_result G gate e fs prepared bytes over st base p s = (Inr r, s')"
    if "rp_confidence p = None" for G :: "gw gateway" and gate e fs prepared bytes over st base p s
    using that by (simp add: conclude_result_def result_gate_record_def Let_def case_prod_beta)
  have "rp_confidence (fst (snd (assess_result G gate e fs prepared True s))) = None"
    for G :: "gw gateway" and gate e fs prepared s
    by (simp add: assess_result_def propose_result_def Let_def case_prod_beta)
  then show ?thesis
    by (simp add: inspect_tool_result_def Let_def case_prod_beta c)
qed

theorem result_gate_action_witness:
  "\<exists>r s'. inspect_tool_result gateway1 result_gate1 read_event 0 True None gw0 = (Inr r, s') \<and> ri_action r = Block"
proof -
  obtain r s' where r: "inspect_tool_result gateway1 result_gate1 read_event 0 True None gw0 = (Inr r, s')"
    using over_limit_returns by blast
  from result_gate_action [OF r] r show ?thesis by (simp add: result_gate1_def)
qed

end
