(* ===== verification/JsonParse.thy ===== *)
theory JsonParse
  imports PyStd
begin

text \<open>
  \<open>json.loads\<close>: the scanner of Python's standard library, with its three kinds of failure. A
  malformed text and an integer of more than 4300 digits raise \<open>ValueError\<close>s; an array or object
  nested deeper than the interpreter can recurse raises \<open>RecursionError\<close>, and \<open>depth\<close> is the
  depth that is left. What \<open>float\<close> makes of a numeral is the argument \<open>fl\<close>. A code point beyond
  Latin-1 is represented by the last one of it.
\<close>

section \<open>Scanning\<close>

definition json_error :: exn where
  "json_error = PyError ''JSONDecodeError''"

definition json_ws :: "char \<Rightarrow> bool" where
  "json_ws c = (ord c = 32 \<or> ord c = 9 \<or> ord c = 10 \<or> ord c = 13)"

definition skip_ws :: "string \<Rightarrow> string" where
  "skip_ws s = dropWhile json_ws s"

definition dec_digit :: "char \<Rightarrow> bool" where
  "dec_digit c = (48 \<le> ord c \<and> ord c \<le> 57)"

definition hex_value :: "char \<Rightarrow> nat option" where
  "hex_value c =
     (let n = ord c in
      if dec_digit c then Some (n - 48)
      else if 97 \<le> n \<and> n \<le> 102 then Some (n - 87)
      else if 65 \<le> n \<and> n \<le> 70 then Some (n - 55)
      else None)"

definition code_point :: "nat \<Rightarrow> char" where
  "code_point n = (if n < 256 then char_of n else char_of (255 :: nat))"

fun hex4 :: "string \<Rightarrow> (nat \<times> string) option" where
  "hex4 (a # b # c # d # r) =
     (case (hex_value a, hex_value b, hex_value c, hex_value d) of
        (Some a, Some b, Some c, Some d) \<Rightarrow> Some (((a * 16 + b) * 16 + c) * 16 + d, r)
      | _ \<Rightarrow> None)"
| "hex4 _ = None"

text \<open>The four digits after \<open>\\u\<close>; two escapes that form a surrogate pair are one code point.\<close>

definition scan_unicode :: "string \<Rightarrow> (char \<times> string) option" where
  "scan_unicode s =
     (case hex4 s of
        None \<Rightarrow> None
      | Some (n, r) \<Rightarrow>
          if 55296 \<le> n \<and> n \<le> 56319 \<and> take 2 r = [CHR 92, CHR ''u'']
          then (case hex4 (drop 2 r) of
                  None \<Rightarrow> None
                | Some (m, r') \<Rightarrow>
                    if 56320 \<le> m \<and> m \<le> 57343
                    then Some (code_point (65536 + (n - 55296) * 1024 + (m - 56320)), r')
                    else Some (code_point n, r))
          else Some (code_point n, r))"

definition json_escapes :: "(char \<times> char) list" where
  "json_escapes =
     [(CHR 34, CHR 34), (CHR 92, CHR 92), (CHR ''/'', CHR ''/''), (CHR ''b'', CHR 8), (CHR ''f'', CHR 12),
      (CHR ''n'', CHR 10), (CHR ''r'', CHR 13), (CHR ''t'', CHR 9)]"

definition prepend :: "char \<Rightarrow> (string \<times> string) option \<Rightarrow> (string \<times> string) option" where
  "prepend c x = map_option (\<lambda>(t, r). (c # t, r)) x"

lemma hex4_length: "hex4 s = Some (n, r) \<Longrightarrow> length s = length r + 4"
  by (induction s rule: hex4.induct) (auto split: option.splits prod.splits)

lemma scan_unicode_length: "scan_unicode s = Some (c, r) \<Longrightarrow> length r < length s"
  by (auto simp: scan_unicode_def split: option.splits if_splits dest!: hex4_length)

text \<open>The rest of a string after its opening quote.\<close>

function scan_str :: "string \<Rightarrow> (string \<times> string) option" where
  "scan_str [] = None"
| "scan_str (c # cs) =
     (if ord c = 34 then Some ([], cs)
      else if ord c = 92 then
        (case cs of
           [] \<Rightarrow> None
         | e # es \<Rightarrow>
             if e = CHR ''u''
             then (case scan_unicode es of None \<Rightarrow> None | Some (ch, r) \<Rightarrow> prepend ch (scan_str r))
             else (case map_of json_escapes e of None \<Rightarrow> None | Some ch \<Rightarrow> prepend ch (scan_str es)))
      else if ord c < 32 then None
      else prepend c (scan_str cs))"
  by pat_completeness auto
termination
  by (relation "measure length") (auto dest: scan_unicode_length)

section \<open>Numbers\<close>

definition digits_value :: "string \<Rightarrow> nat" where
  "digits_value s = foldl (\<lambda>a c. 10 * a + (ord c - 48)) 0 s"

definition int_part :: "string \<Rightarrow> (string \<times> string) option" where
  "int_part s =
     (case s of
        [] \<Rightarrow> None
      | c # r \<Rightarrow> if c = CHR ''0'' then Some (''0'', r)
                else if dec_digit c then Some (takeWhile dec_digit s, dropWhile dec_digit s)
                else None)"

definition fraction_part :: "string \<Rightarrow> string \<times> string" where
  "fraction_part s =
     (case s of
        c # r \<Rightarrow> if c = CHR ''.'' \<and> takeWhile dec_digit r \<noteq> []
                then (c # takeWhile dec_digit r, dropWhile dec_digit r) else ([], s)
      | [] \<Rightarrow> ([], s))"

definition exponent_part :: "string \<Rightarrow> string \<times> string" where
  "exponent_part s =
     (case s of
        c # r \<Rightarrow>
          (let sg = (if r \<noteq> [] \<and> hd r \<in> {CHR ''+'', CHR ''-''} then [hd r] else []); ds = drop (length sg) r in
           if c \<in> {CHR ''e'', CHR ''E''} \<and> takeWhile dec_digit ds \<noteq> []
           then (c # sg @ takeWhile dec_digit ds, dropWhile dec_digit ds) else ([], s))
      | [] \<Rightarrow> ([], s))"

definition scan_number :: "(string \<Rightarrow> json) \<Rightarrow> string \<Rightarrow> exn + json \<times> string" where
  "scan_number fl s =
     (let sg = (if s \<noteq> [] \<and> hd s = CHR ''-'' then ''-'' else []) in
      case int_part (drop (length sg) s) of
        None \<Rightarrow> Inl json_error
      | Some (ds, r) \<Rightarrow>
          (let (fp, r1) = fraction_part r; (ep, r2) = exponent_part r1 in
           if fp = [] \<and> ep = []
           then if 4300 < length ds then Inl (PyError ''ValueError'')
                else Inr (JInt (if sg = [] then int (digits_value ds) else - int (digits_value ds)), r)
           else Inr (fl (sg @ ds @ fp @ ep), r2)))"

section \<open>Values\<close>

text \<open>\<open>n\<close> bounds the number of elements left; every element takes at least one character.\<close>

function parse_value :: "(string \<Rightarrow> json) \<Rightarrow> nat \<Rightarrow> string \<Rightarrow> exn + json \<times> string"
and parse_members :: "(string \<Rightarrow> json) \<Rightarrow> nat \<Rightarrow> nat \<Rightarrow> jdict \<Rightarrow> string \<Rightarrow> exn + json \<times> string"
and parse_elems :: "(string \<Rightarrow> json) \<Rightarrow> nat \<Rightarrow> nat \<Rightarrow> json list \<Rightarrow> string \<Rightarrow> exn + json \<times> string" where
  "parse_value fl depth s =
     (case s of
        [] \<Rightarrow> Inl json_error
      | c # cs \<Rightarrow>
          if ord c = 34 then (case scan_str cs of None \<Rightarrow> Inl json_error | Some (t, r) \<Rightarrow> Inr (JStr t, r))
          else if c = CHR ''{'' then
            (case depth of
               0 \<Rightarrow> Inl (PyError ''RecursionError'')
             | Suc d \<Rightarrow>
                 (let r = skip_ws cs in
                  if r \<noteq> [] \<and> hd r = CHR ''}'' then Inr (JObj [], tl r) else parse_members fl d (length r) [] r))
          else if c = CHR ''['' then
            (case depth of
               0 \<Rightarrow> Inl (PyError ''RecursionError'')
             | Suc d \<Rightarrow>
                 (let r = skip_ws cs in
                  if r \<noteq> [] \<and> hd r = CHR '']'' then Inr (JList [], tl r) else parse_elems fl d (length r) [] r))
          else if prefix ''null'' s then Inr (JNull, drop 4 s)
          else if prefix ''true'' s then Inr (JBool True, drop 4 s)
          else if prefix ''false'' s then Inr (JBool False, drop 5 s)
          else if prefix ''NaN'' s then Inr (fl ''NaN'', drop 3 s)
          else if prefix ''Infinity'' s then Inr (fl ''Infinity'', drop 8 s)
          else if prefix ''-Infinity'' s then Inr (fl ''-Infinity'', drop 9 s)
          else scan_number fl s)"
| "parse_members fl depth n acc s =
     (case n of
        0 \<Rightarrow> Inl json_error
      | Suc n \<Rightarrow>
          if s = [] \<or> ord (hd s) \<noteq> 34 then Inl json_error
          else case scan_str (tl s) of
            None \<Rightarrow> Inl json_error
          | Some (k, s) \<Rightarrow>
              let s = skip_ws s in
              if s = [] \<or> hd s \<noteq> CHR '':'' then Inl json_error
              else case parse_value fl depth (skip_ws (tl s)) of
                Inl e \<Rightarrow> Inl e
              | Inr (v, s) \<Rightarrow>
                  let s = skip_ws s; acc = dset k v acc in
                  if s = [] then Inl json_error
                  else if hd s = CHR ''}'' then Inr (JObj acc, tl s)
                  else if hd s = CHR '','' then parse_members fl depth n acc (skip_ws (tl s))
                  else Inl json_error)"
| "parse_elems fl depth n acc s =
     (case n of
        0 \<Rightarrow> Inl json_error
      | Suc n \<Rightarrow>
          case parse_value fl depth s of
            Inl e \<Rightarrow> Inl e
          | Inr (v, s) \<Rightarrow>
              let s = skip_ws s; acc = acc @ [v] in
              if s = [] then Inl json_error
              else if hd s = CHR '']'' then Inr (JList acc, tl s)
              else if hd s = CHR '','' then parse_elems fl depth n acc (skip_ws (tl s))
              else Inl json_error)"
  by pat_completeness auto
termination
  by (relation "inv_image (less_than <*lex*> less_than)
        (\<lambda>x. case x of Inl (fl, d, s) \<Rightarrow> (d, 0) | Inr (Inl (fl, d, n, acc, s)) \<Rightarrow> (d, Suc n)
              | Inr (Inr (fl, d, n, acc, s)) \<Rightarrow> (d, Suc n))") auto

declare parse_value.simps [simp del] parse_members.simps [simp del] parse_elems.simps [simp del]

definition json_loads :: "(string \<Rightarrow> json) \<Rightarrow> nat \<Rightarrow> string \<Rightarrow> exn + json" where
  "json_loads fl depth s =
     (case parse_value fl depth (skip_ws s) of
        Inl e \<Rightarrow> Inl e
      | Inr (v, r) \<Rightarrow> if skip_ws r = [] then Inr v else Inl json_error)"


section \<open>Reading what was printed\<close>

lemma ord_inj: "ord c = ord d \<Longrightarrow> c = d"
  by (simp add: ord_def)

lemma char_of_ord [simp]: "char_of (ord c) = c"
  by (simp add: ord_def)

lemma digit_char_facts: "n < 10 \<Longrightarrow> ord (digit_char n) = 48 + n" "n < 10 \<Longrightarrow> dec_digit (digit_char n)"
  by (simp_all add: digit_char_def dec_digit_def)

lemma nat_str_digits: "\<forall>c \<in> set (nat_str n). dec_digit c"
proof (induction n rule: nat_str.induct)
  case (1 n)
  then show ?case
    by (subst nat_str.simps) (auto simp: digit_char_facts)
qed

lemma nat_str_nonempty [simp]: "nat_str n \<noteq> []"
  by (subst nat_str.simps) simp

lemma digits_value_snoc: "digits_value (s @ [c]) = 10 * digits_value s + (ord c - 48)"
  by (simp add: digits_value_def)

lemma digits_value_nat_str [simp]: "digits_value (nat_str n) = n"
proof (induction n rule: nat_str.induct)
  case (1 n)
  show ?case
  proof (cases "n < 10")
    case True
    then show ?thesis by (subst nat_str.simps) (simp add: digits_value_def digit_char_facts)
  next
    case False
    with 1 have "digits_value (nat_str (n div 10) @ [digit_char (n mod 10)]) = n"
      by (simp add: digits_value_snoc digit_char_facts)
    with False show ?thesis by (subst nat_str.simps) simp
  qed
qed

lemma nat_str_zero: "hd (nat_str n) = CHR ''0'' \<longleftrightarrow> n = 0"
proof (induction n rule: nat_str.induct)
  case (1 n)
  show ?case
  proof (cases "n < 10")
    case True
    have "(digit_char n = CHR ''0'') = (ord (digit_char n) = ord (CHR ''0''))" using ord_inj by auto
    also have "\<dots> = (n = 0)" using True by (simp add: digit_char_facts) (simp add: ord_def)
    finally show ?thesis using True by (subst nat_str.simps) simp
  next
    case False
    with 1 show ?thesis by (subst nat_str.simps) simp
  qed
qed

text \<open>What may follow a number.\<close>

definition stops :: "string \<Rightarrow> bool" where
  "stops r = (r = [] \<or> \<not> dec_digit (hd r) \<and> hd r \<notin> {CHR ''.'', CHR ''e'', CHR ''E''})"

lemma int_part_nat_str:
  assumes "stops r"
  shows "int_part (nat_str n @ r) = Some (nat_str n, r)"
proof (cases "n = 0")
  case True
  have "nat_str 0 = ''0''" by code_simp
  with True show ?thesis by (simp add: int_part_def)
next
  case False
  then have hd: "hd (nat_str n) \<noteq> CHR ''0''" by (simp add: nat_str_zero)
  obtain c cs where c: "nat_str n = c # cs" by (meson nat_str_nonempty neq_Nil_conv)
  have d: "\<forall>x \<in> set (c # cs). dec_digit x" using nat_str_digits [of n] by (simp add: c)
  have "takeWhile dec_digit r = []" "dropWhile dec_digit r = r"
    using assms by (cases r; simp add: stops_def)+
  then show ?thesis
    using hd d by (simp add: int_part_def c takeWhile_append2 dropWhile_append2)
qed

lemma no_fraction: "stops r \<Longrightarrow> fraction_part r = ([], r)" "stops r \<Longrightarrow> exponent_part r = ([], r)"
  by (auto simp: stops_def fraction_part_def exponent_part_def Let_def split: list.splits)

lemma scan_number_int_str:
  assumes "stops r" "length (nat_str (nat \<bar>i\<bar>)) \<le> 4300"
  shows "scan_number fl (int_str i @ r) = Inr (JInt i, r)"
proof -
  have "hd (nat_str n @ r) \<noteq> CHR ''-''" for n
  proof -
    obtain c cs where c: "nat_str n = c # cs" by (meson nat_str_nonempty neq_Nil_conv)
    then have "dec_digit c" using nat_str_digits [of n] by simp
    then show ?thesis by (auto simp: c dec_digit_def ord_def)
  qed
  then show ?thesis
    using assms int_part_nat_str [OF assms(1)] no_fraction [OF assms(1)]
    by (cases "i < 0") (auto simp: scan_number_def int_str_def Let_def abs_if)
qed

lemma hex_value_digit: "n < 16 \<Longrightarrow> hex_value (hex_digit n) = Some n"
  by (simp add: hex_value_def hex_digit_def dec_digit_def Let_def)

lemma scan_unicode_hex:
  assumes "n < 256"
  shows "scan_unicode (CHR ''0'' # CHR ''0'' # hex_digit (n div 16) # hex_digit (n mod 16) # r) = Some (char_of n, r)"
proof -
  have "hex_value (CHR ''0'') = Some 0" by code_simp
  moreover have "n div 16 < 16" using assms by simp
  ultimately show ?thesis
    using assms by (simp add: scan_unicode_def hex_value_digit code_point_def)
qed

lemma scan_str_escape: "scan_str (json_escape ascii c @ r) = prepend c (scan_str r)"
proof -
  have u: "scan_str (CHR 92 # CHR ''u'' # CHR ''0'' # CHR ''0'' # hex_digit (ord c div 16) # hex_digit (ord c mod 16) # r)
      = prepend c (scan_str r)"
    using scan_unicode_hex [OF ord_bound] by (simp add: ord_def)
  have e: "map_of json_escapes (CHR ''n'') = Some (CHR 10)" "map_of json_escapes (CHR ''r'') = Some (CHR 13)"
    "map_of json_escapes (CHR ''t'') = Some (CHR 9)" "map_of json_escapes (CHR ''b'') = Some (CHR 8)"
    "map_of json_escapes (CHR ''f'') = Some (CHR 12)" "map_of json_escapes (CHR 34) = Some (CHR 34)"
    "map_of json_escapes (CHR 92) = Some (CHR 92)"
    by code_simp+
  have o: "ord (CHR 92) = 92" "ord (CHR 34) = 34" "ord (CHR 10) = 10" "ord (CHR 13) = 13" "ord (CHR 9) = 9"
    "ord (CHR 8) = 8" "ord (CHR 12) = 12"
    by code_simp+
  have c: "ord c = ord d \<Longrightarrow> c = d" for d by (rule ord_inj)
  consider "c = CHR 34" | "c = CHR 92" | "c = CHR 10" | "c = CHR 13" | "c = CHR 9" | "c = CHR 8" | "c = CHR 12"
    | "ord c \<notin> {34, 92, 10, 13, 9, 8, 12}"
    using c [of "CHR 34"] c [of "CHR 92"] c [of "CHR 10"] c [of "CHR 13"] c [of "CHR 9"] c [of "CHR 8"]
      c [of "CHR 12"] unfolding o by blast
  then show ?thesis
  proof cases
    case 8
    then show ?thesis using u by (simp add: json_escape_def Let_def)
  qed (simp_all add: json_escape_def Let_def o e)
qed

lemma scan_str_text: "scan_str (concat (map (json_escape ascii) t) @ CHR 34 # r) = Some (t, r)"
proof (induction t)
  case Nil
  have "ord (CHR 34) = 34" by code_simp
  then show ?case by simp
next
  case (Cons c t)
  then show ?case by (simp add: scan_str_escape prepend_def)
qed

text \<open>The values that are printed and read back unchanged: no floats and tuples, distinct keys,
  integers of at most 4300 digits, and nested no deeper than \<open>depth\<close>.\<close>

fun portable :: "nat \<Rightarrow> json \<Rightarrow> bool" where
  "portable d (JInt i) = (length (nat_str (nat \<bar>i\<bar>)) \<le> 4300)"
| "portable d (JFloat m e) = False"
| "portable d (JTuple xs) = False"
| "portable d (JList xs) = (0 < d \<and> (\<forall>x \<in> set xs. portable (d - 1) x))"
| "portable d (JObj kvs) = (0 < d \<and> distinct (map fst kvs) \<and> (\<forall>(k, v) \<in> set kvs. portable (d - 1) v))"
| "portable d v = True"

abbreviation compact :: "json \<Rightarrow> string" where
  "compact \<equiv> json_text True '','' '':''"

lemma skip_ws_Cons: "\<not> json_ws c \<Longrightarrow> skip_ws (c # s) = c # s"
  by (simp add: skip_ws_def)

lemma punctuation:
  "\<not> json_ws (CHR '','')" "\<not> json_ws (CHR '':'')" "\<not> json_ws (CHR ''}'')" "\<not> json_ws (CHR '']'')"
  "\<not> json_ws (CHR 34)" "ord (CHR 34) = 34" "ord (CHR ''{'') = 123" "ord (CHR ''['') = 91"
  "\<not> json_ws (CHR ''{'')" "\<not> json_ws (CHR ''['')"
  "ord (CHR ''n'') = 110" "ord (CHR ''t'') = 116" "ord (CHR ''f'') = 102"
  by code_simp+

lemma stops_punctuation [simp]: "stops (CHR '','' # r)" "stops (CHR ''}'' # r)" "stops (CHR '']'' # r)" "stops []"
proof -
  have "\<not> dec_digit (CHR '','')" "\<not> dec_digit (CHR ''}'')" "\<not> dec_digit (CHR '']'')" by code_simp+
  then show "stops (CHR '','' # r)" "stops (CHR ''}'' # r)" "stops (CHR '']'' # r)" "stops []"
    by (simp_all add: stops_def)
qed

lemma digit_start:
  assumes "dec_digit c \<or> c = CHR ''-''"
  shows "ord c \<noteq> 34" "c \<noteq> CHR ''{''" "c \<noteq> CHR ''[''" "\<not> json_ws c" "c \<notin> set ''ntfNI''" "c \<noteq> CHR '']''" "c \<noteq> CHR ''}''"
proof -
  have "ord (CHR ''-'') = 45" by code_simp
  then have o: "45 \<le> ord c \<and> ord c \<le> 57" using assms by (auto simp: dec_digit_def)
  then show "ord c \<noteq> 34" "\<not> json_ws c" by (auto simp: json_ws_def)
  have "\<not> (45 \<le> ord x \<and> ord x \<le> 57)" if "x \<in> set ''ntfNI{[}]''" for x
    using that by (auto simp: ord_def)
  with o show "c \<noteq> CHR ''{''" "c \<noteq> CHR ''[''" "c \<notin> set ''ntfNI''" "c \<noteq> CHR '']''" "c \<noteq> CHR ''}''" by auto
qed

lemma int_str_start: "\<exists>c cs. int_str i = c # cs \<and> (dec_digit c \<or> c = CHR ''-'') \<and> (c = CHR ''-'' \<longrightarrow> cs \<noteq> [] \<and> dec_digit (hd cs))"
proof -
  have n: "\<exists>c cs. nat_str n = c # cs \<and> dec_digit c" for n
  proof -
    obtain c cs where "nat_str n = c # cs" by (meson nat_str_nonempty neq_Nil_conv)
    then show ?thesis using nat_str_digits [of n] by simp
  qed
  show ?thesis
    using n [of "nat (- i)"] n [of "nat i"] by (auto simp: int_str_def dec_digit_def ord_def)
qed

lemma parse_int:
  assumes "stops r" "portable d (JInt i)"
  shows "parse_value fl d (int_str i @ r) = Inr (JInt i, r)"
proof -
  obtain c cs where c: "int_str i = c # cs" "dec_digit c \<or> c = CHR ''-''" "c = CHR ''-'' \<longrightarrow> cs \<noteq> [] \<and> dec_digit (hd cs)"
    using int_str_start by blast
  note s = digit_start [OF c(2)]
  have "\<not> prefix ''-Infinity'' (c # cs @ r)"
  proof (cases "c = CHR ''-''")
    case True
    then obtain x xs where "cs = x # xs" "dec_digit x" using c(3) by (cases cs) auto
    moreover have "\<not> dec_digit (CHR ''I'')" by code_simp
    ultimately show ?thesis by auto
  qed auto
  moreover have "CHR ''n'' \<noteq> c" "CHR ''t'' \<noteq> c" "CHR ''f'' \<noteq> c" "CHR ''N'' \<noteq> c" "CHR ''I'' \<noteq> c"
    using s(5) by auto
  ultimately show ?thesis
    using s(1-3) scan_number_int_str [OF assms(1), of i fl] assms(2)
    by (auto simp: parse_value.simps c(1))
qed

lemma compact_start:
  assumes "portable d v"
  shows "\<exists>c cs. compact v = c # cs \<and> \<not> json_ws c \<and> c \<noteq> CHR '']''"
proof (cases v)
  case (JInt i)
  with int_str_start [of i] digit_start show ?thesis by fastforce
next
  case (JBool b)
  have "\<not> json_ws (CHR ''t'')" "\<not> json_ws (CHR ''f'')" by code_simp+
  with JBool show ?thesis by simp
next
  case JNull
  have "\<not> json_ws (CHR ''n'')" by code_simp
  with JNull show ?thesis by simp
qed (use assms in \<open>auto simp: json_string_def punctuation\<close>)

lemma skip_compact: "portable d v \<Longrightarrow> skip_ws (compact v @ r) = compact v @ r"
  using compact_start [of d v] by (auto simp: skip_ws_Cons)

lemma dset_new: "k \<notin> fst ` set d \<Longrightarrow> dset k v d = d @ [(k, v)]"
  by (induction d) auto

lemma parse_elems_text:
  assumes "\<And>x r. x \<in> set (v # xs) \<Longrightarrow> stops r \<Longrightarrow> parse_value fl d (compact x @ r) = Inr (x, r)"
    and "\<forall>x \<in> set (v # xs). portable d x" "length xs < n"
  shows "parse_elems fl d n acc (join '','' (map compact (v # xs)) @ CHR '']'' # r) = Inr (JList (acc @ v # xs), r)"
  using assms
proof (induction xs arbitrary: v acc n)
  case Nil
  then show ?case
    by (cases n) (simp_all add: parse_elems.simps skip_ws_Cons punctuation)
next
  case (Cons x xs)
  then obtain m where m: "n = Suc m" "length xs < m" by (cases n) auto
  have "skip_ws (join '','' (map compact (x # xs)) @ t) = join '','' (map compact (x # xs)) @ t" for t
    using skip_compact [of d x] Cons.prems(2) by (cases xs) auto
  then show ?case
    using Cons.IH [of x m "acc @ [v]"] Cons.prems m
    by (simp add: parse_elems.simps [of fl d "Suc m"] skip_ws_Cons punctuation)
qed

lemma parse_members_text:
  assumes "\<And>k x r. (k, x) \<in> set (kv # kvs) \<Longrightarrow> stops r \<Longrightarrow> parse_value fl d (compact x @ r) = Inr (x, r)"
    and "\<forall>(k, x) \<in> set (kv # kvs). portable d x" "length kvs < n"
    and "distinct (map fst (acc @ kv # kvs))"
  shows "parse_members fl d n acc (join '','' (map (\<lambda>(k, v). json_string True k @ '':'' @ compact v) (kv # kvs)) @ CHR ''}'' # r)
    = Inr (JObj (acc @ kv # kvs), r)"
  using assms
proof (induction kvs arbitrary: kv acc n)
  case Nil
  obtain k v where kv: "kv = (k, v)" by (cases kv)
  obtain m where m: "n = Suc m" using Nil.prems(3) by (cases n) auto
  have "k \<notin> fst ` set acc" using Nil.prems(4) by (auto simp: kv)
  then show ?case
    using Nil.prems(1,2) skip_compact [of d v]
    by (simp add: kv m parse_members.simps skip_ws_Cons punctuation json_string_def scan_str_text dset_new)
next
  case (Cons kv' kvs)
  obtain k v where kv: "kv = (k, v)" by (cases kv)
  obtain k' v' where kv': "kv' = (k', v')" by (cases kv')
  obtain m where m: "n = Suc m" "length kvs < m" using Cons.prems(3) by (cases n) auto
  have new: "k \<notin> fst ` set acc" using Cons.prems(4) by (auto simp: kv)
  have "skip_ws (join '','' (map (\<lambda>(k, v). json_string True k @ '':'' @ compact v) (kv' # kvs)) @ t) =
      join '','' (map (\<lambda>(k, v). json_string True k @ '':'' @ compact v) (kv' # kvs)) @ t" for t
    by (cases kvs) (auto simp: kv' json_string_def skip_ws_Cons punctuation)
  moreover have "parse_members fl d m (acc @ [(k, v)])
      (join '','' (map (\<lambda>(k, v). json_string True k @ '':'' @ compact v) (kv' # kvs)) @ CHR ''}'' # r) =
      Inr (JObj ((acc @ [(k, v)]) @ kv' # kvs), r)"
    by (rule Cons.IH) (use Cons.prems m kv in \<open>auto\<close>)
  moreover have "stops t \<Longrightarrow> parse_value fl d (compact v @ t) = Inr (v, t)" for t
    using Cons.prems(1) [of k v] by (simp add: kv)
  moreover have "portable d v" using Cons.prems(2) by (simp add: kv)
  ultimately show ?case
    using m(1) skip_compact [of d v] new
    by (simp add: kv parse_members.simps [of fl d "Suc m"] skip_ws_Cons punctuation json_string_def scan_str_text dset_new)
qed

lemma parse_value_compact:
  assumes "portable d v" "stops r"
  shows "parse_value fl d (compact v @ r) = Inr (v, r)"
  using assms
proof (induction v arbitrary: d r)
  case (JInt i)
  then show ?case using parse_int by simp
next
  case (JStr t)
  then show ?case by (simp add: parse_value.simps json_string_def punctuation scan_str_text)
next
  case (JList xs)
  then obtain m where d: "d = Suc m" by (cases d) auto
  show ?case
  proof (cases xs)
    case Nil
    then show ?thesis by (simp add: parse_value.simps d punctuation skip_ws_Cons)
  next
    case (Cons y ys)
    let ?t = "join '','' (map compact xs) @ CHR '']'' # r"
    have p: "\<forall>x \<in> set (y # ys). portable m x" using JList.prems by (auto simp: d Cons)
    obtain c cs where c: "compact y = c # cs" "\<not> json_ws c" "c \<noteq> CHR '']''" using compact_start p by fastforce
    have "length ys < length ?t" by (simp add: length_join Cons)
    then have "parse_elems fl m (length ?t) [] (join '','' (map compact (y # ys)) @ CHR '']'' # r) = Inr (JList ([] @ y # ys), r)"
      using JList.IH p by (intro parse_elems_text) (auto simp: Cons)
    moreover have "?t = c # tl ?t" using c(1) by (cases ys) (simp_all add: Cons)
    then have "skip_ws ?t = ?t" "hd ?t \<noteq> CHR '']''" using c skip_ws_Cons by (metis, metis list.sel(1))
    ultimately show ?thesis
      by (simp add: parse_value.simps d punctuation Cons)
  qed
next
  case (JObj kvs)
  then obtain m where d: "d = Suc m" by (cases d) auto
  show ?case
  proof (cases kvs)
    case Nil
    then show ?thesis by (simp add: parse_value.simps d punctuation skip_ws_Cons)
  next
    case (Cons y ys)
    let ?f = "\<lambda>(k, v). json_string True k @ '':'' @ compact v"
    let ?t = "join '','' (map ?f kvs) @ CHR ''}'' # r"
    have p: "\<forall>(k, x) \<in> set (y # ys). portable m x" using JObj.prems by (auto simp: d Cons)
    have "length ys < length ?t" by (simp add: length_join Cons)
    then have "parse_members fl m (length ?t) [] (join '','' (map ?f (y # ys)) @ CHR ''}'' # r) = Inr (JObj ([] @ y # ys), r)"
      using JObj p by (intro parse_members_text) (fastforce simp: Cons d)+
    moreover have "?t = CHR 34 # tl ?t" by (cases ys) (simp_all add: Cons json_string_def split: prod.splits)
    then obtain t where "?t = CHR 34 # t" by (rule that)
    then have "skip_ws ?t = ?t" "hd ?t \<noteq> CHR ''}''" by (simp_all add: punctuation skip_ws_Cons)
    ultimately show ?thesis
      by (simp add: parse_value.simps d punctuation Cons)
  qed
next
  case (JBool b)
  then show ?case by (cases b) (simp_all add: parse_value.simps punctuation)
qed (simp_all add: parse_value.simps punctuation)

text \<open>\<open>json.loads(json.dumps(v, separators=(",", ":")))\<close> returns the value, also with
  whitespace around the text.\<close>

lemma json_loads_compact:
  assumes "portable depth v" "skip_ws r = []" "stops r"
  shows "json_loads fl depth (compact v @ r) = Inr v"
  using assms parse_value_compact [OF assms(1,3)] skip_compact [OF assms(1)]
  by (simp add: json_loads_def)

end
