(* ===== verification/Framing.thy ===== *)
theory Framing
  imports JsonParse
begin

text \<open>
  \<open>src/zeroadr/gateway/jsonrpc.py\<close> and the message readers of \<open>gateway/stdio_proxy.py\<close>: JSON-RPC
  messages as lines and as frames with a \<open>Content-Length\<close> header. Bytes are numbers below 256; a
  stream is the list of the bytes that will arrive before its end. The two readers of the source
  have the same body and differ in how they read a line and an exact number of bytes; so do they
  here. \<open>decoder\<close> holds what depends on the interpreter: its \<open>float\<close> and the recursion depth
  that is left.
\<close>

record decoder =
  dc_float :: "string \<Rightarrow> json"
  dc_depth :: nat

definition loads :: "decoder \<Rightarrow> string \<Rightarrow> exn + json" where
  "loads D s = json_loads (dc_float D) (dc_depth D) s"

section \<open>Bytes and text\<close>

definition continuation :: "nat \<Rightarrow> bool" where
  "continuation b = (128 \<le> b \<and> b < 192)"

text \<open>\<open>bytes.decode("utf-8")\<close>; \<open>None\<close> is a \<open>UnicodeDecodeError\<close>.\<close>

fun utf8_decode :: "nat list \<Rightarrow> string option" where
  "utf8_decode [] = Some []"
| "utf8_decode (a # bs) =
     (if a < 128 then map_option ((#) (char_of a)) (utf8_decode bs)
      else if 194 \<le> a \<and> a \<le> 223 then
        (case bs of
           b # r \<Rightarrow> if continuation b
             then map_option ((#) (code_point ((a - 192) * 64 + (b - 128)))) (utf8_decode r) else None
         | _ \<Rightarrow> None)
      else if 224 \<le> a \<and> a \<le> 239 then
        (case bs of
           b # c # r \<Rightarrow> if continuation b \<and> continuation c \<and> (a = 224 \<longrightarrow> 160 \<le> b) \<and> (a = 237 \<longrightarrow> b < 160)
             then map_option ((#) (code_point (((a - 224) * 64 + (b - 128)) * 64 + (c - 128)))) (utf8_decode r)
             else None
         | _ \<Rightarrow> None)
      else if 240 \<le> a \<and> a \<le> 244 then
        (case bs of
           b # c # d # r \<Rightarrow> if continuation b \<and> continuation c \<and> continuation d
               \<and> (a = 240 \<longrightarrow> 144 \<le> b) \<and> (a = 244 \<longrightarrow> b < 144)
             then map_option ((#) (code_point ((((a - 240) * 64 + (b - 128)) * 64 + (c - 128)) * 64 + (d - 128))))
               (utf8_decode r)
             else None
         | _ \<Rightarrow> None)
      else None)"

definition ascii_decode :: "nat list \<Rightarrow> exn + string" where
  "ascii_decode bs =
     (if \<exists>b \<in> set bs. 128 \<le> b then Inl (PyError ''UnicodeDecodeError'') else Inr (map char_of bs))"

definition lower_byte :: "nat \<Rightarrow> nat" where
  "lower_byte b = (if 65 \<le> b \<and> b \<le> 90 then b + 32 else b)"

text \<open>\<open>stream.readline()\<close>: the bytes up to and with the next line feed.\<close>

fun readline :: "nat list \<Rightarrow> nat list \<times> nat list" where
  "readline [] = ([], [])"
| "readline (b # bs) = (if b = 10 then ([b], bs) else (case readline bs of (l, r) \<Rightarrow> (b # l, r)))"

lemma readline_append: "readline s = (l, r) \<Longrightarrow> s = l @ r"
  by (induction s arbitrary: l r) (auto split: if_splits prod.splits)

lemma readline_empty: "readline s = ([], r) \<Longrightarrow> s = []"
  by (cases s) (auto split: if_splits prod.splits)

text \<open>\<open>int(text)\<close> for a text of ASCII characters: an optional sign, then digits, with single
  underscores between them; more than 4300 digits are refused.\<close>

definition int_digits :: "string \<Rightarrow> bool" where
  "int_digits s =
     (s \<noteq> [] \<and> dec_digit (hd s) \<and> dec_digit (last s) \<and> (\<forall>c \<in> set s. dec_digit c \<or> c = CHR ''_'')
      \<and> \<not> sublist ''__'' s)"

definition py_int :: "string \<Rightarrow> exn + int" where
  "py_int s =
     (let t = strip s; sg = (if t \<noteq> [] \<and> hd t \<in> {CHR ''+'', CHR ''-''} then [hd t] else []);
          ds = drop (length sg) t; n = int (digits_value (filter dec_digit ds)) in
      if int_digits ds \<and> length (filter dec_digit ds) \<le> 4300
      then Inr (if sg = ''-'' then - n else n) else Inl (PyError ''ValueError''))"

section \<open>Writing messages\<close>

datatype framing = Line | Mcp

record framed_message =
  fm_message :: jdict
  fm_raw :: "nat list"
  fm_framing :: framing

definition encode_jsonrpc :: "jdict \<Rightarrow> string" where
  "encode_jsonrpc message = compact (JObj message) @ [CHR 10]"

definition encode_mcp_frame :: "jdict \<Rightarrow> nat list" where
  "encode_mcp_frame message =
     (let body = utf8 (compact (JObj message))
      in map ord (''Content-Length: '' @ nat_str (length body)) @ [13, 10, 13, 10] @ body)"

definition encode_framed_response :: "jdict \<Rightarrow> framing \<Rightarrow> nat list" where
  "encode_framed_response message fr =
     (if fr = Mcp then encode_mcp_frame message else utf8 (encode_jsonrpc message))"

section \<open>Reading messages\<close>

definition is_length_header :: "nat list \<Rightarrow> bool" where
  "is_length_header line = prefix (map ord ''content-length:'') (map lower_byte line)"

definition parse_content_length :: "nat list \<Rightarrow> exn + int option" where
  "parse_content_length header_line =
     (case ascii_decode header_line of
        Inl e \<Rightarrow> Inl e
      | Inr t \<Rightarrow>
          (let value = strip (snd (snd (partition_at (CHR '':'') t))) in
           if value = [] then Inr None
           else case py_int value of Inl e \<Rightarrow> Inl e | Inr n \<Rightarrow> Inr (Some n)))"

text \<open>A reader with a limit refuses a line whose text before the line feed is longer.\<close>

definition too_long :: "nat option \<Rightarrow> nat list \<Rightarrow> bool" where
  "too_long limit line = (case limit of None \<Rightarrow> False | Some k \<Rightarrow> k < length (takeWhile (\<lambda>b. b \<noteq> 10) line))"

text \<open>The loop over the header lines: the headers, the last announced length and the rest of the
  stream, or \<open>None\<close> if the stream ends.\<close>

function header_loop ::
  "nat option \<Rightarrow> int option \<Rightarrow> nat list \<Rightarrow> nat list \<Rightarrow> exn + (nat list \<times> int option \<times> nat list) option" where
  "header_loop limit len headers s =
     (case readline s of (l, r) \<Rightarrow>
        if too_long limit l then Inl (PyError ''ValueError'')
        else if l = [] then Inr None
        else if l = [13, 10] \<or> l = [10] then Inr (Some (headers @ l, len, r))
        else if is_length_header l
        then (case parse_content_length l of
                Inl e \<Rightarrow> Inl e
              | Inr n \<Rightarrow> header_loop limit n (headers @ l) r)
        else header_loop limit len (headers @ l) r)"
  by pat_completeness auto
termination
proof (relation "measure (\<lambda>(limit, len, headers, s). length s)")
  show "wf (measure (\<lambda>(limit :: nat option, len :: int option, headers :: nat list, s :: nat list). length s))"
    by simp
qed (auto dest!: sym [of "(_, _)"] readline_append)

declare header_loop.simps [simp del]

definition decode_message ::
  "decoder \<Rightarrow> framing \<Rightarrow> nat list \<Rightarrow> nat list \<Rightarrow> nat list \<Rightarrow> exn + (framed_message \<times> nat list) option" where
  "decode_message D fr raw body rest =
     (case utf8_decode body of
        None \<Rightarrow> Inl (PyError ''UnicodeDecodeError'')
      | Some t \<Rightarrow>
          (case loads D t of
             Inl e \<Rightarrow> Inl e
           | Inr (JObj m) \<Rightarrow> Inr (Some (\<lparr>fm_message = m, fm_raw = raw, fm_framing = fr\<rparr>, rest))
           | Inr _ \<Rightarrow> Inr None))"

text \<open>The common body; \<open>read\<close> reads the announced number of bytes, and its \<open>None\<close> stands for the
  early return on a short read.\<close>

definition read_message ::
  "nat option \<Rightarrow> (int \<Rightarrow> nat list \<Rightarrow> exn + (nat list \<times> nat list) option) \<Rightarrow> decoder \<Rightarrow> nat list \<Rightarrow>
   exn + (framed_message \<times> nat list) option" where
  "read_message limit read D s =
     (case readline s of (first, r) \<Rightarrow>
        if too_long limit first then Inl (PyError ''ValueError'')
        else if first = [] then Inr None
        else if is_length_header first then
          (case parse_content_length first of
             Inl e \<Rightarrow> Inl e
           | Inr len \<Rightarrow>
               (case header_loop limit len first r of
                  Inl e \<Rightarrow> Inl e
                | Inr None \<Rightarrow> Inr None
                | Inr (Some (headers, None, r)) \<Rightarrow> Inr None
                | Inr (Some (headers, Some n, r)) \<Rightarrow>
                    (case read n r of
                       Inl e \<Rightarrow> Inl e
                     | Inr None \<Rightarrow> Inr None
                     | Inr (Some (body, r)) \<Rightarrow> decode_message D Mcp (headers @ body) body r)))
        else decode_message D Line first first r)"

text \<open>The exception handler around it: protocol errors end the stream, others escape.\<close>

definition protocol_errors :: "string list \<Rightarrow> exn + 'a option \<Rightarrow> exn + 'a option" where
  "protocol_errors classes x =
     (case x of
        Inl (PyError c) \<Rightarrow> if c \<in> set classes then Inr None else x
      | _ \<Rightarrow> x)"

text \<open>\<open>stream.read(n)\<close> of a buffered reader, with the check of its length: \<open>-1\<close> reads up to the
  end and never has the right length.\<close>

definition read_bytes :: "int \<Rightarrow> nat list \<Rightarrow> exn + (nat list \<times> nat list) option" where
  "read_bytes n s =
     (if n < - 1 then Inl (PyError ''ValueError'')
      else if n = - 1 \<or> length s < nat n then Inr None
      else Inr (Some (take (nat n) s, drop (nat n) s)))"

text \<open>\<open>StreamReader.readexactly(n)\<close>.\<close>

definition read_exactly :: "int \<Rightarrow> nat list \<Rightarrow> exn + (nat list \<times> nat list) option" where
  "read_exactly n s =
     (if n < 0 then Inl (PyError ''ValueError'')
      else if length s < nat n then Inl (PyError ''IncompleteReadError'')
      else Inr (Some (take (nat n) s, drop (nat n) s)))"

definition read_framed_message :: "decoder \<Rightarrow> nat list \<Rightarrow> exn + (framed_message \<times> nat list) option" where
  "read_framed_message D s =
     protocol_errors [''JSONDecodeError'', ''UnicodeDecodeError'', ''ValueError'']
       (read_message None read_bytes D s)"

text \<open>The stream of a subprocess is created with the default limit of \<open>asyncio\<close>.\<close>

definition STREAM_LIMIT :: nat where
  "STREAM_LIMIT = 65536"

definition read_async_framed_message :: "decoder \<Rightarrow> nat list \<Rightarrow> exn + (framed_message \<times> nat list) option" where
  "read_async_framed_message D s =
     protocol_errors [''JSONDecodeError'', ''UnicodeDecodeError'', ''ValueError'', ''IncompleteReadError'']
       (read_message (Some STREAM_LIMIT) read_exactly D s)"

section \<open>What a reader keeps\<close>

locale byte_reader =
  fixes read :: "int \<Rightarrow> nat list \<Rightarrow> exn + (nat list \<times> nat list) option"
  assumes exact: "read n s = Inr (Some (b, r)) \<Longrightarrow> s = b @ r \<and> int (length b) = n"
begin

lemma raw_exact:
  assumes "read_message limit read D s = Inr (Some (f, rest))"
  shows "fm_raw f @ rest = s \<and> fm_raw f \<noteq> [] \<and>
    (\<exists>body t. suffix body (fm_raw f) \<and> (fm_framing f = Line \<longrightarrow> body = fm_raw f) \<and>
       utf8_decode body = Some t \<and> loads D t = Inr (JObj (fm_message f)))"
proof -
  obtain first r where l: "readline s = (first, r)" by (metis surj_pair)
  have dm: "decode_message D fr raw body rest' = Inr (Some (f, rest)) \<Longrightarrow> rest = rest' \<and> fm_raw f = raw
      \<and> fm_framing f = fr \<and> (\<exists>t. utf8_decode body = Some t \<and> loads D t = Inr (JObj (fm_message f)))"
    for fr raw body rest'
    by (auto simp: decode_message_def split: option.splits sum.splits json.splits)
  have hl: "header_loop limit len headers t = Inr (Some (h, n, t')) \<Longrightarrow> h @ t' = headers @ t \<and> prefix headers h" for len headers t h n t'
  proof (induction limit len headers t rule: header_loop.induct)
    case (1 limit len headers t)
    obtain l r where lr: "readline t = (l, r)" by (metis surj_pair)
    with 1 readline_append [OF lr] show ?case
      by (subst (asm) header_loop.simps) (auto split: if_splits sum.splits dest: append_prefixD)
  qed
  show ?thesis
  proof (cases "is_length_header first")
    case False
    then have "decode_message D Line first first r = Inr (Some (f, rest))" "first \<noteq> []"
      using assms by (auto simp: read_message_def l split: if_splits)
    with dm readline_append [OF l] show ?thesis by blast
  next
    case True
    then obtain len headers n r1 body r2 where h: "header_loop limit len first r = Inr (Some (headers, Some n, r1))"
        "read n r1 = Inr (Some (body, r2))" "decode_message D Mcp (headers @ body) body r2 = Inr (Some (f, rest))"
        "first \<noteq> []"
      using assms by (auto simp: read_message_def l split: if_splits sum.splits option.splits)
    from hl [OF h(1)] exact [OF h(2)] dm [OF h(3)] readline_append [OF l] h(4)
    show ?thesis by (auto simp: suffix_def)
  qed
qed

end

interpretation buffered: byte_reader read_bytes
  by unfold_locales (auto simp: read_bytes_def split: if_splits)

interpretation streamed: byte_reader read_exactly
  by unfold_locales (auto simp: read_exactly_def split: if_splits)

lemma protocol_errors_Some: "protocol_errors cs x = Inr (Some y) \<longleftrightarrow> x = Inr (Some y)"
  by (auto simp: protocol_errors_def split: sum.splits exn.splits if_splits)

text \<open>C18. A message is forwarded as it came: what either reader consumes is exactly the raw bytes it
  hands on, at least one byte, and nothing of the rest of the stream; the message that is inspected
  is the JSON object in these bytes, the whole line or the end of the frame.\<close>

theorem inspected_bytes_are_forwarded:
  assumes "read_framed_message D s = Inr (Some (f, rest)) \<or> read_async_framed_message D s = Inr (Some (f, rest))"
  shows "fm_raw f @ rest = s \<and> fm_raw f \<noteq> [] \<and>
    (\<exists>body t. suffix body (fm_raw f) \<and> (fm_framing f = Line \<longrightarrow> body = fm_raw f) \<and>
       utf8_decode body = Some t \<and> loads D t = Inr (JObj (fm_message f)))"
  using assms buffered.raw_exact streamed.raw_exact
  unfolding read_framed_message_def read_async_framed_message_def protocol_errors_Some by metis

section \<open>Long lines\<close>

text \<open>The reader of the server's output is given up on a line of more than 65536 bytes: where the
  reader of the client's input delivers a message that is one line, the other delivers the same if
  the line is short enough and otherwise reports the end of the stream.\<close>

theorem long_line_ends_stream:
  assumes "read_framed_message D s = Inr (Some (f, rest))" "fm_framing f = Line"
  shows "read_async_framed_message D s =
    (if length (takeWhile (\<lambda>b. b \<noteq> 10) (fm_raw f)) \<le> 65536 then Inr (Some (f, rest)) else Inr None)"
proof -
  obtain first r where l: "readline s = (first, r)" by (metis surj_pair)
  have "\<not> is_length_header first"
    using assms by (auto simp: read_framed_message_def protocol_errors_Some read_message_def l decode_message_def
        split: if_splits sum.splits option.splits json.splits)
  then have d: "first \<noteq> []" "\<not> is_length_header first" "decode_message D Line first first r = Inr (Some (f, rest))"
    using assms by (auto simp: read_framed_message_def protocol_errors_Some read_message_def l split: if_splits)
  then have "fm_raw f = first"
    by (auto simp: decode_message_def split: option.splits sum.splits json.splits)
  with d show ?thesis
    by (simp add: read_async_framed_message_def read_message_def l too_long_def STREAM_LIMIT_def protocol_errors_def)
qed

section \<open>Reading what was written\<close>

lemma set_nat_str: "c \<in> set (nat_str n) \<Longrightarrow> 48 \<le> ord c \<and> ord c \<le> 57"
  using nat_str_digits [of n] by (auto simp: dec_digit_def)

lemma set_join_sub: "c \<in> set (join sep xs) \<Longrightarrow> c \<in> set sep \<or> (\<exists>x \<in> set xs. c \<in> set x)"
  by (induction sep xs rule: join.induct) auto

lemma hex_digit_range: "n < 16 \<Longrightarrow> 48 \<le> ord (hex_digit n) \<and> ord (hex_digit n) \<le> 102"
  by (simp add: hex_digit_def)

lemma printable_escape:
  assumes "c \<in> set (json_escape True x)"
  shows "32 \<le> ord c \<and> ord c \<le> 126"
proof -
  have e: "32 \<le> ord d \<and> ord d \<le> 126" if "d \<in> set ''nrtbfu0'' \<union> {CHR 92}" for d
    using that by (auto simp: ord_def)
  have h: "ord x div 16 < 16" "ord x mod 16 < 16" using ord_bound [of x] by simp_all
  have "set (json_escape True x) \<subseteq> (set ''nrtbfu0'' \<union> {CHR 92})
      \<union> {hex_digit (ord x div 16), hex_digit (ord x mod 16)} \<union> (if 32 \<le> ord x \<and> ord x \<le> 126 then {x} else {})"
    by (simp add: json_escape_def Let_def)
  with assms consider "c \<in> set ''nrtbfu0'' \<union> {CHR 92}" | "c \<in> {hex_digit (ord x div 16), hex_digit (ord x mod 16)}"
    | "c = x" "32 \<le> ord x \<and> ord x \<le> 126"
    by (auto split: if_splits)
  then show ?thesis
    by cases (use e hex_digit_range [OF h(1)] hex_digit_range [OF h(2)] in \<open>fastforce+\<close>)
qed

lemma printable_string: "c \<in> set (json_string True t) \<Longrightarrow> 32 \<le> ord c \<and> ord c \<le> 126"
  using printable_escape punctuation(6) by (auto simp: json_string_def)

lemma printable_compact: "portable d v \<Longrightarrow> c \<in> set (compact v) \<Longrightarrow> 32 \<le> ord c \<and> ord c \<le> 126"
proof (induction v arbitrary: d)
  case (JInt i)
  moreover have "ord (CHR ''-'') = 45" by code_simp
  ultimately show ?case using set_nat_str [of c] by (fastforce simp: int_str_def split: if_splits)
next
  case (JStr t)
  then show ?case using printable_string by simp
next
  case (JList xs)
  have "32 \<le> ord b \<and> ord b \<le> 126" if "b \<in> set ''[,]''" for b using that by (auto simp: ord_def)
  with JList show ?case by (fastforce dest!: set_join_sub)
next
  case (JObj kvs)
  have "32 \<le> ord b \<and> ord b \<le> 126" if "b \<in> set ''{,:}''" for b using that by (auto simp: ord_def)
  with JObj printable_string show ?case by (fastforce dest!: set_join_sub)
qed (auto simp: ord_def split: if_splits)

lemma utf8_ascii: "(\<And>c. c \<in> set s \<Longrightarrow> ord c < 128) \<Longrightarrow> utf8 s = map ord s"
  by (induction s) (auto simp: utf8_def utf8_char_def Let_def)

lemma utf8_decode_ascii: "(\<And>c. c \<in> set s \<Longrightarrow> ord c < 128) \<Longrightarrow> utf8_decode (map ord s) = Some s"
  by (induction s) auto

lemma readline_line: "10 \<notin> set xs \<Longrightarrow> readline (xs @ 10 # r) = (xs @ [10], r)"
  by (induction xs) auto

lemma length_nat_str: "n < 10 ^ Suc k \<Longrightarrow> length (nat_str n) \<le> Suc k"
proof (induction k arbitrary: n)
  case 0
  then show ?case by (subst nat_str.simps) simp
next
  case (Suc k)
  then have "n div 10 < 10 ^ Suc k" by (simp add: less_mult_imp_div_less mult.commute)
  with Suc.IH show ?case by (subst nat_str.simps) (auto simp: less_Suc_eq_le)
qed

lemma strip_digits:
  assumes "ds \<noteq> []" "\<forall>c \<in> set ds. dec_digit c" "\<forall>c \<in> set u \<union> set v. is_space c"
  shows "strip (u @ ds @ v) = ds"
proof -
  have d: "\<not> is_space c" if "dec_digit c" for c
    using that by (auto simp: dec_digit_def is_space_def Let_def)
  obtain a xs where a: "ds = a # xs" using assms(1) by (cases ds) auto
  obtain b ys where b: "rev ds = b # ys" using assms(1) by (cases "rev ds") auto
  have "b \<in> set ds" using b by (metis list.set_intros(1) set_rev)
  then have "dec_digit a" "dec_digit b" using assms(2) a by auto
  then have s: "\<not> is_space a" "\<not> is_space b" using d by blast+
  have "dropWhile is_space (u @ ds @ v) = ds @ v"
    using assms(3) s(1) by (subst dropWhile_append2) (simp_all add: a)
  moreover have "dropWhile is_space (rev v @ rev ds) = rev ds"
    using assms(3) s(2) by (subst dropWhile_append2) (simp_all add: b)
  ultimately show ?thesis by (simp add: strip_def lstrip_def rstrip_if_def)
qed

lemma py_int_nat_str:
  assumes "length (nat_str n) \<le> 4300"
  shows "py_int (nat_str n) = Inr (int n)"
proof -
  let ?t = "nat_str n"
  have d: "\<forall>c \<in> set ?t. dec_digit c" by (rule nat_str_digits)
  have t: "strip ?t = ?t" using strip_digits [of ?t "[]" "[]"] d by simp
  have "dec_digit (hd ?t)" "dec_digit (last ?t)" using d by simp_all
  moreover from this have "hd ?t \<noteq> CHR ''+''" "hd ?t \<noteq> CHR ''-''" by (auto simp: dec_digit_def ord_def)
  moreover have x: "\<not> dec_digit (CHR ''+'')" "\<not> dec_digit (CHR ''-'')" "\<not> dec_digit (CHR ''_'')" by code_simp+
  moreover have "\<not> sublist ''__'' ?t" using d x(3) by (auto simp: sublist_def)
  moreover have "filter dec_digit ?t = ?t" using d by simp
  ultimately show ?thesis
    using d assms by (simp add: py_int_def t Let_def int_digits_def)
qed

text \<open>The first line of a frame announces the length of its body.\<close>

lemma content_length_line:
  assumes "n < 10 ^ 4300"
  defines "line \<equiv> map ord (''Content-Length: '' @ nat_str n) @ [13, 10]"
  shows "is_length_header line" "parse_content_length line = Inr (Some (int n))"
proof -
  have "prefix (map ord ''content-length:'') (map lower_byte (map ord ''Content-Length: ''))" by code_simp
  then show "is_length_header line"
    by (auto simp: is_length_header_def line_def prefix_def)
  have o: "ord (CHR 13) = 13" "ord (CHR 10) = 10" by code_simp+
  have "\<forall>c \<in> set ''Content-Length: ''. ord c < 128" by code_simp
  then have "\<forall>b \<in> set line. b < 128"
    using set_nat_str [of _ n] by (fastforce simp: line_def)
  then have "ascii_decode line = Inr (map char_of line)" by (auto simp: ascii_decode_def)
  also have "map char_of line = ''Content-Length: '' @ nat_str n @ [CHR 13, CHR 10]"
    by (simp add: line_def comp_def o [symmetric] del: o)
  finally have t: "ascii_decode line = Inr (''Content-Length: '' @ nat_str n @ [CHR 13, CHR 10])" .
  have p: "partition_at (CHR '':'') (''Content-Length: '' @ u) = (''Content-Length'', True, '' '' @ u)" for u
    by (simp add: partition_at_def)
  have "is_space (CHR '' '')" "is_space (CHR 13)" "is_space (CHR 10)" by code_simp+
  then have st: "strip ('' '' @ nat_str n @ [CHR 13, CHR 10]) = nat_str n"
    using nat_str_digits by (intro strip_digits) auto
  have k: "Suc 4299 = 4300" by simp
  have "length (nat_str n) \<le> 4300" using length_nat_str [of n 4299] assms(1) unfolding k by blast
  from py_int_nat_str [OF this] show "parse_content_length line = Inr (Some (int n))"
    unfolding parse_content_length_def t
    by (simp only: sum.case p snd_conv st Let_def nat_str_nonempty if_False)
qed


lemma header_end: "header_loop limit len headers (13 # 10 # r) = Inr (Some (headers @ [13, 10], len, r))"
  if "pred_option (\<lambda>k. 1 \<le> k) limit"
  using that by (subst header_loop.simps) (auto simp: too_long_def split: option.splits)

lemma encoded_line:
  assumes "portable d (JObj m)"
  shows "encode_framed_response m Line = map ord (compact (JObj m)) @ [10]"
    and "encode_framed_response m Mcp =
      (map ord (''Content-Length: '' @ nat_str (length (compact (JObj m)))) @ [13, 10]) @ [13, 10] @ map ord (compact (JObj m))"
proof -
  have "ord c < 128" if "c \<in> set (compact (JObj m))" for c
    using printable_compact [OF assms that] by simp
  then have u: "utf8 (compact (JObj m)) = map ord (compact (JObj m))" by (rule utf8_ascii)
  moreover have "utf8 [CHR 10] = [10]" by code_simp
  ultimately show "encode_framed_response m Line = map ord (compact (JObj m)) @ [10]"
    unfolding encode_framed_response_def encode_jsonrpc_def utf8_append by simp
  show "encode_framed_response m Mcp =
      (map ord (''Content-Length: '' @ nat_str (length (compact (JObj m)))) @ [13, 10]) @ [13, 10] @ map ord (compact (JObj m))"
    unfolding encode_framed_response_def encode_mcp_frame_def Let_def u by simp
qed

lemma decode_compact:
  assumes "portable (dc_depth D) (JObj m)" "suff \<in> {[], [10]}"
  shows "decode_message D fr raw (map ord (compact (JObj m)) @ suff) rest =
    Inr (Some (\<lparr>fm_message = m, fm_raw = raw, fm_framing = fr\<rparr>, rest))"
proof -
  define e where "e = (if suff = [] then [] else [CHR 10])"
  have "json_ws (CHR 10)" "\<not> dec_digit (CHR 10)" "ord (CHR 10) = 10" by code_simp+
  then have e: "map ord e = suff" "skip_ws e = []" "stops e" "\<forall>c \<in> set e. ord c < 128"
    using assms(2) by (auto simp: e_def skip_ws_def stops_def)
  have "utf8_decode (map ord (compact (JObj m) @ e)) = Some (compact (JObj m) @ e)"
    using printable_compact [OF assms(1)] e(4) by (intro utf8_decode_ascii) fastforce
  then show ?thesis
    using json_loads_compact [OF assms(1) e(2,3), of "dc_float D"] e(1)
    by (simp add: decode_message_def loads_def del: json_text.simps)
qed

lemma not_too_long:
  assumes "length line \<le> n" "pred_option (\<lambda>k. n \<le> k) limit"
  shows "\<not> too_long limit line"
  using assms length_takeWhile_le [of "\<lambda>b. b \<noteq> 10" line]
  by (auto simp: too_long_def split: option.splits)

lemma read_line:
  assumes "portable (dc_depth D) (JObj m)" "\<not> too_long limit (encode_framed_response m Line)"
  shows "read_message limit read D (encode_framed_response m Line @ rest) =
    Inr (Some (\<lparr>fm_message = m, fm_raw = encode_framed_response m Line, fm_framing = Line\<rparr>, rest))"
proof -
  let ?t = "map ord (compact (JObj m))"
  have n: "10 \<notin> set ?t" using printable_compact [OF assms(1)] by fastforce
  have "ord (CHR ''{'') \<noteq> ord (CHR ''c'')" "lower_byte (ord (CHR ''{'')) = ord (CHR ''{'')" by code_simp+
  then have "\<not> is_length_header (?t @ [10])" by (simp add: is_length_header_def)
  then show ?thesis
    using readline_line [OF n, of rest] decode_compact [OF assms(1), of "[10]" Line "?t @ [10]" rest] assms(2)
    by (simp add: read_message_def encoded_line(1) [OF assms(1)] del: json_text.simps)
qed

lemma read_frame_line:
  assumes "readline (line @ 13 # 10 # b @ rest) = (line, 13 # 10 # b @ rest)" "\<not> too_long limit line" "line \<noteq> []"
    and "is_length_header line" "parse_content_length line = Inr (Some n)"
    and "header_loop limit (Some n) line (13 # 10 # b @ rest) = Inr (Some (line @ [13, 10], Some n, b @ rest))"
    and "read n (b @ rest) = Inr (Some (b, rest))"
    and "\<And>raw. decode_message D Mcp raw b rest = Inr (Some (\<lparr>fm_message = m, fm_raw = raw, fm_framing = Mcp\<rparr>, rest))"
  shows "read_message limit read D (line @ 13 # 10 # b @ rest) =
    Inr (Some (\<lparr>fm_message = m, fm_raw = line @ 13 # 10 # b, fm_framing = Mcp\<rparr>, rest))"
  using assms by (simp add: read_message_def)

lemma read_frame:
  assumes "portable (dc_depth D) (JObj m)" "length (compact (JObj m)) < 10 ^ 4300"
    and "pred_option (\<lambda>k. 5000 \<le> k) limit"
    and "\<And>n s. n \<le> length s \<Longrightarrow> read (int n) s = Inr (Some (take n s, drop n s))"
  shows "read_message limit read D (encode_framed_response m Mcp @ rest) =
    Inr (Some (\<lparr>fm_message = m, fm_raw = encode_framed_response m Mcp, fm_framing = Mcp\<rparr>, rest))"
proof -
  define b n where bn: "b = map ord (compact (JObj m))" "n = length (compact (JObj m))"
  let ?h = "map ord (''Content-Length: '' @ nat_str n) @ [13]"
  have raw: "encode_framed_response m Mcp = (?h @ [10]) @ [13, 10] @ b"
    using encoded_line(2) [OF assms(1)] by (simp add: bn del: json_text.simps)
  have "\<forall>c \<in> set ''Content-Length: ''. ord c \<noteq> 10" by code_simp
  moreover have "ord c \<noteq> 10" if "c \<in> set (nat_str n)" for c using set_nat_str [OF that] by simp
  ultimately have h: "10 \<notin> set ?h" by auto
  have k: "Suc 4299 = 4300" by simp
  have "length (nat_str n) \<le> 4300" using length_nat_str [of n 4299] assms(2) unfolding k bn by blast
  then have "length (?h @ [10]) \<le> 5000" by simp
  then have short: "\<not> too_long limit (?h @ [10])" using assms(3) by (rule not_too_long)
  have l: "readline ((?h @ [10]) @ 13 # 10 # b @ rest) = (?h @ [10], 13 # 10 # b @ rest)"
    using readline_line [OF h] by simp
  have e: "header_loop limit len hs (13 # 10 # b @ rest) = Inr (Some (hs @ [13, 10], len, b @ rest))" for len hs
    using assms(3) by (intro header_end) (auto simp: pred_option_def)
  have r: "read (int n) (b @ rest) = Inr (Some (b, rest))" using assms(4) [of n "b @ rest"] by (simp add: bn)
  have lt: "n < 10 ^ 4300" using assms(2) unfolding bn .
  have eq: "?h @ [10] = map ord (''Content-Length: '' @ nat_str n) @ [13, 10]" by simp
  have c: "is_length_header (?h @ [10])" "parse_content_length (?h @ [10]) = Inr (Some (int n))"
    unfolding eq by (rule content_length_line [OF lt])+
  have d: "decode_message D Mcp raw b rest = Inr (Some (\<lparr>fm_message = m, fm_raw = raw, fm_framing = Mcp\<rparr>, rest))" for raw
    using decode_compact [OF assms(1), of "[]"] by (simp add: bn del: json_text.simps)
  have i: "encode_framed_response m Mcp @ rest = (?h @ [10]) @ 13 # 10 # b @ rest" unfolding raw by simp
  have ne: "?h @ [10] \<noteq> []" by simp
  have j: "encode_framed_response m Mcp = (?h @ [10]) @ 13 # 10 # b" unfolding raw by simp
  show ?thesis
    unfolding i unfolding j by (rule read_frame_line) (rule l short ne c e r d)+
qed

text \<open>C17. A message written by the proxy in either framing is read back by the reader of the client's
  input, with nothing taken from what follows, and by the reader of the server's output if it is a
  frame or a line of at most 65536 bytes. The message must be free of floats, have distinct keys and
  be nested no deeper than the interpreter allows.\<close>

theorem frame_roundtrip:
  fixes fr
  assumes "portable (dc_depth D) (JObj m)" "length (compact (JObj m)) < 10 ^ 4300"
  defines "raw \<equiv> encode_framed_response m fr"
  defines "f \<equiv> \<lparr>fm_message = m, fm_raw = raw, fm_framing = fr\<rparr>"
  shows "read_framed_message D (raw @ rest) = Inr (Some (f, rest)) \<and>
    (fr = Mcp \<or> length (compact (JObj m)) \<le> 65536 \<longrightarrow> read_async_framed_message D (raw @ rest) = Inr (Some (f, rest)))"
proof (cases fr)
  case Line
  have "length (takeWhile (\<lambda>b. b \<noteq> 10) (encode_framed_response m Line)) \<le> length (compact (JObj m))"
    using length_takeWhile_le [of _ "map ord (compact (JObj m))"]
    unfolding encoded_line(1) [OF assms(1)] by (auto simp: takeWhile_append simp del: json_text.simps)
  then show ?thesis
    using read_line [OF assms(1), of None read_bytes rest] read_line [OF assms(1), of "Some STREAM_LIMIT" read_exactly rest]
    by (simp add: read_framed_message_def read_async_framed_message_def protocol_errors_Some f_def raw_def Line
        too_long_def STREAM_LIMIT_def del: json_text.simps)
next
  case Mcp
  have "read_message None read_bytes D (raw @ rest) = Inr (Some (f, rest))"
    unfolding f_def raw_def Mcp by (rule read_frame [OF assms(1,2)]) (auto simp: read_bytes_def)
  moreover have "read_message (Some STREAM_LIMIT) read_exactly D (raw @ rest) = Inr (Some (f, rest))"
    unfolding f_def raw_def Mcp by (rule read_frame [OF assms(1,2)]) (auto simp: read_exactly_def STREAM_LIMIT_def)
  ultimately show ?thesis
    by (simp add: read_framed_message_def read_async_framed_message_def protocol_errors_Some)
qed


section \<open>Decoding a buffer of messages\<close>

fun decode_lines :: "decoder \<Rightarrow> string list \<Rightarrow> exn + jdict list" where
  "decode_lines D [] = Inr []"
| "decode_lines D (line # lines) =
     (if strip line = [] then decode_lines D lines
      else case loads D (strip line) of
             Inl e \<Rightarrow> Inl e
           | Inr v \<Rightarrow>
               (case decode_lines D lines of
                  Inl e \<Rightarrow> Inl e
                | Inr ms \<Rightarrow> Inr (case v of JObj m \<Rightarrow> m # ms | _ \<Rightarrow> ms)))"

definition decode_jsonrpc_lines :: "decoder \<Rightarrow> string \<Rightarrow> exn + jdict list" where
  "decode_jsonrpc_lines D payload = decode_lines D (splitlines payload)"

text \<open>The position that an index, possibly negative, stands for in a slice, and slices.\<close>

definition slice_index :: "nat \<Rightarrow> int \<Rightarrow> nat" where
  "slice_index n i = (if i < 0 then nat (int n + i) else min n (nat i))"

definition py_slice :: "'a list \<Rightarrow> int \<Rightarrow> int \<Rightarrow> 'a list" where
  "py_slice xs a b =
     (let i = slice_index (length xs) a in take (slice_index (length xs) b - i) (drop i xs))"

text \<open>\<open>payload.find(pattern, start)\<close>.\<close>

fun find_first :: "nat \<Rightarrow> nat list \<Rightarrow> nat list \<Rightarrow> nat option" where
  "find_first i pat [] = (if pat = [] then Some i else None)"
| "find_first i pat (x # xs) = (if prefix pat (x # xs) then Some i else find_first (Suc i) pat xs)"

definition py_find :: "nat list \<Rightarrow> nat list \<Rightarrow> int \<Rightarrow> nat option" where
  "py_find payload pat start =
     (let i = slice_index (length payload) start in find_first i pat (drop i payload))"

text \<open>\<open>header.split("\\r\\n")\<close>.\<close>

fun split_crlf :: "string \<Rightarrow> string \<Rightarrow> string list" where
  "split_crlf w (a # b # s) =
     (if a = CHR 13 \<and> b = CHR 10 then rev w # split_crlf [] s else split_crlf (a # w) (b # s))"
| "split_crlf w s = [rev w @ s]"

text \<open>The first header line named \<open>content-length\<close>.\<close>

fun announced_length :: "string list \<Rightarrow> exn + int option" where
  "announced_length [] = Inr None"
| "announced_length (line # lines) =
     (case partition_at (CHR '':'') line of (name, _, value) \<Rightarrow>
        if lower name = ''content-length''
        then (case py_int (strip value) of Inl e \<Rightarrow> Inl e | Inr n \<Rightarrow> Inr (Some n))
        else announced_length lines)"

text \<open>One round of the loop: the end of the buffer, the next message and the next offset, or the
  exception that is raised.\<close>

definition next_frame :: "decoder \<Rightarrow> nat list \<Rightarrow> int \<Rightarrow> exn + (json \<times> int) option" where
  "next_frame D payload offset =
     (case py_find payload [13, 10, 13, 10] offset of
        None \<Rightarrow> Inr None
      | Some header_end \<Rightarrow>
          (case ascii_decode (py_slice payload offset (int header_end)) of
             Inl e \<Rightarrow> Inl e
           | Inr header \<Rightarrow>
               (case announced_length (split_crlf [] header) of
                  Inl e \<Rightarrow> Inl e
                | Inr None \<Rightarrow> Inl (PyError ''ValueError'')
                | Inr (Some n) \<Rightarrow>
                    (let body_start = int header_end + 4; body_end = body_start + n in
                     if int (length payload) < body_end then Inr None
                     else case utf8_decode (py_slice payload body_start body_end) of
                            None \<Rightarrow> Inl (PyError ''UnicodeDecodeError'')
                          | Some t \<Rightarrow>
                              (case loads D t of Inl e \<Rightarrow> Inl e | Inr v \<Rightarrow> Inr (Some (v, body_end)))))))"

partial_function (option) decode_from ::
  "decoder \<Rightarrow> nat list \<Rightarrow> int \<Rightarrow> jdict list \<Rightarrow> (exn + jdict list) option" where
  "decode_from D payload offset messages =
     (if \<not> offset < int (length payload) then Some (Inr messages)
      else case next_frame D payload offset of
             Inl e \<Rightarrow> Some (Inl e)
           | Inr None \<Rightarrow> Some (Inr messages)
           | Inr (Some (v, body_end)) \<Rightarrow>
               decode_from D payload body_end (case v of JObj m \<Rightarrow> messages @ [m] | _ \<Rightarrow> messages))"

definition decode_mcp_frames :: "decoder \<Rightarrow> nat list \<Rightarrow> (exn + jdict list) option" where
  "decode_mcp_frames D payload = decode_from D payload 0 []"

lemma find_first_range: "find_first i pat xs = Some j \<Longrightarrow> i \<le> j \<and> j + length pat \<le> i + length xs"
  by (induction i pat xs rule: find_first.induct) (auto split: if_splits dest!: prefix_length_le)

text \<open>However the announced lengths are chosen, also negative ones, the next offset stands for a
  later position of the buffer.\<close>

lemma next_frame_progress:
  assumes "next_frame D payload offset = Inr (Some (v, offset'))"
  shows "slice_index (length payload) offset < slice_index (length payload) offset'"
proof -
  let ?n = "length payload"
  obtain h t n where h: "py_find payload [13, 10, 13, 10] offset = Some h" and o: "offset' = int h + 4 + n"
    and b: "utf8_decode (py_slice payload (int h + 4) offset') = Some t" and l: "loads D t = Inr v"
    using assms by (auto simp: next_frame_def Let_def split: option.splits sum.splits if_splits)
  have "slice_index ?n offset \<le> h" "h + 4 \<le> ?n"
    using h find_first_range [of "slice_index ?n offset" "[13, 10, 13, 10]" "drop (slice_index ?n offset) payload" h]
    by (auto simp: py_find_def Let_def slice_index_def split: if_splits)
  moreover have "t \<noteq> []" using l by (auto simp: loads_def json_loads_def skip_ws_def parse_value.simps)
  then have "py_slice payload (int h + 4) offset' \<noteq> []" using b by auto
  ultimately show ?thesis by (auto simp: py_slice_def Let_def slice_index_def split: if_splits)
qed

text \<open>C19. Decoding a buffer of frames always ends, with a list of messages or an exception, whatever
  lengths the headers announce.\<close>

theorem decode_mcp_frames_terminates: "\<exists>r. decode_mcp_frames D payload = Some r"
proof -
  have "\<exists>r. decode_from D payload offset ms = Some r" for offset ms
  proof (induction "length payload - slice_index (length payload) offset" arbitrary: offset ms rule: less_induct)
    case less
    show ?case
    proof (cases "next_frame D payload offset")
      case (Inr x)
      then show ?thesis
      proof (cases x)
        case (Some y)
        obtain v offset' where y: "y = (v, offset')" by (cases y)
        have "slice_index (length payload) offset < slice_index (length payload) offset'"
          using next_frame_progress Inr Some y by simp
        moreover have "slice_index (length payload) offset' \<le> length payload" by (auto simp: slice_index_def)
        ultimately have "\<exists>r. decode_from D payload offset' ms' = Some r" for ms' by (intro less) simp
        then show ?thesis using Inr Some y by (subst decode_from.simps) simp
      qed (subst decode_from.simps, auto)
    qed (subst decode_from.simps, auto)
  qed
  then show ?thesis by (simp add: decode_mcp_frames_def)
qed


section \<open>Concrete messages\<close>

definition decoder1 :: decoder where
  "decoder1 = \<lparr>dc_float = (\<lambda>s. JStr s), dc_depth = 100\<rparr>"

definition ping :: jdict where
  "ping = [(''id'', JInt 1), (''method'', JStr ''ping'')]"

definition big_reply :: jdict where
  "big_reply = [(''id'', JInt 1), (''result'', JStr (replicate 70000 (CHR ''a'')))]"

lemma ping_facts: "portable (dc_depth decoder1) (JObj ping)" "length (compact (JObj ping)) = 24"
  by code_simp+

lemma big_reply_facts:
  "portable (dc_depth decoder1) (JObj big_reply)" "length (compact (JObj big_reply)) = 70020"
proof -
  show "portable (dc_depth decoder1) (JObj big_reply)"
    unfolding big_reply_def by (simp add: decoder1_def) code_simp
  have "json_escape True (CHR ''a'') = ''a''" by code_simp
  then have "length (json_string True (replicate n (CHR ''a''))) = n + 2" for n
    by (simp add: json_string_def length_concat sum_list_replicate)
  moreover have "length (json_string True ''id'') = 4" "length (json_string True ''result'') = 8" "length (int_str 1) = 1"
    by code_simp+
  ultimately show "length (compact (JObj big_reply)) = 70020" by (simp add: big_reply_def)
qed

theorem frame_roundtrip_witness:
  "read_async_framed_message decoder1 (encode_framed_response ping Line @ [1, 2]) =
     Inr (Some (\<lparr>fm_message = ping, fm_raw = encode_framed_response ping Line, fm_framing = Line\<rparr>, [1, 2]))"
proof -
  have "(24 :: nat) < 10 ^ 2" by simp
  also have "\<dots> \<le> 10 ^ 4300" by (rule power_increasing) simp_all
  finally have "length (compact (JObj ping)) < 10 ^ 4300" unfolding ping_facts(2) .
  from frame_roundtrip [OF ping_facts(1) this, where fr = Line and rest = "[1, 2]"] show ?thesis
    using ping_facts(2) by (simp del: json_text.simps)
qed

definition two_lines :: "nat list" where
  "two_lines = map ord ''{}'' @ [10] @ map ord ''x''"

lemma two_lines_read:
  "read_framed_message decoder1 two_lines =
     Inr (Some (\<lparr>fm_message = [], fm_raw = [123, 125, 10], fm_framing = Line\<rparr>, [120]))"
  by code_simp

theorem inspected_bytes_are_forwarded_witness:
  "[123, 125, 10] @ [120] = two_lines \<and> (\<exists>t. utf8_decode [123, 125, 10] = Some t \<and> loads decoder1 t = Inr (JObj []))"
  using inspected_bytes_are_forwarded [OF disjI1 [OF two_lines_read]] by simp

text \<open>A reply of 70020 characters on one line, which the client could send but the server cannot.\<close>

theorem long_line_ends_stream_witness:
  "read_framed_message decoder1 (encode_framed_response big_reply Line) =
     Inr (Some (\<lparr>fm_message = big_reply, fm_raw = encode_framed_response big_reply Line, fm_framing = Line\<rparr>, []))
   \<and> read_async_framed_message decoder1 (encode_framed_response big_reply Line) = Inr None"
proof -
  note p = big_reply_facts(1)
  have "\<not> too_long None (encode_framed_response big_reply Line)" by (simp add: too_long_def)
  from read_line [OF p this, of read_bytes "[]"]
  have r: "read_framed_message decoder1 (encode_framed_response big_reply Line) =
     Inr (Some (\<lparr>fm_message = big_reply, fm_raw = encode_framed_response big_reply Line, fm_framing = Line\<rparr>, []))"
    unfolding read_framed_message_def protocol_errors_Some by simp
  have n: "10 \<notin> set (map ord (compact (JObj big_reply)))" using printable_compact [OF p] by fastforce
  have "takeWhile (\<lambda>b. b \<noteq> 10) (encode_framed_response big_reply Line) = map ord (compact (JObj big_reply))"
    unfolding encoded_line(1) [OF p] using n by (subst takeWhile_append2) auto
  then have "length (takeWhile (\<lambda>b. b \<noteq> 10) (encode_framed_response big_reply Line)) = 70020"
    using big_reply_facts(2) by (simp only: length_map)
  then show ?thesis
    using long_line_ends_stream [OF r] r by (simp del: json_text.simps)
qed

end
