(* ===== verification/Proxy.thy ===== *)
theory Proxy
  imports Gateway Framing
begin

text \<open>
  \<open>run_stdio_proxy\<close> of \<open>src/zeroadr/gateway/stdio_proxy.py\<close>: the two tasks that relay messages
  between the client and the server, and the ordering of responses. A definition is what a task
  does between two points where it yields to the other; \<open>client_pc\<close> and \<open>server_pc\<close> say where it
  waits. No task yields while it holds the output lock, so the lock is never contended and a round
  of \<open>flush_ordered_responses\<close> is one action. A call that runs in a worker thread is one action as
  well. What is written to the client carries the id when it comes out of the ordered queue.
\<close>

datatype client_pc =
    Reading
  | Full framed_message
  | Inspecting framed_message
  | Asking framed_message string "pending_call option"
  | ClientFlushing
  | ClientFailed

datatype server_pc =
    Listening
  | Holding framed_message result_inspection
  | ServerFlushing "(prepared_shadow \<times> nat) option"
  | ServerFailed

record proxy = gw +
  px_order :: "request_id list"
  px_blocked :: "(request_id \<times> nat list) list"
  px_server :: "(request_id \<times> nat list) list"
  px_out :: "(request_id option \<times> nat list) list"
  px_child :: "nat list list"
  px_client :: client_pc
  px_reader :: server_pc
  px_shadow :: "(prepared_shadow \<times> nat) list"
  px_drained :: bool
  px_released :: bool

definition ordered_id :: "framed_message \<Rightarrow> request_id option" where
  "ordered_id f = rid_of (dget (fm_message f) ''id'')"

definition write_out :: "request_id option \<Rightarrow> nat list \<Rightarrow> 'a proxy_scheme \<Rightarrow> 'a proxy_scheme" where
  "write_out i b s = s\<lparr>px_out := px_out s @ [(i, b)]\<rparr>"

section \<open>The queue of responses\<close>

text \<open>One round of \<open>flush_ordered_responses\<close>, or \<open>None\<close> when the oldest request has no response yet.\<close>

definition deliver :: "request_id \<Rightarrow> request_id list \<Rightarrow> nat list \<Rightarrow> 'a proxy_scheme \<Rightarrow> 'a proxy_scheme" where
  "deliver i rest b s =
     (let s = write_out (Some i) b (s\<lparr>px_order := rest, px_released := True\<rparr>)
      in if rest = [] then s\<lparr>px_drained := True\<rparr> else s)"

definition flush_one :: "'a proxy_scheme \<Rightarrow> 'a proxy_scheme option" where
  "flush_one s =
     (case px_order s of
        [] \<Rightarrow> None
      | i # rest \<Rightarrow>
          (case map_of (px_blocked s) i of
             Some b \<Rightarrow> Some (deliver i rest b (s\<lparr>px_blocked := ddel i (px_blocked s)\<rparr>))
           | None \<Rightarrow>
               (case map_of (px_server s) i of
                  Some b \<Rightarrow> Some (deliver i rest b (s\<lparr>px_server := ddel i (px_server s)\<rparr>))
                | None \<Rightarrow> None)))"

lemma flush_one_order: "flush_one s = Some s' \<Longrightarrow> \<exists>i. px_order s = i # px_order s'"
  by (auto simp: flush_one_def deliver_def write_out_def Let_def split: list.splits option.splits if_splits)

text \<open>The whole loop.\<close>

function flush_ordered_responses :: "'a proxy_scheme \<Rightarrow> 'a proxy_scheme" where
  "flush_ordered_responses s =
     (case flush_one s of None \<Rightarrow> s | Some s' \<Rightarrow> flush_ordered_responses s')"
  by pat_completeness auto
termination
  by (relation "measure (\<lambda>s. length (px_order s))") (auto dest: flush_one_order)

declare flush_ordered_responses.simps [simp del]

section \<open>From the client to the server\<close>

definition duplicate_error :: "request_id \<Rightarrow> jdict" where
  "duplicate_error i =
     [(''jsonrpc'', JStr ''2.0''), (''id'', json_rid (Some i)),
      (''error'', JObj [(''code'', JInt (- 32600)), (''message'', JStr ''Duplicate in-flight JSON-RPC request id''),
        (''data'', JObj [(''reason'', JStr ''Request IDs must be unique until completion.'')])])]"

definition queue_full :: "'w gateway \<Rightarrow> 'a proxy_scheme \<Rightarrow> bool" where
  "queue_full G s =
     (case pe_result_gate (gateway_engine G) of
        None \<Rightarrow> False | Some gate \<Rightarrow> trg_max_pending gate \<le> length (px_order s))"

text \<open>The test of the slot loop; the last part appends the id.\<close>

definition take_slot :: "'w gateway \<Rightarrow> framed_message \<Rightarrow> request_id \<Rightarrow> 'a proxy_scheme \<Rightarrow> 'a proxy_scheme" where
  "take_slot G f i s =
     (if queue_full G s then s\<lparr>px_released := False, px_client := Full f\<rparr>
      else s\<lparr>px_order := px_order s @ [i], px_drained := False, px_client := Inspecting f\<rparr>)"

definition client_read :: "'w gateway \<Rightarrow> framed_message \<Rightarrow> 'a proxy_scheme \<Rightarrow> 'a proxy_scheme" where
  "client_read G f s =
     (case ordered_id f of
        None \<Rightarrow> s\<lparr>px_client := Inspecting f\<rparr>
      | Some i \<Rightarrow>
          if i \<in> set (px_order s) \<or> map_of (gw_pending s) i \<noteq> None
          then write_out None (encode_framed_response (duplicate_error i) (fm_framing f)) s
          else take_slot G f i s)"

definition client_answer :: "framed_message \<Rightarrow> jdict \<Rightarrow> 'a proxy_scheme \<Rightarrow> 'a proxy_scheme" where
  "client_answer f message s =
     (let b = encode_framed_response message (fm_framing f) in
      case ordered_id f of
        Some i \<Rightarrow> s\<lparr>px_blocked := dset i b (px_blocked s), px_client := ClientFlushing\<rparr>
      | None \<Rightarrow> (write_out None b s)\<lparr>px_client := Reading\<rparr>)"

definition forward :: "framed_message \<Rightarrow> 'a proxy_scheme \<Rightarrow> 'a proxy_scheme" where
  "forward f s = s\<lparr>px_child := px_child s @ [fm_raw f], px_client := Reading\<rparr>"

definition client_inspect ::
  "validators \<Rightarrow> 'a proxy_scheme gateway \<Rightarrow> framed_message \<Rightarrow> 'a proxy_scheme \<Rightarrow> 'a proxy_scheme" where
  "client_inspect V G f s =
     (case inspect_client_message V G (fm_message f) s of
        (Inl e, s) \<Rightarrow> s\<lparr>px_client := ClientFailed\<rparr>
      | (Inr r, s) \<Rightarrow>
          (case ci_block r of
             Some message \<Rightarrow> client_answer f message s
           | None \<Rightarrow>
               (case ci_approval r of
                  Some a \<Rightarrow> if a \<noteq> [] then s\<lparr>px_client := Asking f a (ci_pending r)\<rparr> else forward f s
                | None \<Rightarrow> forward f s)))"

text \<open>The end of the wait for an approval, with the answer of \<open>wait_for_approval_resolution\<close>.\<close>

definition client_resolved ::
  "framed_message \<Rightarrow> pending_call option \<Rightarrow> jdict \<Rightarrow> 'a proxy_scheme \<Rightarrow> 'a proxy_scheme" where
  "client_resolved f pending outcome s =
     (if dget outcome ''effective_action'' \<noteq> JStr ''allow''
      then client_answer f (render_approval_block_response (ordered_id f) outcome) s
      else forward f (case pending of None \<Rightarrow> s | Some p \<Rightarrow> register_pending p s))"

section \<open>From the server to the client\<close>

definition hold_response ::
  "(prepared_shadow \<times> nat) option \<Rightarrow> request_id \<Rightarrow> nat list \<Rightarrow> 'a proxy_scheme \<Rightarrow> 'a proxy_scheme" where
  "hold_response later i b s = s\<lparr>px_server := dset i b (px_server s), px_reader := ServerFlushing later\<rparr>"

definition server_error :: "request_id \<Rightarrow> framed_message \<Rightarrow> int \<Rightarrow> string \<Rightarrow> string \<Rightarrow> nat list" where
  "server_error i f code message reason =
     encode_framed_response (render_tool_result_error (Some i) code message reason) (fm_framing f)"

text \<open>After the flush a prepared review is left to the background.\<close>

definition server_flushed :: "(prepared_shadow \<times> nat) option \<Rightarrow> 'a proxy_scheme \<Rightarrow> 'a proxy_scheme" where
  "server_flushed later s =
     (case later of
        None \<Rightarrow> s\<lparr>px_reader := Listening\<rparr>
      | Some p \<Rightarrow> s\<lparr>px_reader := Listening, px_shadow := px_shadow s @ [p]\<rparr>)"

text \<open>A message that answers no ordered request is inspected and passed on at once.\<close>

definition server_pass :: "'a proxy_scheme gateway \<Rightarrow> framed_message \<Rightarrow> 'a proxy_scheme \<Rightarrow> 'a proxy_scheme" where
  "server_pass G f s =
     (case inspect_server_message G (fm_message f) (length (fm_raw f)) False s of
        (Inl e, s) \<Rightarrow> s\<lparr>px_reader := ServerFailed\<rparr>
      | (Inr r, s) \<Rightarrow> write_out None (fm_raw f) s)"

definition server_over_limit ::
  "'a proxy_scheme gateway \<Rightarrow> tool_result_gate_policy \<Rightarrow> framed_message \<Rightarrow> request_id \<Rightarrow> 'a proxy_scheme \<Rightarrow> 'a proxy_scheme" where
  "server_over_limit G gate f i s =
     (case inspect_server_message G (fm_message f) (length (fm_raw f)) True s of
        (Inl e, s) \<Rightarrow> s\<lparr>px_reader := ServerFailed\<rparr>
      | (Inr r, s) \<Rightarrow>
          hold_response None i
            (if trg_mode gate = Enforce
             then server_error i f (- 32004) ''Tool Result Gate resource limit''
                    ''Buffered MCP response exceeded the configured byte limit.''
             else fm_raw f) s)"

definition server_shadow ::
  "'w gateway \<Rightarrow> framed_message \<Rightarrow> request_id \<Rightarrow> 'a proxy_scheme \<Rightarrow> 'a proxy_scheme" where
  "server_shadow G f i s =
     (let (p, s) = prepare_shadow_tool_result G (fm_message f) s
      in hold_response (map_option (\<lambda>p. (p, length (fm_raw f))) p) i (fm_raw f) s)"

definition server_inspect ::
  "'a proxy_scheme gateway \<Rightarrow> framed_message \<Rightarrow> request_id \<Rightarrow> 'a proxy_scheme \<Rightarrow> 'a proxy_scheme" where
  "server_inspect G f i s =
     (case inspect_server_message G (fm_message f) (length (fm_raw f)) False s of
        (Inl e, s) \<Rightarrow> s\<lparr>px_reader := ServerFailed\<rparr>
      | (Inr r, s) \<Rightarrow>
          if ri_action r = Block
          then hold_response None i (server_error i f (- 32001) ''Blocked by ZeroADR Tool Result Gate''
                 ''The MCP tool result was blocked by policy.'') s
          else if ri_action r = RequireApproval \<and> ri_approval r \<noteq> None
          then s\<lparr>px_reader := Holding f r\<rparr>
          else hold_response None i (fm_raw f) s)"

definition buffered_bytes :: "'a proxy_scheme \<Rightarrow> nat" where
  "buffered_bytes s = sum_list (map (\<lambda>(i, b). length b) (px_server s))"

definition server_read ::
  "'a proxy_scheme gateway \<Rightarrow> framed_message \<Rightarrow> 'a proxy_scheme \<Rightarrow> 'a proxy_scheme" where
  "server_read G f s =
     (case ordered_id f of
        None \<Rightarrow> server_pass G f s
      | Some i \<Rightarrow>
          if i \<notin> set (px_order s) then server_pass G f s
          else
            (case (if map_of (gw_pending s) i \<noteq> None then pe_result_gate (gateway_engine G) else None) of
               None \<Rightarrow> server_inspect G f i s
             | Some gate \<Rightarrow>
                 if trg_max_bytes gate < length (fm_raw f) + buffered_bytes s then server_over_limit G gate f i s
                 else if trg_mode gate = Shadow \<and> trg_review gate = Hybrid then server_shadow G f i s
                 else server_inspect G f i s))"

text \<open>The end of the wait for the approval of a result.\<close>

definition final_status :: "jdict \<Rightarrow> approval_status" where
  "final_status outcome =
     (let st = py_str (dget_or outcome ''status'' (JStr ''denied'')) in
      if st = ''approved'' then Approved else if st = ''expired'' then Expired else Denied)"

definition server_resolved ::
  "'w gateway \<Rightarrow> framed_message \<Rightarrow> request_id \<Rightarrow> result_inspection \<Rightarrow> jdict \<Rightarrow> 'a proxy_scheme \<Rightarrow> 'a proxy_scheme" where
  "server_resolved G f i r outcome s =
     (let s = (case ri_record r of None \<Rightarrow> s
               | Some g \<Rightarrow> snd (finalize_tool_result_approval G g (final_status outcome) s));
          expired = (dget outcome ''status'' = JStr ''expired'')
      in hold_response None i
           (if dget outcome ''effective_action'' = JStr ''allow'' then fm_raw f
            else server_error i f (if expired then - 32003 else - 32002)
                   (if expired then ''Tool Result approval expired'' else ''Tool Result approval denied'')
                   (py_str (json_or (dget outcome ''resolution_comment'')
                      (JStr ''The untrusted result was not approved.'')))) s)"

text \<open>A review in the background.\<close>

definition shadow_review ::
  "'a proxy_scheme gateway \<Rightarrow> tool_result_gate_policy \<Rightarrow> prepared_shadow \<times> nat \<Rightarrow> 'a proxy_scheme \<Rightarrow> 'a proxy_scheme" where
  "shadow_review G gate p s =
     (snd (inspect_prepared_shadow_tool_result G gate (fst p) (snd p) s))
       \<lparr>px_shadow := remove1 p (px_shadow s)\<rparr>"


section \<open>The two tasks together\<close>

text \<open>The steps of the proxy: any message may arrive on either side, approvals are resolved by other
  processes, and a wait for an approval ends with the final state of its request.\<close>

inductive proxy_step :: "validators \<Rightarrow> 'a proxy_scheme gateway \<Rightarrow> 'a proxy_scheme \<Rightarrow> 'a proxy_scheme \<Rightarrow> bool"
  for V G where
  read: "px_client s = Reading \<Longrightarrow> proxy_step V G s (client_read G f s)"
| slot: "px_client s = Full f \<Longrightarrow> px_released s \<Longrightarrow> ordered_id f = Some i \<Longrightarrow> proxy_step V G s (take_slot G f i s)"
| inspect: "px_client s = Inspecting f \<Longrightarrow> proxy_step V G s (client_inspect V G f s)"
| approval: "px_client s = Asking f a p \<Longrightarrow> get_approval_request a (sy_db s) = Some q \<Longrightarrow> ap_status q \<noteq> Pending \<Longrightarrow>
    proxy_step V G s (client_resolved f p (build_wait_approval_response q) s)"
| client_flush: "px_client s = ClientFlushing \<Longrightarrow> flush_one s = Some s' \<Longrightarrow> proxy_step V G s s'"
| client_flushed: "px_client s = ClientFlushing \<Longrightarrow> flush_one s = None \<Longrightarrow> proxy_step V G s (s\<lparr>px_client := Reading\<rparr>)"
| receive: "px_reader s = Listening \<Longrightarrow> proxy_step V G s (server_read G f s)"
| result: "px_reader s = Holding f r \<Longrightarrow> ordered_id f = Some i \<Longrightarrow> ri_approval r = Some a \<Longrightarrow>
    get_approval_request (ap_id a) (sy_db s) = Some q \<Longrightarrow> ap_status q \<noteq> Pending \<Longrightarrow>
    proxy_step V G s (server_resolved G f i r (build_wait_approval_response q) s)"
| server_flush: "px_reader s = ServerFlushing p \<Longrightarrow> flush_one s = Some s' \<Longrightarrow> proxy_step V G s s'"
| server_flushed: "px_reader s = ServerFlushing p \<Longrightarrow> flush_one s = None \<Longrightarrow> proxy_step V G s (server_flushed p s)"
| background: "p \<in> set (px_shadow s) \<Longrightarrow> pe_result_gate (gateway_engine G) = Some gate \<Longrightarrow>
    proxy_step V G s (shadow_review G gate p s)"
| elsewhere: "proxy_step V G s (others ops s)"

text \<open>A run with the ids that entered the queue, in order.\<close>

inductive proxy_run :: "validators \<Rightarrow> 'a proxy_scheme gateway \<Rightarrow> 'a proxy_scheme \<Rightarrow> request_id list \<Rightarrow> 'a proxy_scheme \<Rightarrow> bool"
  for V G s where
  start: "proxy_run V G s [] s"
| step: "proxy_run V G s ids s' \<Longrightarrow> proxy_step V G s' s'' \<Longrightarrow>
    proxy_run V G s (ids @ drop (length (px_order s')) (px_order s'')) s''"

section \<open>What the runtime leaves to the proxy\<close>

definition relay :: "'a proxy_scheme \<Rightarrow> _" where
  "relay s = (px_order s, px_blocked s, px_server s, px_out s, px_child s, px_client s, px_reader s, px_shadow s)"

lemma relay_simps [simp]:
  "relay (s\<lparr>gw_pending := p\<rparr>) = relay s" "relay (register_pending c s) = relay s"
  by (simp_all add: relay_def register_pending_def)

lemma relay_parts:
  assumes "relay s = relay s'"
  shows "px_order s = px_order s'" "px_out s = px_out s'" "px_blocked s = px_blocked s'" "px_server s = px_server s'"
    "px_child s = px_child s'" "px_client s = px_client s'"
  using assms by (simp_all add: relay_def)

interpretation relay: untouched relay
  by unfold_locales (simp_all add: relay_def)

definition safe_gateway :: "'a proxy_scheme gateway \<Rightarrow> bool" where
  "safe_gateway G = (lawful (sv_adjudicator (gy_service G)) \<and> lawful (gy_result_reviewer G))"

lemma inspect_client_relay:
  assumes "safe_gateway G"
  shows "relay (snd (inspect_client_message V G m s)) = relay s"
proof -
  have l: "lawful (sv_adjudicator (gy_service G))" using assms by (simp add: safe_gateway_def)
  obtain e s0 where e: "request_event G m s = (e, s0)" by (metis surj_pair)
  then have s0: "relay s0 = relay s" by (metis relay.request_event_view snd_conv)
  obtain rd s1 where rd: "service_evaluate V (gy_service G) e s0 = (rd, s1)" by (metis surj_pair)
  then have s1: "relay s1 = relay s"
    using relay.service_evaluate_view [OF l, of V e s0] s0 by simp
  have g: "relay (snd (apply_request_gate G e d s1)) = relay s" for d
    using relay.review_stage_view [of "gateway_coordinator G" e StagePreTool "pe_request_gate (gateway_engine G)" s1] s1
    by (auto simp: apply_request_gate_def review_tool_request_def gateway_coordinator_def case_prod_beta
      frame_simps Let_def split: if_splits sum.splits prod.splits)
  have a: "relay (snd (answer_request G m e d ap t)) = relay t" for d ap t
    by (auto simp: answer_request_def request_approval_def Let_def case_prod_beta frame_simps split: option.splits)
  show ?thesis
    by (simp add: inspect_client_message_def e rd Let_def case_prod_beta a g s1 split: sum.splits)
qed


lemma inspect_server_relay:
  assumes "safe_gateway G"
  shows "relay (snd (inspect_server_message G m bytes over s)) = relay s"
proof -
  have l: "lawful (gy_result_reviewer G)" using assms by (simp add: safe_gateway_def)
  have "relay (snd (pop_pending v s)) = relay s" for v
    by (simp add: pop_pending_def split: option.splits)
  moreover obtain p s1 where p: "pop_pending (dget m ''id'') s = (p, s1)" by (metis surj_pair)
  ultimately have "relay s1 = relay s" by (metis snd_conv)
  then show ?thesis
    by (simp add: inspect_server_message_def p Let_def case_prod_beta frame_simps
        relay.inspect_tool_result_view [OF l] split: option.splits)
qed

lemma prepare_shadow_relay: "relay (snd (prepare_shadow_tool_result G m s)) = relay s"
proof -
  have "relay (snd (pop_pending v s)) = relay s" for v
    by (simp add: pop_pending_def split: option.splits)
  moreover obtain p s1 where p: "pop_pending (dget m ''id'') s = (p, s1)" by (metis surj_pair)
  ultimately have "relay s1 = relay s" by (metis snd_conv)
  then show ?thesis
    by (simp add: prepare_shadow_tool_result_def p Let_def case_prod_beta frame_simps split: option.splits)
qed

lemma approval_step_walls: "\<exists>n. snd (snd (approval_step p (d, w))) = w\<lparr>w_walls := n\<rparr>"
proof (cases p)
  case (RequestApproval a)
  then show ?thesis by (auto intro: exI [of _ "w_walls w"])
next
  case (ResolveApproval i st b c)
  then show ?thesis
    by (auto simp: approval_ops transition_approval_request_def utc_now_def Let_def case_prod_beta
        split: option.splits intro: exI [of _ "w_walls w"])
next
  case (ExpireApproval i)
  then show ?thesis
    by (auto simp: approval_ops transition_approval_request_def utc_now_def Let_def case_prod_beta
        split: option.splits intro: exI [of _ "w_walls w"])
qed

lemma run_ops_walls: "\<exists>n. snd (snd (run_ops approval_step ps (d, w))) = w\<lparr>w_walls := n\<rparr>"
proof (induction ps arbitrary: d w)
  case Nil
  then show ?case by (auto intro: exI [of _ "w_walls w"])
next
  case (Cons p ps)
  obtain d' w' where s: "snd (approval_step p (d, w)) = (d', w')" by (metis surj_pair)
  then obtain n where "w' = w\<lparr>w_walls := n\<rparr>" using approval_step_walls [of p d w] by auto
  moreover obtain m where "snd (snd (run_ops approval_step ps (d', w'))) = w'\<lparr>w_walls := m\<rparr>"
    using Cons.IH by blast
  ultimately show ?case by (auto simp: s)
qed

lemma others_relay: "relay (others ops s) = relay s"
proof -
  obtain n where "snd (snd (run_ops approval_step ops (sy_db s, s))) = s\<lparr>w_walls := n\<rparr>"
    using run_ops_walls by blast
  then show ?thesis by (simp add: others_def case_prod_beta)
qed

section \<open>Responses leave in the order of their requests\<close>

text \<open>The writes that come out of the queue.\<close>

definition ordered_writes :: "'a proxy_scheme \<Rightarrow> (request_id \<times> nat list) list" where
  "ordered_writes s = concat (map (\<lambda>(i, b). case i of None \<Rightarrow> [] | Some i \<Rightarrow> [(i, b)]) (px_out s))"

definition grows :: "'a proxy_scheme \<Rightarrow> 'a proxy_scheme \<Rightarrow> bool" where
  "grows s s' = (\<exists>xs. px_order s' = px_order s @ xs \<and> length xs \<le> 1 \<and> set xs \<inter> set (px_order s) = {}
     \<and> ordered_writes s' = ordered_writes s)"

lemma ordered_writes_simps [simp]:
  "ordered_writes (write_out (Some i) b s) = ordered_writes s @ [(i, b)]"
  "ordered_writes (write_out None b s) = ordered_writes s"
  "ordered_writes (s\<lparr>px_order := q\<rparr>) = ordered_writes s"
  "ordered_writes (s\<lparr>px_client := c\<rparr>) = ordered_writes s"
  "ordered_writes (s\<lparr>px_reader := c'\<rparr>) = ordered_writes s"
  "ordered_writes (s\<lparr>px_blocked := bl\<rparr>) = ordered_writes s"
  "ordered_writes (s\<lparr>px_server := sv\<rparr>) = ordered_writes s"
  "ordered_writes (s\<lparr>px_drained := b1\<rparr>) = ordered_writes s"
  "ordered_writes (s\<lparr>px_released := b2\<rparr>) = ordered_writes s"
  "ordered_writes (s\<lparr>px_shadow := sh\<rparr>) = ordered_writes s"
  "ordered_writes (s\<lparr>px_child := ch\<rparr>) = ordered_writes s"
  by (simp_all add: ordered_writes_def write_out_def)

lemma grows_same: "px_order s' = px_order s \<Longrightarrow> ordered_writes s' = ordered_writes s \<Longrightarrow> grows s s'"
  by (auto simp: grows_def)

lemma ordered_writes_relay: "relay s = relay s' \<Longrightarrow> ordered_writes s = ordered_writes s'"
  using relay_parts(2) [of s s'] by (simp add: ordered_writes_def)

lemma write_out_order [simp]: "px_order (write_out i b s) = px_order s"
  by (simp add: write_out_def)

lemma client_inspect_grows:
  assumes "safe_gateway G"
  shows "grows s (client_inspect V G f s)"
proof -
  obtain r s1 where r: "inspect_client_message V G (fm_message f) s = (r, s1)" by (metis surj_pair)
  then have "relay s1 = relay s" using inspect_client_relay [OF assms, of V "fm_message f" s] by simp
  then have "px_order s1 = px_order s" "ordered_writes s1 = ordered_writes s"
    using relay_parts(1) ordered_writes_relay by blast+
  then show ?thesis
    by (intro grows_same)
       (auto simp: client_inspect_def r client_answer_def forward_def Let_def split: sum.splits option.splits)
qed

text \<open>What the server task does with a message moves neither the queue nor the client task.\<close>

definition still :: "'a proxy_scheme \<Rightarrow> 'a proxy_scheme \<Rightarrow> bool" where
  "still s s' = (px_order s' = px_order s \<and> ordered_writes s' = ordered_writes s \<and> px_client s' = px_client s
     \<and> px_child s' = px_child s)"

lemma still_grows: "still s s' \<Longrightarrow> grows s s'"
  by (auto simp: still_def grows_same)

lemma still_relay: "relay s' = relay s \<Longrightarrow> still s s'"
  using relay_parts [of s' s] ordered_writes_relay [of s' s] by (simp add: still_def)

lemma still_simps [simp]:
  "still s (s'\<lparr>px_reader := c\<rparr>) = still s s'" "still s (s'\<lparr>px_server := sv\<rparr>) = still s s'"
  "still s (s'\<lparr>px_shadow := sh\<rparr>) = still s s'" "still s (write_out None b s') = still s s'"
  by (simp_all add: still_def ordered_writes_def write_out_def)

lemma server_read_still:
  assumes "safe_gateway G"
  shows "still s (server_read G f s)"
proof -
  have i: "still s s1" if "inspect_server_message G (fm_message f) bytes over s = (r, s1)" for bytes over r s1
    using that inspect_server_relay [OF assms, of "fm_message f" bytes over s] by (intro still_relay) simp
  have p: "still s s1" if "prepare_shadow_tool_result G (fm_message f) s = (r, s1)" for r s1
    using that prepare_shadow_relay [of G "fm_message f" s] by (intro still_relay) simp
  have "still s (server_pass G f s)"
    using i by (auto simp: server_pass_def split: prod.splits sum.splits)
  moreover have "still s (server_over_limit G gate f k s)" for gate k
    using i by (auto simp: server_over_limit_def hold_response_def split: prod.splits sum.splits)
  moreover have "still s (server_shadow G f k s)" for k
    using p by (auto simp: server_shadow_def hold_response_def split: prod.splits)
  moreover have "still s (server_inspect G f k s)" for k
    using i by (auto simp: server_inspect_def hold_response_def split: prod.splits sum.splits)
  ultimately show ?thesis
    by (simp add: server_read_def split: option.splits)
qed

lemma server_resolved_still: "still s (server_resolved G f i r outcome s)"
  by (simp add: server_resolved_def hold_response_def Let_def finalize_tool_result_approval_def update_db_def
      still_def ordered_writes_def split: option.splits)

lemma background_still:
  assumes "safe_gateway G"
  shows "still s (shadow_review G gate p s)"
proof -
  have "relay (snd (inspect_prepared_shadow_tool_result G gate (fst p) (snd p) s)) = relay s"
    using assms relay.inspect_tool_result_view
    unfolding inspect_prepared_shadow_tool_result_def safe_gateway_def by blast
  then show ?thesis by (simp add: shadow_review_def still_relay)
qed

lemma others_still: "still s (others ops s)"
  by (rule still_relay) (rule others_relay)

lemma server_flushed_still: "still s (server_flushed p s)"
  by (simp add: server_flushed_def still_def ordered_writes_def split: option.splits)

lemmas server_still = server_read_still server_resolved_still background_still others_still server_flushed_still

lemma client_read_grows:
  assumes "distinct (px_order s)"
  shows "grows s (client_read G f s)"
proof -
  have "grows s (take_slot G f i s)" if "i \<notin> set (px_order s)" for i
    using that by (auto simp: grows_def take_slot_def intro: exI [of _ "[i]"])
  then show ?thesis
    by (auto simp: client_read_def grows_same split: option.splits)
qed

lemma flush_one_step:
  assumes "flush_one s = Some s'"
  shows "\<exists>i b. px_order s = i # px_order s' \<and> ordered_writes s' = ordered_writes s @ [(i, b)]"
  using assms
  by (auto simp: flush_one_def deliver_def Let_def split: list.splits option.splits if_splits)

text \<open>While the client task waits for a slot its id is not in the queue.\<close>

definition waiting_ok :: "'a proxy_scheme \<Rightarrow> bool" where
  "waiting_ok s =
     (distinct (px_order s) \<and>
      (case px_client s of Full f \<Rightarrow> (case ordered_id f of Some i \<Rightarrow> i \<notin> set (px_order s) | None \<Rightarrow> True) | _ \<Rightarrow> True))"

lemma proxy_step_queue:
  assumes "proxy_step V G s s'" "safe_gateway G" "waiting_ok s"
  shows "grows s s' \<or> (\<exists>i b. px_order s = i # px_order s' \<and> ordered_writes s' = ordered_writes s @ [(i, b)])"
  using assms
proof (cases rule: proxy_step.cases)
  case (read f)
  then show ?thesis using client_read_grows assms(3) by (auto simp: waiting_ok_def)
next
  case (slot f i)
  then show ?thesis
    using assms(3) by (auto simp: grows_def take_slot_def waiting_ok_def intro: exI [of _ "[i]"])
next
  case (inspect f)
  then show ?thesis using client_inspect_grows [OF assms(2)] by simp
next
  case (approval f a p q)
  then show ?thesis
    by (auto intro!: grows_same simp: client_resolved_def client_answer_def forward_def register_pending_def Let_def
        ordered_writes_def write_out_def split: option.splits)
qed (auto dest: flush_one_step intro: still_grows server_still grows_same)


lemma flush_one_client: "flush_one s = Some s' \<Longrightarrow> px_client s' = px_client s"
  by (auto simp: flush_one_def deliver_def write_out_def Let_def split: list.splits option.splits if_splits)

lemma client_inspect_pc:
  assumes "safe_gateway G" "px_client s = Inspecting f"
  shows "px_client (client_inspect V G f s) \<noteq> Full g"
  by (auto simp: client_inspect_def client_answer_def forward_def Let_def split: prod.splits sum.splits option.splits)

lemma waiting_ok_step:
  assumes "proxy_step V G s s'" "safe_gateway G" "waiting_ok s"
  shows "waiting_ok s'"
proof -
  have d: "distinct (px_order s')"
    using proxy_step_queue [OF assms] assms(3)
    by (auto simp: grows_def waiting_ok_def distinct_length_2_or_more le_Suc_eq length_Suc_conv)
  have st: "still s t \<Longrightarrow> waiting_ok t" for t using assms(3) by (auto simp: still_def waiting_ok_def split: client_pc.splits option.splits)
  show ?thesis
    using assms(1)
  proof (cases rule: proxy_step.cases)
    case (read f)
    then show ?thesis
      using d by (auto simp: client_read_def take_slot_def waiting_ok_def write_out_def split: option.splits if_splits)
  next
    case (slot f i)
    then show ?thesis using d assms(3) by (auto simp: take_slot_def waiting_ok_def)
  next
    case (inspect f)
    then show ?thesis
      using d client_inspect_pc [OF assms(2), of s f V] by (simp add: waiting_ok_def split: client_pc.splits)
  next
    case (approval f a p q)
    then show ?thesis
      using d by (auto simp: client_resolved_def client_answer_def forward_def waiting_ok_def Let_def split: option.splits)
  next
    case client_flush
    then show ?thesis using d flush_one_client [of s s'] by (simp add: waiting_ok_def)
  next
    case client_flushed
    then show ?thesis using d by (simp add: waiting_ok_def)
  next
    case (server_flush p)
    then show ?thesis
      using d flush_one_client [of s s'] flush_one_order [of s s'] assms(3)
      by (auto simp: waiting_ok_def split: client_pc.splits option.splits)
  qed (auto intro!: st intro: server_still assms(2))
qed

text \<open>C16. However the two tasks interleave, and whatever the server answers, the ids of the responses
  that leave the queue are the ids that entered it, in this order and each as often as it entered,
  followed by those still waiting, and no id waits twice.\<close>

theorem responses_in_request_order:
  assumes "proxy_run V G s ids s'" "safe_gateway G" "px_order s = []" "px_out s = []" "px_client s = Reading"
  shows "ids = map fst (ordered_writes s') @ px_order s' \<and> distinct (px_order s')"
proof -
  have "ids = map fst (ordered_writes s') @ px_order s' \<and> waiting_ok s'"
    using assms
  proof (induction rule: proxy_run.induct)
    case start
    then show ?case by (simp add: ordered_writes_def waiting_ok_def)
  next
    case (step ids s' s'')
    then have ih: "ids = map fst (ordered_writes s') @ px_order s'" "waiting_ok s'" by blast+
    from proxy_step_queue [OF step.hyps(2) assms(2) ih(2)] waiting_ok_step [OF step.hyps(2) assms(2) ih(2)]
    show ?case by (auto simp: ih(1) grows_def)
  qed
  then show ?thesis by (simp add: waiting_ok_def)
qed


section \<open>The queue as an abstract queue\<close>

text \<open>A queue of requests, each with the answer it has got so far. Draining it removes the answered
  requests at its front.\<close>

fun drain :: "('i \<times> 'r option) list \<Rightarrow> ('i \<times> 'r) list \<times> ('i \<times> 'r option) list" where
  "drain ((i, Some r) # q) = ((i, r) # fst (drain q), snd (drain q))"
| "drain q = ([], q)"

definition answer :: "'i \<Rightarrow> 'r \<Rightarrow> ('i \<times> 'r option) list \<Rightarrow> ('i \<times> 'r option) list" where
  "answer i r q = map (\<lambda>(j, x). (j, if j = i then Some r else x)) q"

locale response_queue =
  fixes queue :: "'s \<Rightarrow> ('i \<times> 'r option) list" and out :: "'s \<Rightarrow> ('i \<times> 'r) list" and flush :: "'s \<Rightarrow> 's"
    and ok :: "'s \<Rightarrow> bool"
  assumes flush_drains: "ok s \<Longrightarrow> queue (flush s) = snd (drain (queue s)) \<and> out (flush s) = out s @ fst (drain (queue s))"
    and flush_ok: "ok s \<Longrightarrow> ok (flush s)"
begin

lemma drain_stops: "snd (drain q) = [] \<or> snd (hd (snd (drain q))) = None"
  by (induction q rule: drain.induct) auto

lemma flush_waits:
  assumes "ok s"
  shows "queue (flush s) = [] \<or> snd (hd (queue (flush s))) = None"
  using flush_drains [OF assms] drain_stops [of "queue s"] by simp

lemma drain_drained: "q = [] \<or> snd (hd q) = None \<Longrightarrow> drain q = ([], q)"
  by (cases q rule: drain.cases) auto

lemma flush_twice:
  assumes "ok s"
  shows "queue (flush (flush s)) = queue (flush s) \<and> out (flush (flush s)) = out (flush s)"
  using flush_drains [OF flush_ok [OF assms]] drain_drained [OF flush_waits [OF assms]] by simp

end

definition ready :: "'a proxy_scheme \<Rightarrow> request_id \<Rightarrow> nat list option" where
  "ready s i = (case map_of (px_blocked s) i of Some b \<Rightarrow> Some b | None \<Rightarrow> map_of (px_server s) i)"

definition queue_of :: "'a proxy_scheme \<Rightarrow> (request_id \<times> nat list option) list" where
  "queue_of s = map (\<lambda>i. (i, ready s i)) (px_order s)"

lemma ready_simps [simp]:
  "ready (s\<lparr>px_order := q\<rparr>) = ready s" "ready (s\<lparr>px_client := c\<rparr>) = ready s" "ready (s\<lparr>px_drained := b1\<rparr>) = ready s"
  "ready (s\<lparr>px_reader := c'\<rparr>) = ready s" "ready (s\<lparr>px_released := b2\<rparr>) = ready s" "ready (s\<lparr>px_out := o'\<rparr>) = ready s"
  by (auto simp: ready_def fun_eq_iff split: option.splits)

lemma ready_blocked: "ready (s\<lparr>px_blocked := dset i b (px_blocked s)\<rparr>) j = (if j = i then Some b else ready s j)"
  by (simp add: ready_def split: option.splits)

lemma ready_server:
  "map_of (px_blocked s) i = None \<Longrightarrow>
   ready (s\<lparr>px_server := dset i b (px_server s)\<rparr>) j = (if j = i then Some b else ready s j)"
  by (simp add: ready_def split: option.splits)

lemma flush_one_queue:
  assumes "distinct (px_order s)"
  shows "case flush_one s of
      None \<Rightarrow> drain (queue_of s) = ([], queue_of s)
    | Some s' \<Rightarrow> (\<exists>i b. queue_of s = (i, Some b) # queue_of s' \<and> ordered_writes s' = ordered_writes s @ [(i, b)])"
proof (cases "px_order s")
  case Nil
  then show ?thesis by (simp add: flush_one_def queue_of_def)
next
  case (Cons i rest)
  then have "i \<notin> set rest" using assms by simp
  then show ?thesis
    using Cons
    by (cases "map_of (px_blocked s) i"; cases "map_of (px_server s) i")
       (auto simp: flush_one_def queue_of_def ready_def deliver_def write_out_def Let_def ordered_writes_def
         map_of_ddel split: option.splits)
qed

lemma flush_drains_queue:
  assumes "distinct (px_order s)"
  shows "queue_of (flush_ordered_responses s) = snd (drain (queue_of s)) \<and>
    ordered_writes (flush_ordered_responses s) = ordered_writes s @ fst (drain (queue_of s)) \<and>
    distinct (px_order (flush_ordered_responses s))"
  using assms
proof (induction s rule: flush_ordered_responses.induct)
  case (1 s)
  show ?case
  proof (cases "flush_one s")
    case None
    then show ?thesis
      using flush_one_queue [OF 1(2)] 1(2) by (subst (1 2 3) flush_ordered_responses.simps) simp
  next
    case (Some s')
    then have "distinct (px_order s')" using flush_one_order [OF Some] 1(2) by auto
    with 1(1) [OF Some] Some flush_one_queue [OF 1(2)] show ?thesis
      by (subst (1 2 3) flush_ordered_responses.simps) auto
  qed
qed

interpretation relay_queue: response_queue queue_of ordered_writes flush_ordered_responses "\<lambda>s. distinct (px_order s)"
  using flush_drains_queue by unfold_locales blast+


section \<open>What reaches the server\<close>

lemma flush_one_child: "flush_one s = Some s' \<Longrightarrow> px_child s' = px_child s"
  by (auto simp: flush_one_def deliver_def write_out_def Let_def split: list.splits option.splits if_splits)

text \<open>C14. A message reaches the server only in two ways: its inspection neither blocked it nor asked for
  an approval, or the approval it asked for is stored as approved. A call that waits for an
  approval, was denied or has expired is never written to the server.\<close>

theorem only_cleared_messages_forwarded:
  assumes "proxy_step V G s s'" "safe_gateway G"
  shows "px_child s' = px_child s \<or>
    (\<exists>f. px_child s' = px_child s @ [fm_raw f] \<and>
      ((\<exists>r s1. px_client s = Inspecting f \<and> inspect_client_message V G (fm_message f) s = (Inr r, s1)
          \<and> ci_block r = None \<and> ci_approval r \<in> {None, Some []}) \<or>
       (\<exists>a p q. px_client s = Asking f a p \<and> get_approval_request a (sy_db s) = Some q \<and> ap_status q = Approved)))"
  using assms(1)
proof (cases rule: proxy_step.cases)
  case (inspect f)
  obtain r s1 where r: "inspect_client_message V G (fm_message f) s = (r, s1)" by (metis surj_pair)
  then have "relay s1 = relay s" using inspect_client_relay [OF assms(2), of V "fm_message f" s] by simp
  then have "px_child s1 = px_child s" by (rule relay_parts)
  then show ?thesis
    using inspect r
    by (auto simp: client_inspect_def client_answer_def forward_def Let_def write_out_def
        split: sum.splits option.splits if_splits)
next
  case (approval f a p q)
  have "dget (build_wait_approval_response q) ''effective_action'' = JStr ''allow'' \<longleftrightarrow> ap_status q = Approved"
    using approval by (cases "ap_status q")
      (simp_all add: build_wait_approval_response_def effective_action_for_status_def)
  then show ?thesis
    using approval
    by (auto simp: client_resolved_def client_answer_def forward_def register_pending_def Let_def write_out_def
        split: option.splits if_splits)
next
  case (read f)
  then show ?thesis by (simp add: client_read_def take_slot_def write_out_def split: option.splits)
next
  case (slot f i)
  then show ?thesis by (simp add: take_slot_def)
next
  case client_flush
  then show ?thesis using flush_one_child by blast
next
  case (server_flush p)
  then show ?thesis using flush_one_child by blast
next
  case client_flushed
  then show ?thesis by simp
next
  case (receive f)
  then show ?thesis using server_read_still [OF assms(2), of s f] by (simp add: still_def)
next
  case (result f r i a q)
  then show ?thesis using server_resolved_still [of s G f i r "build_wait_approval_response q"] by (simp add: still_def)
next
  case (server_flushed p)
  then show ?thesis using server_flushed_still [of s p] by (simp add: still_def)
next
  case (background p gate)
  then show ?thesis using background_still [OF assms(2), of s gate p] by (simp add: still_def)
next
  case (elsewhere ops)
  then show ?thesis using others_still [of s ops] by (simp add: still_def)
qed

section \<open>Answers to calls that were not passed on\<close>

text \<open>A response of the server to a call that still waits for its approval is delivered as the answer
  to the call. If the call is denied afterwards, the denial stays behind, and it answers the next
  request with the same id, whatever the server answers to that.\<close>

theorem denial_answers_next_request:
  fixes s :: "'a proxy_scheme" and G p b
  assumes "px_order s = [i]" "px_blocked s = []" "px_server s = []" "map_of (gw_pending s) i = None"
    and "ordered_id f = Some i" "ordered_id g = Some i" "ordered_id h = Some i"
    and "dget outcome ''effective_action'' \<noteq> JStr ''allow''"
  defines "denial \<equiv> encode_framed_response (render_approval_block_response (Some i) outcome) (fm_framing f)"
  defines "answered \<equiv> flush_ordered_responses (server_read G g s)"
  defines "denied \<equiv> flush_ordered_responses (client_resolved f p outcome answered)"
  assumes "\<not> queue_full G denied"
  defines "again \<equiv> flush_ordered_responses (hold_response None i b (take_slot G h i denied))"
  shows "ordered_writes answered = ordered_writes s @ [(i, fm_raw g)] \<and>
    ordered_writes denied = ordered_writes answered \<and> px_blocked denied = [(i, denial)] \<and>
    ordered_writes again = ordered_writes s @ [(i, fm_raw g), (i, denial)]"
proof -
  have pop: "pop_pending (dget (fm_message g) ''id'') s = (None, s)"
    using pop_absent [OF assms(4)] assms(6) by (simp add: ordered_id_def)
  have "server_read G g s = hold_response None i (fm_raw g) s"
    using assms(1,4,6)
    by (simp add: server_read_def server_inspect_def inspect_server_message_def pop passed_result_def)
  then have a: "answered = deliver i [] (fm_raw g) ((hold_response None i (fm_raw g) s)\<lparr>px_server := []\<rparr>)"
    using assms(1-3)
    by (simp add: answered_def flush_ordered_responses.simps flush_one_def hold_response_def deliver_def write_out_def
        ddel_def Let_def)
  then have "px_order answered = []" "px_blocked answered = []" "px_server answered = []"
    "ordered_writes answered = ordered_writes s @ [(i, fm_raw g)]"
    using assms(2) by (simp_all add: deliver_def hold_response_def write_out_def ordered_writes_def Let_def)
  moreover from this have d: "denied = answered\<lparr>px_blocked := [(i, denial)], px_client := ClientFlushing\<rparr>"
    using assms(5,8)
    by (simp add: denied_def client_resolved_def client_answer_def denial_def flush_ordered_responses.simps
        flush_one_def Let_def)
  ultimately show ?thesis
    using assms(12)
    by (simp add: again_def take_slot_def hold_response_def flush_ordered_responses.simps flush_one_def deliver_def
        write_out_def ordered_writes_def ddel_def Let_def)
qed


section \<open>A concrete proxy\<close>

definition proxy_gateway :: "proxy gateway" where
  "proxy_gateway =
     \<lparr>gy_session = ''s'', gy_server = None,
      gy_service = \<lparr>sv_source = McpGateway, sv_engine = empty_engine, sv_trace = True, sv_store = True,
        sv_adjudicator = None\<rparr>,
      gy_stage_reviewer = None, gy_result_reviewer = None\<rparr>"

definition px0 :: proxy where
  "px0 = \<lparr>w_ms = (\<lambda>n. n), w_rand = (\<lambda>n. n), w_ids = 0, w_wall = (\<lambda>n. int n), w_walls = 0,
          w_mono = (\<lambda>n. 0), w_monos = 0, sy_db = empty_store, sy_trace = [], co_sessions = [], gw_pending = [],
          px_order = [], px_blocked = [], px_server = [], px_out = [], px_child = [], px_client = Reading,
          px_reader = Listening, px_shadow = [], px_drained = True, px_released = False\<rparr>"

definition ping_frame :: framed_message where
  "ping_frame = \<lparr>fm_message = ping, fm_raw = [1, 2, 3], fm_framing = Line\<rparr>"

lemma proxy_gateway_facts: "safe_gateway proxy_gateway" "pe_result_gate (gateway_engine proxy_gateway) = None"
  by (simp_all add: safe_gateway_def proxy_gateway_def lawful_def gateway_engine_def empty_engine_def)

lemma not_full: "\<not> queue_full proxy_gateway s"
  by (simp add: queue_full_def proxy_gateway_facts)

lemma ping_id: "ordered_id ping_frame = Some (RInt 1)"
  by (simp add: ordered_id_def ping_frame_def ping_def rid_of_def)

lemma ping_read:
  "client_read proxy_gateway ping_frame px0 = px0\<lparr>px_order := [RInt 1], px_drained := False, px_client := Inspecting ping_frame\<rparr>"
  by (simp add: client_read_def ping_id take_slot_def not_full px0_def)

theorem responses_in_request_order_witness:
  "proxy_run validators1 proxy_gateway px0 [RInt 1] (client_read proxy_gateway ping_frame px0) \<and>
   [RInt 1] = map fst (ordered_writes (client_read proxy_gateway ping_frame px0)) @ [RInt 1]"
proof -
  have "proxy_step validators1 proxy_gateway px0 (client_read proxy_gateway ping_frame px0)"
    by (rule proxy_step.read) (simp add: px0_def)
  moreover have "px_order px0 = []" "px_order (client_read proxy_gateway ping_frame px0) = [RInt 1]"
    unfolding ping_read by (simp_all add: px0_def)
  ultimately have r: "proxy_run validators1 proxy_gateway px0 [RInt 1] (client_read proxy_gateway ping_frame px0)"
    using proxy_run.step [OF proxy_run.start, of validators1 proxy_gateway px0] by fastforce
  have "px_order px0 = []" "px_out px0 = []" "px_client px0 = Reading" by (simp_all add: px0_def)
  from responses_in_request_order [OF r proxy_gateway_facts(1) this] r show ?thesis
    by (simp add: ping_read)
qed


theorem only_cleared_messages_forwarded_witness:
  "px_child (client_inspect validators1 proxy_gateway ping_frame (px0\<lparr>px_client := Inspecting ping_frame\<rparr>)) = [[1, 2, 3]] \<and>
   (\<exists>r s1. inspect_client_message validators1 proxy_gateway ping (px0\<lparr>px_client := Inspecting ping_frame\<rparr>) = (Inr r, s1)
      \<and> ci_block r = None \<and> ci_approval r \<in> {None, Some []})"
proof -
  let ?s = "px0\<lparr>px_client := Inspecting ping_frame\<rparr>"
  have st: "proxy_step validators1 proxy_gateway ?s (client_inspect validators1 proxy_gateway ping_frame ?s)"
    by (rule proxy_step.inspect) simp
  have "inspect_client_message validators1 proxy_gateway ping ?s = (Inr passed_client, ?s)"
    by (simp add: inspect_client_message_def ping_def)
  then have "px_child (client_inspect validators1 proxy_gateway ping_frame ?s) = [[1, 2, 3]]"
    by (simp add: client_inspect_def ping_frame_def passed_client_def forward_def px0_def)
  with only_cleared_messages_forwarded [OF st proxy_gateway_facts(1)] show ?thesis
    by (auto simp: px0_def ping_frame_def)
qed

theorem denial_answers_next_request_witness:
  "px_blocked (flush_ordered_responses (client_resolved ping_frame None [(''effective_action'', JStr ''block'')]
     (flush_ordered_responses (server_read proxy_gateway ping_frame (px0\<lparr>px_order := [RInt 1]\<rparr>))))) \<noteq> []"
proof -
  let ?s = "px0\<lparr>px_order := [RInt 1]\<rparr>" and ?o = "[(''effective_action'', JStr ''block'')]"
  have "px_order ?s = [RInt 1]" "px_blocked ?s = []" "px_server ?s = []" "map_of (gw_pending ?s) (RInt 1) = None"
    "dget ?o ''effective_action'' \<noteq> JStr ''allow''"
    by (simp_all add: px0_def)
  from denial_answers_next_request [OF this(1-4) ping_id ping_id ping_id this(5) not_full, of None "[]"]
  show ?thesis by simp
qed

end
