(* ===== verification/Endpoint.thy ===== *)
theory Endpoint
  imports HookAdapter JsonParse
begin

text \<open>
  \<open>src/zeroadr/endpoint/contracts.py\<close> and \<open>lite.py\<close>: records of the endpoint sensor are validated,
  turned into runtime events, redacted and kept. The three record models belong to the schema
  library: \<open>el_exec\<close>, \<open>el_file\<close> and \<open>el_net\<close> give the mapping that \<open>model_dump(exclude_none=True)\<close>
  returns for the validated record, or the exception. \<open>el_fromiso\<close> is \<open>datetime.fromisoformat\<close> with
  UTC as the default zone, \<open>el_float\<close> and \<open>el_depth\<close> are the parameters of \<open>json_loads\<close>. A text file
  is the list of its lines.
\<close>

record endpoint_lib =
  el_exec :: "jdict \<Rightarrow> exn + jdict"
  el_file :: "jdict \<Rightarrow> exn + jdict"
  el_net :: "jdict \<Rightarrow> exn + jdict"
  el_fromiso :: "string \<Rightarrow> exn + int"
  el_float :: "string \<Rightarrow> json"
  el_depth :: nat

section \<open>Contracts\<close>

text \<open>A validated model, as its mapping, or a plain dictionary.\<close>

datatype endpoint_record = Model jdict | Plain jdict

definition validation_error :: exn where
  "validation_error = PyError ''EndpointValidationError''"

definition endpoint_record_from_mapping :: "endpoint_lib \<Rightarrow> jdict \<Rightarrow> exn + endpoint_record" where
  "endpoint_record_from_mapping E record =
     (let event_type = dget record ''event_type'' in
      if event_type = JStr ''process_exec'' then map_sum id Model (el_exec E record)
      else if event_type = JStr ''sensitive_file_open'' then map_sum id Model (el_file E record)
      else if event_type = JStr ''network_connect'' then map_sum id Model (el_net E record)
      else Inl (PyError ''ValueError''))"

fun endpoint_record_to_mapping :: "endpoint_record \<Rightarrow> jdict" where
  "endpoint_record_to_mapping (Model d) = d"
| "endpoint_record_to_mapping (Plain d) = d"

definition explicit_schema_version :: "jdict \<Rightarrow> bool" where
  "explicit_schema_version record = (dget record ''schema_version'' = JStr ''0.1'')"

definition network_destination :: "jdict \<Rightarrow> bool" where
  "network_destination record =
     (dget record ''event_type'' \<noteq> JStr ''network_connect''
      \<or> list_ex (\<lambda>key. case dget record key of JStr (_ # _) \<Rightarrow> True | _ \<Rightarrow> False) [''url'', ''host'', ''domain''])"

text \<open>Of what the models raise, strict validation translates the \<open>ValueError\<close>s, of which
  \<open>ValidationError\<close> is one.\<close>

definition validate_endpoint_record :: "endpoint_lib \<Rightarrow> bool \<Rightarrow> jdict \<Rightarrow> exn + endpoint_record" where
  "validate_endpoint_record E strict record =
     (if \<not> strict
      then if map_of record ''schema_version'' \<noteq> None then endpoint_record_from_mapping E record
           else Inr (Plain record)
      else if \<not> explicit_schema_version record then Inl validation_error
      else if \<not> network_destination record then Inl validation_error
      else case endpoint_record_from_mapping E record of
             Inl e \<Rightarrow> Inl (if e \<in> {PyError ''ValidationError'', PyError ''ValueError''} then validation_error else e)
           | Inr r \<Rightarrow> Inr r)"

section \<open>From a record to an event\<close>

definition value_error :: "exn + 'x" where
  "value_error = Inl (PyError ''ValueError'')"

definition compact_fields :: "jdict \<Rightarrow> jdict" where
  "compact_fields values = filter (\<lambda>(k, v). v \<noteq> JNull \<and> v \<noteq> JStr []) values"

definition required_str :: "jdict \<Rightarrow> string \<Rightarrow> exn + string" where
  "required_str record key = (case dget record key of JStr (c # s) \<Rightarrow> Inr (c # s) | _ \<Rightarrow> value_error)"

definition arguments_for_endpoint_event :: "string \<Rightarrow> jdict \<Rightarrow> exn + jdict" where
  "arguments_for_endpoint_event endpoint_type record =
     (let get = dget record;
          common = compact_fields
            [(''host_id'', get ''host_id''), (''pid'', get ''pid''), (''ppid'', get ''ppid''),
             (''process'', json_or (get ''process'') (get ''process_name'')),
             (''process_start_time'', get ''process_start_time''), (''executable'', get ''executable''),
             (''cwd'', get ''cwd''), (''user'', get ''user'')] in
      if endpoint_type = ''process_exec''
      then Inr (common @ compact_fields [(''command'', json_or (get ''command'') (get ''cmd''))])
      else if endpoint_type = ''sensitive_file_open''
      then Inr (common @ compact_fields [(''path'', json_or (get ''path'') (get ''file''))])
      else if endpoint_type = ''network_connect''
      then Inr (common @ compact_fields
             [(''url'', json_or (json_or (get ''url'') (get ''uri'')) (get ''endpoint'')),
              (''host'', json_or (get ''host'') (get ''domain'')), (''port'', get ''port'')])
      else value_error)"

definition capability_for_endpoint_event :: "string \<Rightarrow> exn + string" where
  "capability_for_endpoint_event endpoint_type =
     (if endpoint_type = ''process_exec'' then Inr ''shell.exec''
      else if endpoint_type = ''sensitive_file_open'' then Inr ''filesystem.read''
      else if endpoint_type = ''network_connect'' then Inr ''network.connect''
      else value_error)"

definition endpoint_event_id :: "jdict \<Rightarrow> 'a world_scheme \<Rightarrow> string \<times> 'a world_scheme" where
  "endpoint_event_id record w =
     (case dget record ''event_id'' of JStr (c # s) \<Rightarrow> (c # s, w) | _ \<Rightarrow> new_ulid w)"

definition endpoint_event_time :: "endpoint_lib \<Rightarrow> json \<Rightarrow> 'a world_scheme \<Rightarrow> (exn + int) \<times> 'a world_scheme" where
  "endpoint_event_time E value w =
     (case value of
        JStr (c # s) \<Rightarrow>
          (el_fromiso E (concat (map (\<lambda>x. if x = CHR ''Z'' then ''+00:00'' else [x]) (c # s))), w)
      | _ \<Rightarrow> (let (now, w) = utc_now w in (Inr now, w)))"

definition endpoint_event_to_runtime_event ::
  "endpoint_lib \<Rightarrow> endpoint_record \<Rightarrow> 'a world_scheme \<Rightarrow> (exn + runtime_event) \<times> 'a world_scheme" where
  "endpoint_event_to_runtime_event E rec w =
     (let record = endpoint_record_to_mapping rec in
      case required_str record ''event_type'' of Inl e \<Rightarrow> (Inl e, w) | Inr endpoint_type \<Rightarrow>
      (case required_str record ''session_id'' of Inl e \<Rightarrow> (Inl e, w) | Inr session_id \<Rightarrow>
      (case arguments_for_endpoint_event endpoint_type record of Inl e \<Rightarrow> (Inl e, w) | Inr arguments \<Rightarrow>
      (let (event_id, w) = endpoint_event_id record w in
       case endpoint_event_time E (dget record ''timestamp'') w of (Inl e, w) \<Rightarrow> (Inl e, w) | (Inr event_time, w) \<Rightarrow>
      (case endpoint_event_time E (json_or (dget record ''ingest_time'') (dget record ''timestamp'')) w of
         (Inl e, w) \<Rightarrow> (Inl e, w) | (Inr ingest_time, w) \<Rightarrow>
      (case capability_for_endpoint_event endpoint_type of Inl e \<Rightarrow> (Inl e, w) | Inr capability \<Rightarrow>
      (case request_id_field (json_or (dget record ''request_id'') (dget record ''event_id'')) of
         Inl e \<Rightarrow> (Inl e, w)
       | Inr request_id \<Rightarrow>
           (Inr \<lparr>ev_id = event_id, ev_type = ToolCallRequested, ev_time = event_time, ev_ingest = ingest_time,
                 ev_source = EndpointSensor, ev_session = session_id, ev_request = request_id,
                 ev_server = Some ''endpoint'', ev_tool = Some endpoint_type, ev_capability = Some capability,
                 ev_context = None, ev_arguments = Some arguments, ev_result = JNull, ev_error = None,
                 ev_raw = record\<rparr>, w))))))))"

definition persist_endpoint_record ::
  "endpoint_lib \<Rightarrow> bool \<Rightarrow> bool \<Rightarrow> bool \<Rightarrow> endpoint_record \<Rightarrow> 'a sys_scheme \<Rightarrow> (exn + runtime_event) \<times> 'a sys_scheme" where
  "persist_endpoint_record E tr st strict record s =
     (case (case record of Plain d \<Rightarrow> validate_endpoint_record E strict d | Model d \<Rightarrow> Inr record) of
        Inl e \<Rightarrow> (Inl e, s)
      | Inr validated \<Rightarrow>
          (case endpoint_event_to_runtime_event E validated s of
             (Inl e, s) \<Rightarrow> (Inl e, s)
           | (Inr event, s) \<Rightarrow> (let event = redact_event event in (Inr event, keep_event tr st event s))))"

section \<open>Ingesting a file\<close>

fun read_endpoint_jsonl :: "endpoint_lib \<Rightarrow> string list \<Rightarrow> exn + jdict list" where
  "read_endpoint_jsonl E [] = Inr []"
| "read_endpoint_jsonl E (line # lines) =
     (let stripped = strip line in
      if stripped = [] then read_endpoint_jsonl E lines
      else case json_loads (el_float E) (el_depth E) stripped of
             Inl e \<Rightarrow> Inl e
           | Inr (JObj payload) \<Rightarrow> map_sum id ((#) payload) (read_endpoint_jsonl E lines)
           | Inr _ \<Rightarrow> value_error)"

text \<open>The loop over the records; the second component are the events kept so far.\<close>

fun persist_all ::
  "endpoint_lib \<Rightarrow> bool \<Rightarrow> bool \<Rightarrow> bool \<Rightarrow> jdict list \<Rightarrow> 'a sys_scheme \<Rightarrow> (exn option \<times> runtime_event list) \<times> 'a sys_scheme" where
  "persist_all E tr st strict [] s = ((None, []), s)"
| "persist_all E tr st strict (record # records) s =
     (case persist_endpoint_record E tr st strict (Plain record) s of
        (Inl e, s) \<Rightarrow> ((Some e, []), s)
      | (Inr event, s) \<Rightarrow>
          (let ((r, events), s) = persist_all E tr st strict records s in ((r, event # events), s)))"

record ingest_result =
  in_written :: nat
  in_read :: nat
  in_sessions :: "string list"

definition ingest_endpoint_jsonl ::
  "endpoint_lib \<Rightarrow> bool \<Rightarrow> bool \<Rightarrow> bool \<Rightarrow> string list \<Rightarrow> 'a sys_scheme \<Rightarrow> (exn + ingest_result) \<times> 'a sys_scheme" where
  "ingest_endpoint_jsonl E tr st strict lines s =
     (case read_endpoint_jsonl E lines of
        Inl e \<Rightarrow> (Inl e, s)
      | Inr records \<Rightarrow>
          (case persist_all E tr st strict records s of
             ((Some e, events), s) \<Rightarrow> (Inl e, s)
           | ((None, events), s) \<Rightarrow>
               (Inr \<lparr>in_written = length events, in_read = length records,
                     in_sessions = sort (remdups (map ev_session events))\<rparr>, s)))"

section \<open>What ingestion guarantees\<close>

lemma endpoint_event_id_frame:
  "endpoint_event_id r s = (i, s') \<Longrightarrow> sy_trace s' = sy_trace s \<and> sy_db s' = sy_db s \<and> sys.more s' = sys.more s"
  by (auto simp: endpoint_event_id_def new_ulid_def split: json.splits list.splits)

lemma endpoint_event_time_frame:
  "endpoint_event_time E v s = (t, s') \<Longrightarrow> sy_trace s' = sy_trace s \<and> sy_db s' = sy_db s \<and> sys.more s' = sys.more s"
  by (auto simp: endpoint_event_time_def utc_now_def Let_def split: json.splits list.splits)

lemma endpoint_event_frame:
  "endpoint_event_to_runtime_event E r s = (v, s') \<Longrightarrow>
   sy_trace s' = sy_trace s \<and> sy_db s' = sy_db s \<and> sys.more s' = sys.more s"
  unfolding endpoint_event_to_runtime_event_def Let_def
  by (auto split: sum.splits prod.splits dest!: endpoint_event_id_frame endpoint_event_time_frame)

text \<open>When a conversion succeeds, and what it then returns.\<close>

lemma endpoint_event_Inr:
  assumes "endpoint_event_to_runtime_event E r s = (Inr e, s')"
  shows "ev_source e = EndpointSensor \<and> ev_type e = ToolCallRequested
    \<and> ev_session e \<noteq> [] \<and> dget (endpoint_record_to_mapping r) ''session_id'' = JStr (ev_session e)
    \<and> map_option JStr (ev_tool e) = Some (dget (endpoint_record_to_mapping r) ''event_type'')
    \<and> (ev_tool e, ev_capability e) \<in>
        {(Some ''process_exec'', Some ''shell.exec''), (Some ''sensitive_file_open'', Some ''filesystem.read''),
         (Some ''network_connect'', Some ''network.connect'')}
    \<and> ev_arguments e \<noteq> None \<and> ev_raw e = endpoint_record_to_mapping r"
  using assms unfolding endpoint_event_to_runtime_event_def Let_def
  by (auto simp: required_str_def capability_for_endpoint_event_def value_error_def
      split: sum.splits prod.splits json.splits list.splits if_splits)

definition sensor_event :: "runtime_event \<Rightarrow> bool" where
  "sensor_event e = (ev_source e = EndpointSensor \<and> ev_type e = ToolCallRequested \<and> sealed_event e)"

lemma persist_Inl:
  "persist_endpoint_record E tr st strict r s = (Inl x, s') \<Longrightarrow>
   sy_trace s' = sy_trace s \<and> sy_db s' = sy_db s \<and> sys.more s' = sys.more s"
  unfolding persist_endpoint_record_def Let_def
  by (auto split: sum.splits prod.splits endpoint_record.splits dest!: endpoint_event_frame)

lemma persist_Inr:
  assumes "persist_endpoint_record E tr st strict r s = (Inr e, s')"
  shows "sensor_event e \<and> sy_trace s' = (if tr then sy_trace s @ [e] else sy_trace s)
    \<and> sy_db s' = (if st then save_event e (sy_db s) else sy_db s)"
proof -
  obtain v e0 s0 where v: "endpoint_event_to_runtime_event E v s = (Inr e0, s0)"
      "e = redact_event e0" "s' = keep_event tr st e s0"
    using assms unfolding persist_endpoint_record_def Let_def
    by (auto split: sum.splits prod.splits endpoint_record.splits)
  show ?thesis
    using endpoint_event_Inr [OF v(1)] endpoint_event_frame [OF v(1)] sealed_redact_event [of e0]
    by (simp add: v sensor_event_def redact_event_def keep_event_def write_event_jsonl_def Let_def)
qed

lemma persist_all_kept:
  assumes "persist_all E tr st strict rs s = ((r, es), s')"
  shows "sy_trace s' = (if tr then sy_trace s @ es else sy_trace s)
    \<and> sy_db s' = (if st then fold save_event es (sy_db s) else sy_db s)
    \<and> list_all sensor_event es \<and> length es \<le> length rs \<and> (r = None) = (length es = length rs)"
  using assms
proof (induction rs arbitrary: r es s s')
  case (Cons d rs)
  show ?case
  proof (cases "persist_endpoint_record E tr st strict (Plain d) s")
    case (Pair v s1)
    show ?thesis
    proof (cases v)
      case (Inl x)
      with Cons.prems Pair persist_Inl [of E tr st strict "Plain d" s x s1] show ?thesis by auto
    next
      case (Inr e)
      obtain r' es' s2 where rest: "persist_all E tr st strict rs s1 = ((r', es'), s2)" by (metis surj_pair)
      have "r = r'" "es = e # es'" "s' = s2" using Cons.prems Pair Inr rest by auto
      then show ?thesis
        using Cons.IH [OF rest] persist_Inr [of E tr st strict "Plain d" s e s1] Pair Inr by auto
    qed
  qed
qed simp


lemma nonempty_text: "(case v of JStr (_ # _) \<Rightarrow> True | _ \<Rightarrow> False) \<longleftrightarrow> (\<exists>c s. v = JStr (c # s))"
  by (cases v) (auto split: list.splits)

text \<open>Strict ingestion refuses a record without the explicit schema version, and a network record
  that names no destination, whatever else they hold; nothing is kept and no identifier is drawn.\<close>

theorem strict_refuses_incomplete:
  assumes "dget d ''schema_version'' \<noteq> JStr ''0.1''
    \<or> dget d ''event_type'' = JStr ''network_connect''
      \<and> {dget d ''url'', dget d ''host'', dget d ''domain''} \<inter> {v. \<exists>c s. v = JStr (c # s)} = {}"
  shows "persist_endpoint_record E tr st True (Plain d) s = (Inl (PyError ''EndpointValidationError''), s)"
  using assms
  by (auto simp: persist_endpoint_record_def validate_endpoint_record_def explicit_schema_version_def
      network_destination_def nonempty_text validation_error_def)

definition no_lib :: endpoint_lib where
  "no_lib = \<lparr>el_exec = Inr, el_file = Inr, el_net = Inr, el_fromiso = \<lambda>_. Inr 0, el_float = \<lambda>_. JNull, el_depth = 100\<rparr>"

theorem strict_refuses_incomplete_witness:
  "persist_endpoint_record no_lib True True True (Plain [(''schema_version'', JStr ''0.1''),
      (''event_type'', JStr ''network_connect''), (''session_id'', JStr ''s'')]) sys0 =
     (Inl (PyError ''EndpointValidationError''), sys0)"
  by (rule strict_refuses_incomplete) auto

end
