(* ===== verification/Tailer.thy ===== *)
theory Tailer
  imports Endpoint
begin

text \<open>
  \<open>src/zeroadr/endpoint/tailer.py\<close>: a file of sensor records is followed while it grows; after
  each record the position is written to a checkpoint file, from which a later run goes on. The
  followed file is its content at each \<open>readline\<close>; a position, which \<open>tell\<close> returns and \<open>seek\<close>
  takes, is the number of characters before it. The loop has fuel, one for each \<open>readline\<close>: without
  result it is still running, and the state is what a process leaves that is stopped there.
\<close>

section \<open>The checkpoint file\<close>

record tail_state = sys +
  tl_polls :: nat
  tl_checkpoint :: "string option"

text \<open>\<open>isinstance(value, int) and value >= 0\<close>; a truth value is a number.\<close>

definition position_of :: "json \<Rightarrow> nat" where
  "position_of v =
     (case v of JInt i \<Rightarrow> if 0 \<le> i then nat i else 0 | JBool b \<Rightarrow> if b then 1 else 0 | _ \<Rightarrow> 0)"

definition read_checkpoint :: "endpoint_lib \<Rightarrow> string option \<Rightarrow> exn + nat \<times> nat" where
  "read_checkpoint E file =
     (case file of
        None \<Rightarrow> Inr (0, 0)
      | Some text \<Rightarrow>
          (case json_loads (el_float E) (el_depth E) text of
             Inl e \<Rightarrow> Inl e
           | Inr (JObj d) \<Rightarrow> Inr (position_of (dget d ''offset''), position_of (dget d ''line_number''))
           | Inr _ \<Rightarrow> Inr (0, 0)))"

text \<open>\<open>json.dumps(..., indent=2, sort_keys=True)\<close> and a line end.\<close>

definition checkpoint_text :: "nat \<Rightarrow> nat \<Rightarrow> string" where
  "checkpoint_text offset line_number =
     (let q = [CHR 34]; nl = [CHR 10] in
      ''{'' @ nl @ ''  '' @ q @ ''line_number'' @ q @ '': '' @ int_str (int line_number) @ '','' @ nl
      @ ''  '' @ q @ ''offset'' @ q @ '': '' @ int_str (int offset) @ nl @ ''}'' @ nl)"

definition write_checkpoint :: "bool \<Rightarrow> nat \<Rightarrow> nat \<Rightarrow> 'a tail_state_scheme \<Rightarrow> 'a tail_state_scheme" where
  "write_checkpoint path offset line_number s =
     (if path then s\<lparr>tl_checkpoint := Some (checkpoint_text offset line_number)\<rparr> else s)"

section \<open>Following the file\<close>

text \<open>The lines of a text, with their line ends; the last one may lack it.\<close>

fun lines_of :: "string \<Rightarrow> string list" where
  "lines_of [] = []"
| "lines_of (c # s) =
     (if c = CHR 10 then [c] # lines_of s
      else case lines_of s of [] \<Rightarrow> [[c]] | l # ls \<Rightarrow> (c # l) # ls)"

definition readline :: "string \<Rightarrow> string" where
  "readline s = (case lines_of s of [] \<Rightarrow> [] | l # _ \<Rightarrow> l)"

record tail_vars =
  tv_pos :: nat
  tv_line :: nat
  tv_last :: rat
  tv_read :: nat
  tv_events :: "runtime_event list"

text \<open>\<open>tv_events\<close> are the events written; the code keeps their number and the set of their sessions.\<close>

record tail_options =
  to_trace :: bool
  to_store :: bool
  to_checkpoint :: bool
  to_idle :: "rat option"
  to_strict :: bool

definition tail_record ::
  "endpoint_lib \<Rightarrow> tail_options \<Rightarrow> string \<Rightarrow> tail_vars \<Rightarrow> 'a tail_state_scheme \<Rightarrow>
   (exn + tail_vars) \<times> 'a tail_state_scheme" where
  "tail_record E T stripped v s =
     (case json_loads (el_float E) (el_depth E) stripped of
        Inl e \<Rightarrow> (Inl e, s)
      | Inr (JObj payload) \<Rightarrow>
          (let v = v\<lparr>tv_read := tv_read v + 1, tv_line := tv_line v + 1\<rparr> in
           case persist_endpoint_record E (to_trace T) (to_store T) (to_strict T) (Plain payload) s of
             (Inl e, s) \<Rightarrow> (Inl e, s)
           | (Inr event, s) \<Rightarrow>
               (Inr (v\<lparr>tv_events := tv_events v @ [event]\<rparr>),
                write_checkpoint (to_checkpoint T) (tv_pos v) (tv_line v) s))
      | Inr _ \<Rightarrow> (value_error, s))"

fun tail_loop ::
  "endpoint_lib \<Rightarrow> tail_options \<Rightarrow> (nat \<Rightarrow> string) \<Rightarrow> nat \<Rightarrow> tail_vars \<Rightarrow> 'a tail_state_scheme \<Rightarrow>
   (exn + tail_vars) option \<times> 'a tail_state_scheme" where
  "tail_loop E T content 0 v s = (None, s)"
| "tail_loop E T content (Suc fuel) v s =
     (let line = readline (drop (tv_pos v) (content (tl_polls s)));
          s = s\<lparr>tl_polls := Suc (tl_polls s)\<rparr> in
      if line = []
      then case to_idle T of
             None \<Rightarrow> tail_loop E T content fuel v s
           | Some stop_after_idle \<Rightarrow>
               (let (now, s) = monotonic s in
                if stop_after_idle \<le> now - tv_last v then (Some (Inr v), s)
                else tail_loop E T content fuel v s)
      else
        (let (now, s) = monotonic s;
             v = v\<lparr>tv_last := now, tv_pos := tv_pos v + length line\<rparr>;
             stripped = strip line in
         if stripped = [] then tail_loop E T content fuel v s
         else case tail_record E T stripped v s of
                (Inl e, s) \<Rightarrow> (Some (Inl e), s)
              | (Inr v, s) \<Rightarrow> tail_loop E T content fuel v s))"

definition tail_endpoint_jsonl ::
  "endpoint_lib \<Rightarrow> tail_options \<Rightarrow> (nat \<Rightarrow> string) \<Rightarrow> nat \<Rightarrow> 'a tail_state_scheme \<Rightarrow>
   (exn + ingest_result) option \<times> 'a tail_state_scheme" where
  "tail_endpoint_jsonl E T content fuel s =
     (case read_checkpoint E (if to_checkpoint T then tl_checkpoint s else None) of
        Inl e \<Rightarrow> (Some (Inl e), s)
      | Inr (offset, line_number) \<Rightarrow>
          (let (now, s) = monotonic s in
           case tail_loop E T content fuel
                  \<lparr>tv_pos = offset, tv_line = line_number, tv_last = now, tv_read = 0, tv_events = []\<rparr> s of
             (None, s) \<Rightarrow> (None, s)
           | (Some (Inl e), s) \<Rightarrow> (Some (Inl e), s)
           | (Some (Inr v), s) \<Rightarrow>
               (Some (Inr \<lparr>in_written = length (tv_events v), in_read = tv_read v,
                           in_sessions = sort (remdups (map ev_session (tv_events v)))\<rparr>), s)))"

section \<open>Reading a checkpoint back\<close>

lemma parse_int_member:
  assumes "concat (map (json_escape False) k) = k" "portable d (JInt i)" "stops r"
  shows "parse_members fl d (Suc n) acc ([CHR 34] @ k @ [CHR 34] @ '': '' @ int_str i @ r) =
    (let s = skip_ws r; acc = dset k (JInt i) acc in
     if s = [] then Inl json_error
     else if hd s = CHR ''}'' then Inr (JObj acc, tl s)
     else if hd s = CHR '','' then parse_members fl d n acc (skip_ws (tl s))
     else Inl json_error)"
proof -
  have key: "scan_str (k @ CHR 34 # t) = Some (k, t)" for t
    using scan_str_text [of False k t] by (simp add: assms(1))
  have ws: "skip_ws (CHR '' '' # int_str i @ r) = int_str i @ r"
  proof -
    obtain c cs where "int_str i = c # cs" "\<not> json_ws c"
      using int_str_start [of i] digit_start by metis
    moreover have "json_ws (CHR '' '')" by code_simp
    ultimately show ?thesis by (simp add: skip_ws_def)
  qed
  show ?thesis
    by (subst parse_members.simps)
       (simp add: punctuation key ws skip_ws_Cons parse_int [OF assms(3,2)])
qed

lemma checkpoint_roundtrip:
  assumes "portable 0 (JInt (int offset))" "portable 0 (JInt (int line_number))" "el_depth E \<noteq> 0"
  shows "read_checkpoint E (Some (checkpoint_text offset line_number)) = Inr (offset, line_number)"
proof -
  obtain d where d: "el_depth E = Suc d" using assms(3) by (cases "el_depth E") auto
  have p: "portable d (JInt (int offset))" "portable d (JInt (int line_number))" using assms(1,2) by simp_all
  have k: "concat (map (json_escape False) ''line_number'') = ''line_number''"
    "concat (map (json_escape False) ''offset'') = ''offset''" by code_simp+
  have ws: "json_ws (CHR '' '')" "json_ws (CHR 10)" by code_simp+
  have st: "stops (CHR 10 # r)" for r by (simp add: stops_def) code_simp
  let ?second = "[CHR 34] @ ''offset'' @ [CHR 34] @ '': '' @ int_str (int offset) @ [CHR 10] @ ''}'' @ [CHR 10]"
  let ?first = "[CHR 34] @ ''line_number'' @ [CHR 34] @ '': '' @ int_str (int line_number) @ '','' @ [CHR 10] @ ''  '' @ ?second"
  have second: "parse_members (el_float E) d (Suc n) acc ?second = Inr (JObj (dset ''offset'' (JInt (int offset)) acc), [CHR 10])" for n acc
    using parse_int_member [OF k(2) p(1) st, of "el_float E" n acc "''}'' @ [CHR 10]"]
    by (simp add: skip_ws_def ws punctuation)
  have first: "parse_members (el_float E) d (Suc (Suc n)) [] ?first =
      Inr (JObj [(''line_number'', JInt (int line_number)), (''offset'', JInt (int offset))], [CHR 10])" for n
    using parse_int_member [OF k(1) p(2), of "'','' @ [CHR 10] @ ''  '' @ ?second" "el_float E" "Suc n" "[]"]
      second [of n "[(''line_number'', JInt (int line_number))]"]
    by (simp add: skip_ws_def ws punctuation)
  have "json_loads (el_float E) (Suc d) (checkpoint_text offset line_number) =
      Inr (JObj [(''line_number'', JInt (int line_number)), (''offset'', JInt (int offset))])"
  proof -
    have "\<exists>n. length ?first = Suc (Suc n)" by simp
    then obtain n where "length ?first = Suc (Suc n)" by blast
    then have "parse_members (el_float E) d (length ?first) [] ?first =
      Inr (JObj [(''line_number'', JInt (int line_number)), (''offset'', JInt (int offset))], [CHR 10])"
      using first [of n] by (simp only:)
    then show ?thesis
      by (simp add: json_loads_def checkpoint_text_def Let_def skip_ws_def ws punctuation parse_value.simps)
  qed
  then show ?thesis by (simp add: read_checkpoint_def d position_of_def)
qed

section \<open>Lines and positions\<close>

lemma lines_of_empty [simp]: "lines_of t = [] \<longleftrightarrow> t = []"
  by (cases t) (auto split: list.split)

lemma lines_of_step: "lines_of t = l # ls \<Longrightarrow> l \<noteq> [] \<and> lines_of (drop (length l) t) = ls"
  by (induction t arbitrary: l ls) (auto split: if_splits list.splits)

lemma concat_lines: "concat (lines_of t) = t"
  by (induction t) (auto split: list.split)

definition line_start :: "string \<Rightarrow> nat \<Rightarrow> nat" where
  "line_start t i = length (concat (take i (lines_of t)))"

lemma lines_of_drop: "lines_of (drop (line_start t i) t) = drop i (lines_of t)"
proof (induction i)
  case (Suc i)
  show ?case
  proof (cases "i < length (lines_of t)")
    case True
    then have "lines_of (drop (line_start t i) t) = lines_of t ! i # drop (Suc i) (lines_of t)"
      by (simp add: Suc Cons_nth_drop_Suc)
    from lines_of_step [OF this] True show ?thesis
      by (simp add: line_start_def take_Suc_conv_app_nth add.commute)
  next
    case False
    then show ?thesis using Suc by (simp add: line_start_def)
  qed
qed (simp add: line_start_def)

lemma line_start_Suc: "i < length (lines_of t) \<Longrightarrow> line_start t (Suc i) = line_start t i + length (lines_of t ! i)"
  by (simp add: line_start_def take_Suc_conv_app_nth)

lemma readline_at:
  "readline (drop (line_start t i) t) = (if i < length (lines_of t) then lines_of t ! i else [])"
  by (simp add: readline_def lines_of_drop split: list.split) (metis hd_drop_conv_nth list.sel(1) drop_eq_Nil not_le list.distinct(1))

lemma line_nonempty: "i < length (lines_of t) \<Longrightarrow> lines_of t ! i \<noteq> []"
  using lines_of_step [of "drop (line_start t i) t" "lines_of t ! i" "drop (Suc i) (lines_of t)"]
  by (simp add: lines_of_drop Cons_nth_drop_Suc)

lemma line_start_le: "line_start t i \<le> length t"
  unfolding line_start_def by (metis append_take_drop_id concat_append concat_lines length_append le_add1)

definition entries :: "string list \<Rightarrow> string list" where
  "entries ls = filter (\<lambda>l. strip l \<noteq> []) ls"

text \<open>The lines that hold records between two positions.\<close>

definition entries_between :: "string \<Rightarrow> nat \<Rightarrow> nat \<Rightarrow> string list" where
  "entries_between t i k = entries (drop i (take k (lines_of t)))"

lemma entries_step:
  "i < k \<Longrightarrow> k \<le> length (lines_of t) \<Longrightarrow>
   entries_between t i k = (if strip (lines_of t ! i) = [] then [] else [lines_of t ! i]) @ entries_between t (Suc i) k"
proof -
  assume "i < k" "k \<le> length (lines_of t)"
  then have "drop i (take k (lines_of t)) = lines_of t ! i # drop (Suc i) (take k (lines_of t))"
    by (simp add: Cons_nth_drop_Suc [symmetric])
  then show ?thesis by (simp add: entries_between_def entries_def)
qed

lemma entries_same [simp]: "entries_between t i i = []"
  by (simp add: entries_between_def entries_def)

lemma entries_split:
  assumes "i \<le> j" "j \<le> k"
  shows "entries_between t i k = entries_between t i j @ entries_between t j k"
proof -
  let ?ls = "lines_of t"
  have "take k ?ls = take j ?ls @ drop j (take k ?ls)"
    using append_take_drop_id [of j "take k ?ls"] assms(2) by (simp add: min_def)
  then have "drop i (take k ?ls) = drop i (take j ?ls @ drop j (take k ?ls))" by simp
  also have "\<dots> = drop i (take j ?ls) @ drop j (take k ?ls)"
    using assms by (cases "j \<le> length ?ls") (simp_all add: min_def)
  finally show ?thesis by (simp add: entries_between_def entries_def)
qed

section \<open>Every record once\<close>

definition from_line :: "endpoint_lib \<Rightarrow> tail_options \<Rightarrow> runtime_event \<Rightarrow> string \<Rightarrow> bool" where
  "from_line E T e line =
     (\<exists>d (s :: tail_state) s'. json_loads (el_float E) (el_depth E) (strip line) = Inr (JObj d)
        \<and> persist_endpoint_record E (to_trace T) (to_store T) (to_strict T) (Plain d) s = (Inr e, s'))"

lemma tail_record_frame:
  fixes s :: tail_state
  assumes "tail_record E T (strip line) v s = (Inr v', s')"
  shows "\<exists>e. from_line E T e line \<and> tv_events v' = tv_events v @ [e] \<and> tv_pos v' = tv_pos v
    \<and> tv_line v' = tv_line v + 1 \<and> sy_trace s' = (if to_trace T then sy_trace s @ [e] else sy_trace s)
    \<and> (to_checkpoint T \<longrightarrow> tl_checkpoint s' = Some (checkpoint_text (tv_pos v) (tv_line v + 1)))"
proof -
  obtain d e s1 where d: "json_loads (el_float E) (el_depth E) (strip line) = Inr (JObj d)"
    and p: "persist_endpoint_record E (to_trace T) (to_store T) (to_strict T) (Plain d) s = (Inr e, s1)"
    and v: "v' = v\<lparr>tv_read := tv_read v + 1, tv_line := tv_line v + 1, tv_events := tv_events v @ [e]\<rparr>"
      "s' = write_checkpoint (to_checkpoint T) (tv_pos v) (tv_line v + 1) s1"
    using assms by (auto simp: tail_record_def value_error_def Let_def split: sum.splits json.splits prod.splits)
  have "from_line E T e line" unfolding from_line_def using d p by blast
  then show ?thesis using persist_Inr [OF p] v by (auto simp: write_checkpoint_def)
qed

lemma tail_fields:
  fixes s s' :: tail_state
  shows "sy_trace s' = sy_trace s \<and> sy_db s' = sy_db s \<and> sys.more s' = sys.more s \<Longrightarrow>
    sy_trace s' = sy_trace s \<and> tl_checkpoint s' = tl_checkpoint s \<and> tl_polls s' = tl_polls s"
  by (cases s, cases s') simp

lemma tail_record_Inl:
  fixes s :: tail_state
  shows "tail_record E T x v s = (Inl e, s') \<Longrightarrow> sy_trace s' = sy_trace s \<and> tl_checkpoint s' = tl_checkpoint s"
  by (auto simp: tail_record_def value_error_def Let_def split: sum.splits json.splits prod.splits
      dest!: persist_Inl tail_fields)

text \<open>What a stretch of the loop leaves: \<open>es\<close> are the events of the records between lines \<open>i\<close> and \<open>k\<close>,
  and the checkpoint, if it has moved, is the start of line \<open>k\<close>.\<close>

definition stretch ::
  "endpoint_lib \<Rightarrow> tail_options \<Rightarrow> string \<Rightarrow> nat \<Rightarrow> nat \<Rightarrow> runtime_event list \<Rightarrow> nat \<Rightarrow> tail_state \<Rightarrow> tail_state \<Rightarrow> bool" where
  "stretch E T t i k es n s s' =
     (i \<le> k \<and> k \<le> length (lines_of t) \<and> list_all2 (from_line E T) es (entries_between t i k)
      \<and> sy_trace s' = sy_trace s @ es
      \<and> (if es = [] then k = i \<and> tl_checkpoint s' = tl_checkpoint s
         else tl_checkpoint s' = Some (checkpoint_text (line_start t k) (n + length es))))"

lemma stretch_none:
  "i \<le> length (lines_of t) \<Longrightarrow> sy_trace s' = sy_trace s \<Longrightarrow> tl_checkpoint s' = tl_checkpoint s \<Longrightarrow>
   stretch E T t i i [] n s s'"
  by (simp add: stretch_def)

lemma stretch_blank:
  assumes "stretch E T t (Suc i) k es n s1 s'" "strip (lines_of t ! i) = []"
    and "sy_trace s1 = sy_trace s" "tl_checkpoint s1 = tl_checkpoint s"
  shows "stretch E T t i (if es = [] then i else k) es n s s'"
  using assms entries_step [of i k t] by (auto simp: stretch_def)

lemma stretch_record:
  assumes "stretch E T t (Suc i) k es (n + 1) s1 s'" "strip (lines_of t ! i) \<noteq> []"
    and "from_line E T e (lines_of t ! i)" "sy_trace s1 = sy_trace s @ [e]"
    and "tl_checkpoint s1 = Some (checkpoint_text (line_start t (Suc i)) (n + 1))"
  shows "stretch E T t i k (e # es) n s s'"
  using assms entries_step [of i k t] by (auto simp: stretch_def split: if_splits)

lemma tail_loop_static:
  fixes s :: tail_state
  assumes "tail_loop E T (\<lambda>_. t) fuel v s = (r, s')" "tv_pos v = line_start t i" "i \<le> length (lines_of t)"
    and "to_trace T" "to_checkpoint T"
  shows "\<exists>k es. stretch E T t i k es (tv_line v) s s'
    \<and> (\<forall>v'. r = Some (Inr v') \<longrightarrow> entries_between t k (length (lines_of t)) = [] \<and> tv_events v' = tv_events v @ es)"
  using assms(1-3)
proof (induction fuel arbitrary: v s i)
  case 0
  then show ?case using stretch_none by fastforce
next
  case (Suc fuel)
  let ?line = "lines_of t ! i"
  let ?s = "s\<lparr>tl_polls := Suc (tl_polls s)\<rparr>"
  show ?case
  proof (cases "i < length (lines_of t)")
    case False
    then have i: "i = length (lines_of t)" using Suc.prems by simp
    then have eof: "readline (drop (tv_pos v) t) = []" by (simp add: Suc.prems(2) readline_at)
    have more: "\<exists>k es. stretch E T t i k es (tv_line v) s s'
        \<and> (\<forall>v'. r = Some (Inr v') \<longrightarrow> entries_between t k (length (lines_of t)) = [] \<and> tv_events v' = tv_events v @ es)"
      if "tail_loop E T (\<lambda>_. t) fuel v s1 = (r, s')" "sy_trace s1 = sy_trace s" "tl_checkpoint s1 = tl_checkpoint s" for s1
      using Suc.IH [OF that(1) Suc.prems(2,3)] unfolding stretch_def that(2,3) .
    have stop: "r = Some (Inr v)" "stretch E T t i i [] (tv_line v) s s'"
      if "(Some (Inr v), snd (monotonic ?s)) = (r, s')"
      using that stretch_none [of i t s' s E T "tv_line v"] i by (auto simp: monotonic_def)
    show ?thesis
    proof (cases "to_idle T")
      case None
      with Suc.prems(1) eof more [of ?s] show ?thesis by (simp add: Let_def)
    next
      case (Some d)
      show ?thesis
      proof (cases "d \<le> fst (monotonic ?s) - tv_last v")
        case True
        with Suc.prems(1) eof Some have "(Some (Inr v), snd (monotonic ?s)) = (r, s')"
          by (simp add: Let_def case_prod_beta)
        from stop [OF this] i show ?thesis by (intro exI [of _ i] exI [of _ "[]"]) simp
      next
        case False
        with Suc.prems(1) eof Some more [of "snd (monotonic ?s)"] show ?thesis
          by (simp add: Let_def case_prod_beta monotonic_def)
      qed
    qed
  next
    case True
    then have line: "readline (drop (tv_pos v) t) = ?line" "?line \<noteq> []"
      by (simp_all add: Suc.prems(2) readline_at line_nonempty)
    obtain now s1 where m: "monotonic ?s = (now, s1)" by (metis surj_pair)
    define v1 where "v1 = v\<lparr>tv_last := now, tv_pos := tv_pos v + length ?line\<rparr>"
    have s1: "sy_trace s1 = sy_trace s" "tl_checkpoint s1 = tl_checkpoint s" using m by (auto simp: monotonic_def)
    have v1: "tv_pos v1 = line_start t (Suc i)" "tv_line v1 = tv_line v" "tv_events v1 = tv_events v"
      using True by (simp_all add: v1_def Suc.prems(2) line_start_Suc)
    have run: "(if strip ?line = [] then tail_loop E T (\<lambda>_. t) fuel v1 s1
        else case tail_record E T (strip ?line) v1 s1 of
               (Inl e, s) \<Rightarrow> (Some (Inl e), s) | (Inr v, s) \<Rightarrow> tail_loop E T (\<lambda>_. t) fuel v s) = (r, s')"
      using Suc.prems(1) line by (simp add: Let_def m v1_def split: if_splits)
    show ?thesis
    proof (cases "strip ?line = []")
      case blank: True
      then have "tail_loop E T (\<lambda>_. t) fuel v1 s1 = (r, s')" using run by simp
      from Suc.IH [OF this v1(1)] True obtain k es where
        k: "stretch E T t (Suc i) k es (tv_line v) s1 s'"
          "\<forall>v'. r = Some (Inr v') \<longrightarrow> entries_between t k (length (lines_of t)) = [] \<and> tv_events v' = tv_events v @ es"
        by (auto simp: v1)
      have "entries_between t i (length (lines_of t)) = entries_between t (Suc i) (length (lines_of t))"
        using True blank by (simp add: entries_step)
      then show ?thesis
        using stretch_blank [OF k(1) blank s1] k
        by (intro exI [of _ "if es = [] then i else k"] exI [of _ es]) (auto simp: stretch_def)
    next
      case False
      show ?thesis
      proof (cases "tail_record E T (strip ?line) v1 s1")
        case (Pair o' s2)
        show ?thesis
        proof (cases o')
          case (Inl e)
          then have "r = Some (Inl e)" "s' = s2" using run Pair False by auto
          moreover have "sy_trace s2 = sy_trace s" "tl_checkpoint s2 = tl_checkpoint s"
            using tail_record_Inl Pair Inl s1 by metis+
          ultimately show ?thesis
            using stretch_none [of i t s2 s E T "tv_line v"] Suc.prems(3) by blast
        next
          case (Inr v2)
          then have "tail_loop E T (\<lambda>_. t) fuel v2 s2 = (r, s')" using run Pair False by simp
          moreover obtain e where e: "from_line E T e ?line" "tv_events v2 = tv_events v @ [e]"
            "tv_pos v2 = line_start t (Suc i)" "tv_line v2 = tv_line v + 1" "sy_trace s2 = sy_trace s @ [e]"
            "tl_checkpoint s2 = Some (checkpoint_text (line_start t (Suc i)) (tv_line v + 1))"
            using tail_record_frame [of E T ?line v1 s1 v2 s2] Pair Inr s1 v1 assms(4,5) by auto
          ultimately obtain k es where
            k: "stretch E T t (Suc i) k es (tv_line v + 1) s2 s'"
              "\<forall>v'. r = Some (Inr v') \<longrightarrow> entries_between t k (length (lines_of t)) = [] \<and> tv_events v' = tv_events v2 @ es"
            using Suc.IH [of v2 s2 "Suc i"] True by auto
          show ?thesis
            using stretch_record [OF k(1) False e(1,5,6)] k(2) e(2)
            by (intro exI [of _ k] exI [of _ "e # es"]) simp
        qed
      qed
    qed
  qed
qed

lemma nat_str_mono: "m \<le> n \<Longrightarrow> length (nat_str m) \<le> length (nat_str n)"
proof (induction n arbitrary: m rule: nat_str.induct)
  case (1 n)
  show ?case
  proof (cases "m < 10")
    case True
    then have "length (nat_str m) = 1" by (subst nat_str.simps) simp
    then show ?thesis using nat_str_nonempty [of n] by (cases "nat_str n") auto
  next
    case False
    then have "length (nat_str (m div 10)) \<le> length (nat_str (n div 10))"
      using 1 by (simp add: div_le_mono)
    then show ?thesis using False 1(2) by (subst (1 2) nat_str.simps) simp
  qed
qed

lemma length_entries: "length (entries_between t i k) \<le> length t"
proof -
  have "length (lines_of t) \<le> length t"
    by (induction t) (auto split: list.split)
  moreover have "length (entries_between t i k) \<le> length (lines_of t)"
    unfolding entries_between_def entries_def by (rule order.trans [OF length_filter_le]) simp
  ultimately show ?thesis by simp
qed

lemma checkpoint_positions:
  assumes "length (nat_str (length t)) \<le> 4300" "m \<le> length t" "n \<le> length t" "el_depth E \<noteq> 0"
  shows "read_checkpoint E (Some (checkpoint_text m n)) = Inr (m, n)"
  using assms nat_str_mono [OF assms(2)] nat_str_mono [OF assms(3)]
  by (intro checkpoint_roundtrip) simp_all

lemma tail_endpoint_stretch:
  fixes s :: tail_state
  assumes "tail_endpoint_jsonl E T (\<lambda>_. t) fuel s = (r, s')" "to_trace T" "to_checkpoint T"
    and "read_checkpoint E (tl_checkpoint s) = Inr (line_start t i, n)" "i \<le> length (lines_of t)"
  shows "\<exists>k es. stretch E T t i k es n s s'
    \<and> (\<forall>x. r = Some (Inr x) \<longrightarrow> entries_between t k (length (lines_of t)) = [] \<and> in_written x = length es)"
proof -
  obtain now s1 where m: "monotonic s = (now, s1)" by (metis surj_pair)
  have s1: "sy_trace s1 = sy_trace s" "tl_checkpoint s1 = tl_checkpoint s" using m by (auto simp: monotonic_def)
  let ?v = "\<lparr>tv_pos = line_start t i, tv_line = n, tv_last = now, tv_read = 0, tv_events = []\<rparr>"
  obtain r0 s2 where l: "tail_loop E T (\<lambda>_. t) fuel ?v s1 = (r0, s2)" by (metis surj_pair)
  have "s' = s2" and r: "r = map_option (map_sum id (\<lambda>v. \<lparr>in_written = length (tv_events v), in_read = tv_read v,
                           in_sessions = sort (remdups (map ev_session (tv_events v)))\<rparr>)) r0"
    using assms(1,3,4) by (auto simp: tail_endpoint_jsonl_def m l Let_def split: option.splits sum.splits)
  moreover obtain k es where
    "stretch E T t i k es n s1 s2"
    "\<forall>v'. r0 = Some (Inr v') \<longrightarrow> entries_between t k (length (lines_of t)) = [] \<and> tv_events v' = es"
    using tail_loop_static [OF l _ assms(5,2,3)] by auto
  moreover have "\<exists>v'. r0 = Some (Inr v') \<and> in_written x = length (tv_events v')" if x: "r = Some (Inr x)" for x
  proof -
    obtain z where "r0 = Some z" using x r by (cases r0) auto
    with x r show ?thesis by (cases z) auto
  qed
  ultimately show ?thesis
    unfolding stretch_def s1 using \<open>s' = s2\<close> by (intro exI [of _ k] exI [of _ es]) fastforce
qed


definition follow :: tail_options where
  "follow = \<lparr>to_trace = True, to_store = False, to_checkpoint = True, to_idle = Some 0, to_strict = False\<rparr>"

definition tail0 :: tail_state where
  "tail0 = \<lparr>w_ms = (\<lambda>n. n), w_rand = (\<lambda>n. n), w_ids = 0, w_wall = (\<lambda>n. int n), w_walls = 0,
            w_mono = (\<lambda>n. 0), w_monos = 0, sy_db = empty_store, sy_trace = [], tl_polls = 0, tl_checkpoint = None\<rparr>"


end
