(* ===== verification/OutputFiles.thy ===== *)
theory OutputFiles
  imports Tailer
begin

text \<open>
  The files the endpoint agent writes (\<open>src/zeroadr/endpoint/agent.py\<close>): the current output and the
  rotated ones beside it, whose names end in a number. A directory is an association list from names
  to bytes. The output's name holds none of the characters that a glob pattern gives a meaning to.
\<close>

section \<open>A directory\<close>

type_synonym dir = "(string \<times> nat list) list"

definition file_exists :: "string \<Rightarrow> dir \<Rightarrow> bool" where
  "file_exists n d = (map_of d n \<noteq> None)"

definition file_bytes :: "string \<Rightarrow> dir \<Rightarrow> nat list" where
  "file_bytes n d = (case map_of d n of None \<Rightarrow> [] | Some c \<Rightarrow> c)"

text \<open>\<open>Path.replace\<close> of a file that exists, and a write at the end of a file opened with \<open>"a"\<close>,
  which creates it.\<close>

definition replace_file :: "string \<Rightarrow> string \<Rightarrow> dir \<Rightarrow> dir" where
  "replace_file a b d = dset b (file_bytes a d) (ddel a d)"

definition append_file :: "string \<Rightarrow> nat list \<Rightarrow> dir \<Rightarrow> dir" where
  "append_file n bs d = dset n (file_bytes n d @ bs) d"

section \<open>The family of an output\<close>

definition numbered :: "string \<Rightarrow> nat \<Rightarrow> string" where
  "numbered name k = name @ ''.'' @ nat_str k"

text \<open>\<open>str.isdigit\<close> also holds of the three superscript digits of Latin-1, which \<open>int\<close> refuses.\<close>

definition superscript :: "char \<Rightarrow> bool" where
  "superscript c = (ord c \<in> {178, 179, 185})"

definition is_digit_text :: "string \<Rightarrow> bool" where
  "is_digit_text s = (s \<noteq> [] \<and> list_all (\<lambda>c. dec_digit c \<or> superscript c) s)"

definition int_of_digits :: "string \<Rightarrow> exn + nat" where
  "int_of_digits s =
     (if list_ex superscript s then value_error
      else Inr (digits_value s))"

fun numbered_files :: "string \<Rightarrow> string list \<Rightarrow> exn + (nat \<times> string) list" where
  "numbered_files name [] = Inr []"
| "numbered_files name (n # ns) =
     (let suffix = drop (Suc (length name)) n in
      if prefix (name @ ''.'') n \<and> is_digit_text suffix
      then (case int_of_digits suffix of
              Inl e \<Rightarrow> Inl e
            | Inr k \<Rightarrow> map_sum id ((#) (k, n)) (numbered_files name ns))
      else numbered_files name ns)"

definition rotated_output_files_oldest_first :: "string \<Rightarrow> dir \<Rightarrow> exn + string list" where
  "rotated_output_files_oldest_first name d =
     map_sum id (\<lambda>rotated. map snd (rev (sort rotated))) (numbered_files name (map fst d))"

definition output_family_files :: "string \<Rightarrow> dir \<Rightarrow> exn + string list" where
  "output_family_files name d =
     map_sum id ((@) (if file_exists name d then [name] else [])) (rotated_output_files_oldest_first name d)"

definition output_family_size :: "string \<Rightarrow> dir \<Rightarrow> exn + nat" where
  "output_family_size name d =
     map_sum id (\<lambda>paths. sum_list (map (\<lambda>p. length (file_bytes p d)) paths)) (output_family_files name d)"

section \<open>Rotation\<close>

definition should_rotate :: "nat \<Rightarrow> nat list \<Rightarrow> int option \<Rightarrow> bool" where
  "should_rotate current_size line rotate_bytes =
     (case rotate_bytes of
        None \<Rightarrow> False
      | Some r \<Rightarrow> 0 < r \<and> 0 < current_size \<and> r < int (current_size + length line))"

text \<open>The loop \<open>for index in range(max_rotated_files - 1, 0, -1)\<close>.\<close>

fun shift_files :: "string \<Rightarrow> nat \<Rightarrow> dir \<Rightarrow> dir" where
  "shift_files name 0 d = d"
| "shift_files name (Suc i) d =
     shift_files name i
       (if file_exists (numbered name (Suc i)) d
        then replace_file (numbered name (Suc i)) (numbered name (Suc (Suc i))) d else d)"

definition rotate_output_files :: "string \<Rightarrow> int \<Rightarrow> dir \<Rightarrow> dir" where
  "rotate_output_files name max_rotated_files d =
     (if max_rotated_files \<le> 0 then ddel name d
      else let d = ddel (numbered name (nat max_rotated_files)) d;
               d = shift_files name (nat max_rotated_files - 1) d
           in if file_exists name d then replace_file name (numbered name 1) d else d)"

section \<open>Retention\<close>

record retention =
  rt_dropped :: nat
  rt_retained :: int

fun drop_files :: "int \<Rightarrow> string list \<Rightarrow> retention \<Rightarrow> dir \<Rightarrow> retention \<times> dir" where
  "drop_files limit [] r d = (r, d)"
| "drop_files limit (n # ns) r d =
     (if rt_retained r \<le> limit then (r, d)
      else drop_files limit ns
             \<lparr>rt_dropped = Suc (rt_dropped r), rt_retained = rt_retained r - int (length (file_bytes n d))\<rparr>
             (ddel n d))"

definition enforce_output_retention :: "string \<Rightarrow> int option \<Rightarrow> dir \<Rightarrow> exn + retention \<times> dir" where
  "enforce_output_retention name max_output_bytes d =
     (case output_family_size name d of
        Inl e \<Rightarrow> Inl e
      | Inr retained_bytes \<Rightarrow>
          (let r = \<lparr>rt_dropped = 0, rt_retained = int retained_bytes\<rparr> in
           case max_output_bytes of
             None \<Rightarrow> Inr (r, d)
           | Some limit \<Rightarrow>
               if limit \<le> 0 then Inr (r, d)
               else map_sum id (\<lambda>rotated. drop_files limit rotated r d) (rotated_output_files_oldest_first name d)))"

section \<open>Numbered names\<close>

lemma numbered_inject [simp]: "numbered name i = numbered name k \<longleftrightarrow> i = k"
  by (metis append_same_eq digits_value_nat_str numbered_def same_append_eq)

lemma numbered_not_name [simp]: "numbered name k \<noteq> name" "name \<noteq> numbered name k"
  by (simp_all add: numbered_def)

lemma numbered_suffix [simp]: "drop (Suc (length name)) (numbered name k) = nat_str k"
  by (simp add: numbered_def)

lemma numbered_prefix [simp]: "prefix (name @ ''.'') (numbered name k)"
  by (simp add: numbered_def)

lemma plain_digit: "dec_digit c \<Longrightarrow> \<not> superscript c"
  by (auto simp: dec_digit_def superscript_def)

lemma is_digit_text_nat_str [simp]: "is_digit_text (nat_str k)"
  using nat_str_digits [of k] by (simp add: is_digit_text_def list_all_iff)

lemma int_of_digits_nat_str [simp]: "int_of_digits (nat_str k) = Inr k"
  using nat_str_digits [of k] plain_digit by (auto simp: int_of_digits_def list_ex_iff)

text \<open>Every name with a number belongs to a file of the agent, whose numbers go from 1 to \<open>M\<close>.\<close>

definition family_name :: "string \<Rightarrow> nat \<Rightarrow> string \<Rightarrow> bool" where
  "family_name name M n =
     (prefix (name @ ''.'') n \<and> is_digit_text (drop (Suc (length name)) n) \<longrightarrow> n \<in> numbered name ` {1..M})"

definition numbered_dir :: "string \<Rightarrow> nat \<Rightarrow> dir \<Rightarrow> bool" where
  "numbered_dir name M d = (distinct (map fst d) \<and> (\<forall>n \<in> dom (map_of d). family_name name M n))"

definition present :: "string \<Rightarrow> nat \<Rightarrow> dir \<Rightarrow> nat list" where
  "present name M d = filter (\<lambda>k. file_exists (numbered name k) d) (rev [1..<Suc M])"

definition family_text :: "string \<Rightarrow> nat \<Rightarrow> dir \<Rightarrow> nat list" where
  "family_text name M d =
     concat (map (\<lambda>k. file_bytes (numbered name k) d) (rev [1..<Suc M])) @ file_bytes name d"

lemma family_name_name [simp]: "family_name name M name"
  using prefix_length_le [of "name @ ''.''" name] by (auto simp: family_name_def)

lemma family_name_numbered [simp]: "family_name name M (numbered name k) \<longleftrightarrow> k \<in> {1..M}"
  by (auto simp: family_name_def)

lemma numbered_files_names:
  assumes "\<forall>n \<in> set ns. family_name name M n"
  shows "\<exists>ps. numbered_files name ns = Inr ps \<and> map snd ps = filter (\<lambda>n. n \<in> range (numbered name)) ns
    \<and> (\<forall>p \<in> set ps. snd p = numbered name (fst p))"
  using assms
proof (induction ns)
  case (Cons n ns)
  then obtain ps where ps: "numbered_files name ns = Inr ps"
      "map snd ps = filter (\<lambda>n. n \<in> range (numbered name)) ns" "\<forall>p \<in> set ps. snd p = numbered name (fst p)"
    by auto
  show ?case
  proof (cases "n \<in> range (numbered name)")
    case True
    then obtain k where "n = numbered name k" by blast
    with ps show ?thesis by (auto simp: Let_def)
  next
    case False
    then have "\<not> (prefix (name @ ''.'') n \<and> is_digit_text (drop (Suc (length name)) n))"
      using Cons.prems by (auto simp: family_name_def)
    with False ps show ?thesis by (auto simp: Let_def)
  qed
qed simp

lemma rotated_files:
  assumes "numbered_dir name M d"
  shows "rotated_output_files_oldest_first name d = Inr (map (numbered name) (present name M d))"
proof -
  have names: "fst ` set d = dom (map_of d)" by (simp add: dom_map_of_conv_image_fst)
  have all: "\<forall>n \<in> set (map fst d). family_name name M n"
    using assms by (simp add: numbered_dir_def names)
  obtain ps where ps: "numbered_files name (map fst d) = Inr ps"
      "map snd ps = filter (\<lambda>n. n \<in> range (numbered name)) (map fst d)"
      "\<forall>p \<in> set ps. snd p = numbered name (fst p)"
    using numbered_files_names [OF all] by blast
  let ?qs = "map (\<lambda>k. (k, numbered name k)) (filter (\<lambda>k. file_exists (numbered name k) d) [1..<Suc M])"
  have "distinct (map snd ps)" using assms by (simp add: ps(2) numbered_dir_def)
  then have "distinct ps" by (simp add: distinct_map)
  have "p \<in> set ps \<longleftrightarrow> p \<in> set ?qs" for p
  proof -
    have "p \<in> set ps \<longleftrightarrow> snd p \<in> snd ` set ps \<and> snd p = numbered name (fst p)"
      using ps(3) by (metis (no_types, lifting) image_iff numbered_inject prod.collapse)
    also have "snd ` set ps = range (numbered name) \<inter> dom (map_of d)"
      using arg_cong [OF ps(2), of set] by (auto simp: names [symmetric])
    finally have "p \<in> set ps \<longleftrightarrow> snd p = numbered name (fst p) \<and> numbered name (fst p) \<in> dom (map_of d)"
      by auto
    moreover have "numbered name (fst p) \<in> dom (map_of d) \<Longrightarrow> fst p \<in> {1..M}"
      using all by (metis family_name_numbered names set_map)
    ultimately show ?thesis by (cases p) (auto simp: file_exists_def dom_def simp del: upt_Suc)
  qed
  then have "set (sort ps) = set ?qs" by auto
  moreover have "sorted ?qs"
    unfolding sorted_map
    by (intro sorted_wrt_filter sorted_wrt_mono_rel [OF _ sorted_wrt_upt]) simp
  moreover have "distinct ?qs" by (simp add: distinct_map inj_on_def)
  ultimately have "sort ps = ?qs"
    using \<open>distinct ps\<close> by (intro sorted_distinct_set_unique) simp_all
  then show ?thesis
    by (simp add: rotated_output_files_oldest_first_def ps(1) present_def rev_map rev_filter o_def)
qed

lemma family_size:
  assumes "numbered_dir name M d"
  shows "output_family_size name d = Inr (length (family_text name M d))"
proof -
  have "sum_list (map (\<lambda>k. length (file_bytes (numbered name k) d)) ks)
      = sum_list (map (\<lambda>k. length (file_bytes (numbered name k) d)) (filter (\<lambda>k. file_exists (numbered name k) d) ks))" for ks
    by (induction ks) (auto simp: file_exists_def file_bytes_def)
  then show ?thesis
    by (auto simp: output_family_size_def output_family_files_def rotated_files [OF assms] family_text_def
        present_def length_concat o_def file_exists_def file_bytes_def)
qed

section \<open>Rotation moves every file one place\<close>

lemma map_of_replace: "map_of (replace_file a b d) = (map_of d)(a := None, b \<mapsto> file_bytes a d)"
  by (simp add: replace_file_def)

lemma distinct_replace: "distinct (map fst d) \<Longrightarrow> distinct (map fst (replace_file a b d))"
  by (simp add: replace_file_def distinct_dset distinct_ddel)

lemma file_bytes_exists: "file_exists n d \<Longrightarrow> map_of d n = Some (file_bytes n d)"
  by (auto simp: file_exists_def file_bytes_def)

lemma shift_files_other:
  "n \<notin> numbered name ` {1..Suc i} \<Longrightarrow> map_of (shift_files name i d) n = map_of d n"
proof (induction i arbitrary: d)
  case (Suc i)
  then have "n \<notin> numbered name ` {1..Suc i}" "n \<noteq> numbered name (Suc i)" "n \<noteq> numbered name (Suc (Suc i))" by auto
  with Suc.IH show ?case by (simp add: map_of_replace)
qed simp

lemma shift_files_moved:
  assumes "\<not> file_exists (numbered name (Suc i)) d" "1 \<le> k" "k \<le> Suc i"
  shows "map_of (shift_files name i d) (numbered name k) = (if k = 1 then None else map_of d (numbered name (k - 1)))"
  using assms
proof (induction i arbitrary: d)
  case (Suc i)
  let ?a = "numbered name (Suc i)" and ?b = "numbered name (Suc (Suc i))"
  define d' where "d' = (if file_exists ?a d then replace_file ?a ?b d else d)"
  have m: "map_of d' = (map_of d)(?a := None, ?b := map_of d ?a)"
    using Suc.prems(1) by (auto simp: d'_def map_of_replace file_bytes_exists file_exists_def)
  have step: "shift_files name (Suc i) d = shift_files name i d'" by (simp add: d'_def)
  show ?case
  proof (cases "k = Suc (Suc i)")
    case True
    have "?b \<notin> numbered name ` {1..Suc i}" by auto
    then show ?thesis using True by (simp add: step shift_files_other m del: shift_files.simps)
  next
    case False
    then have k: "k \<le> Suc i" using Suc.prems(3) by simp
    have "\<not> file_exists ?a d'" by (simp add: file_exists_def m)
    with Suc.IH [of d'] k Suc.prems(2) show ?thesis by (auto simp: step m simp del: shift_files.simps)
  qed
qed (simp add: file_exists_def)

lemma distinct_shift: "distinct (map fst d) \<Longrightarrow> distinct (map fst (shift_files name i d))"
  by (induction i arbitrary: d) (auto intro: distinct_replace)

lemma map_of_rotate:
  assumes "0 < M"
  shows "map_of (rotate_output_files name (int M) d) n =
    (if n = name then None
     else if n = numbered name 1 then map_of d name
     else if n \<in> numbered name ` {2..M} then map_of d (numbered name ((THE k. n = numbered name k) - 1))
     else map_of d n)"
proof -
  obtain i where M: "M = Suc i" using assms by (cases M) auto
  let ?d1 = "ddel (numbered name M) d"
  let ?d2 = "shift_files name i ?d1"
  have r: "map_of (rotate_output_files name (int M) d) = (map_of ?d2)(name := None, numbered name 1 := map_of d name)"
  proof -
    have "name \<notin> numbered name ` {1..Suc i}" by auto
    then have n: "map_of ?d2 name = map_of d name" by (simp add: shift_files_other M)
    have "map_of ?d2 (numbered name 1) = None"
      using shift_files_moved [of name i ?d1 1] by (simp add: file_exists_def M)
    have "rotate_output_files name (int M) d = (if file_exists name ?d2 then replace_file name (numbered name 1) ?d2 else ?d2)"
      by (simp add: rotate_output_files_def M Let_def nat_add_distrib)
    moreover have "map_of d name = Some (file_bytes name ?d2)" if "file_exists name ?d2"
      using that n by (simp add: file_bytes_exists)
    moreover have "map_of d name = None" if "\<not> file_exists name ?d2" using that n by (simp add: file_exists_def)
    moreover note n \<open>map_of ?d2 (numbered name 1) = None\<close>
    ultimately show ?thesis by (cases "file_exists name ?d2") (auto simp: map_of_replace fun_eq_iff)
  qed
  show ?thesis
  proof (cases "n \<in> numbered name ` {2..M}")
    case True
    then obtain k where k: "n = numbered name k" "2 \<le> k" "k \<le> M" by auto
    have "map_of ?d2 n = map_of d (numbered name (k - 1))"
      using shift_files_moved [of name i ?d1 k] k by (simp add: file_exists_def M)
    with k show ?thesis by (auto simp: r)
  next
    case False
    then have "map_of ?d2 n = map_of d n" if "n \<noteq> numbered name 1"
      using that by (subst shift_files_other) (auto simp: M numeral_2_eq_2 le_Suc_eq image_iff)
    with False show ?thesis by (simp add: r)
  qed
qed

lemma map_of_rotate_simps:
  assumes "0 < M"
  shows "map_of (rotate_output_files name (int M) d) name = None"
    and "map_of (rotate_output_files name (int M) d) (numbered name (Suc 0)) = map_of d name"
    and "1 \<le> k \<Longrightarrow> k < M \<Longrightarrow> map_of (rotate_output_files name (int M) d) (numbered name (Suc k)) = map_of d (numbered name k)"
  by (simp_all add: map_of_rotate [OF assms])

lemma numbered_rotate:
  assumes "numbered_dir name (nat m) d"
  shows "numbered_dir name (nat m) (rotate_output_files name m d)"
proof (cases "m \<le> 0")
  case True
  with assms show ?thesis by (auto simp: numbered_dir_def rotate_output_files_def distinct_ddel)
next
  case False
  then have m: "m = int (nat m)" "0 < nat m" by simp_all
  have "family_name name (nat m) n" if "map_of (rotate_output_files name m d) n \<noteq> None" for n
  proof -
    have "1 \<in> {1..nat m}" "{2..nat m} \<subseteq> {1..nat m}" using m(2) by auto
    then have sub: "numbered name 1 \<in> numbered name ` {1..nat m}" "numbered name ` {2..nat m} \<subseteq> numbered name ` {1..nat m}"
      by blast+
    show ?thesis
    proof (cases "n = name \<or> n \<in> numbered name ` {1..nat m}")
      case True
      then show ?thesis by auto
    next
      case False
      then have "n \<noteq> name" "n \<noteq> numbered name 1" "n \<notin> numbered name ` {2..nat m}" using sub by auto
      then have "map_of (rotate_output_files name m d) n = map_of d n"
        using map_of_rotate [OF m(2), of name d n] m(1) by (metis (no_types))
      with that assms show ?thesis by (auto simp: numbered_dir_def)
    qed
  qed
  moreover have "distinct (map fst (rotate_output_files name m d))"
    using assms False by (simp add: numbered_dir_def rotate_output_files_def Let_def distinct_shift distinct_ddel distinct_replace)
  ultimately show ?thesis by (simp add: numbered_dir_def dom_def)
qed

lemma rev_upt_shift: "0 < M \<Longrightarrow> rev [Suc 0..<Suc M] = map Suc (rev [Suc 0..<M]) @ [Suc 0]"
  by (metis map_Suc_upt not_less_eq rev.simps(2) rev_map upt_rec zero_less_Suc)

lemma rotate_text:
  "\<exists>dropped. family_text name (nat m) d = dropped @ family_text name (nat m) (rotate_output_files name m d)"
proof (cases "m \<le> 0")
  case True
  then show ?thesis by (auto simp: family_text_def rotate_output_files_def file_bytes_def)
next
  case False
  then have m: "m = int (nat m)" and p: "0 < nat m" by simp_all
  let ?M = "nat m" and ?d = "rotate_output_files name m d"
  have b: "file_bytes (numbered name (Suc k)) ?d = file_bytes (numbered name k) d" if "1 \<le> k" "k < ?M" for k
    using map_of_rotate_simps(3) [OF p that, of name d] m by (simp add: file_bytes_def)
  have "family_text name ?M ?d
      = concat (map (\<lambda>k. file_bytes (numbered name (Suc k)) ?d) (rev [1..<?M])) @ file_bytes name d"
    using map_of_rotate_simps(1,2) [OF p, of name d] m
    by (simp add: family_text_def rev_upt_shift [OF p] o_def file_bytes_def del: upt_Suc)
  also have "map (\<lambda>k. file_bytes (numbered name (Suc k)) ?d) (rev [1..<?M])
      = map (\<lambda>k. file_bytes (numbered name k) d) (rev [1..<?M])"
    using b by simp
  finally have "family_text name ?M d = file_bytes (numbered name ?M) d @ family_text name ?M ?d"
    using p by (simp add: family_text_def Suc_leI)
  then show ?thesis by blast
qed

section \<open>Retention drops the oldest files\<close>

lemma present_Cons:
  assumes "present name M d = k # ks" "numbered_dir name M d"
  shows "family_text name M d = file_bytes (numbered name k) d @ family_text name M (ddel (numbered name k) d)"
    and "present name M (ddel (numbered name k) d) = ks"
    and "numbered_dir name M (ddel (numbered name k) d)"
proof -
  obtain us vs where u: "rev [Suc 0..<Suc M] = us @ k # vs" "\<forall>u \<in> set us. \<not> file_exists (numbered name u) d"
      "ks = filter (\<lambda>k. file_exists (numbered name k) d) vs"
    using filter_eq_ConsD [OF assms(1) [unfolded present_def One_nat_def]] by metis
  have "distinct (us @ k # vs)" by (simp add: u(1) [symmetric] del: upt_Suc)
  then have k: "k \<notin> set us" "k \<notin> set vs" by auto
  have other: "map_of (ddel (numbered name k) d) (numbered name i) = map_of d (numbered name i)" if "i \<noteq> k" for i
    using that by simp
  have "concat (map (\<lambda>k. file_bytes (numbered name k) d) us) = []"
    using u(2) by (auto simp: file_exists_def file_bytes_def)
  moreover have "concat (map (\<lambda>i. file_bytes (numbered name i) (ddel (numbered name k) d)) us) = []"
    using u(2) by (auto simp: file_exists_def file_bytes_def)
  moreover have "map (\<lambda>i. file_bytes (numbered name i) (ddel (numbered name k) d)) vs
      = map (\<lambda>i. file_bytes (numbered name i) d) vs"
    using k(2) by (intro map_cong) (auto simp: file_bytes_def)
  moreover have "file_bytes (numbered name k) (ddel (numbered name k) d) = []" by (simp add: file_bytes_def)
  ultimately show "family_text name M d = file_bytes (numbered name k) d @ family_text name M (ddel (numbered name k) d)"
    by (simp add: family_text_def u(1) file_bytes_def [of name] del: upt_Suc map_eq_conv concat_eq_Nil_conv)
  have "filter (\<lambda>i. file_exists (numbered name i) (ddel (numbered name k) d)) us = []"
    using u(2) by (auto simp: file_exists_def filter_empty_conv)
  moreover have "filter (\<lambda>i. file_exists (numbered name i) (ddel (numbered name k) d)) vs = ks"
    using k by (auto simp: file_exists_def u(3) intro!: filter_cong)
  ultimately show "present name M (ddel (numbered name k) d) = ks"
    by (simp add: present_def u(1) file_exists_def del: upt_Suc)
  show "numbered_dir name M (ddel (numbered name k) d)"
    using assms(2) by (auto simp: numbered_dir_def distinct_ddel)
qed

lemma drop_files_oldest:
  assumes "numbered_dir name M d" "drop_files limit (map (numbered name) (present name M d)) r d = (r', d')"
  shows "\<exists>dropped. family_text name M d = dropped @ family_text name M d'
    \<and> rt_retained r' = rt_retained r - int (length dropped)
    \<and> numbered_dir name M d' \<and> map_of d' name = map_of d name
    \<and> rt_dropped r' = rt_dropped r + (length (present name M d) - length (present name M d'))
    \<and> length (present name M d') \<le> length (present name M d)
    \<and> (rt_retained r' \<le> limit \<or> present name M d' = [])"
  using assms
proof (induction "present name M d" arbitrary: d r)
  case Nil
  then show ?case by (intro exI [of _ "[]"]) auto
next
  case (Cons k ks)
  have pr: "present name M d = k # ks" using Cons.hyps(2) by (rule sym)
  note p = present_Cons [OF pr Cons.prems(1)]
  show ?case
  proof (cases "rt_retained r \<le> limit")
    case True
    then have "r' = r" "d' = d" using Cons.prems(2) by (simp_all add: pr)
    then show ?thesis using True Cons.prems(1) by (intro exI [of _ "[]"]) simp
  next
    case False
    let ?c = "file_bytes (numbered name k) d"
    let ?r = "\<lparr>rt_dropped = Suc (rt_dropped r), rt_retained = rt_retained r - int (length ?c)\<rparr>"
    have "drop_files limit (map (numbered name) (present name M (ddel (numbered name k) d))) ?r (ddel (numbered name k) d)
        = (r', d')"
      using Cons.prems(2) False by (simp add: pr p(2))
    from Cons.hyps(1) [OF p(2) [symmetric] p(3) this] obtain dropped where
        "family_text name M (ddel (numbered name k) d) = dropped @ family_text name M d'"
        "rt_retained r' = rt_retained ?r - int (length dropped)"
        "numbered_dir name M d' \<and> map_of d' name = map_of (ddel (numbered name k) d) name"
        "rt_dropped r' = rt_dropped ?r + (length ks - length (present name M d'))"
        "length (present name M d') \<le> length ks"
        "rt_retained r' \<le> limit \<or> present name M d' = []"
      unfolding p(2) by blast
    then show ?thesis
      by (intro exI [of _ "?c @ dropped"]) (simp add: p(1) pr)
  qed
qed

lemma enforce_oldest:
  assumes "numbered_dir name M d"
  shows "\<exists>r d' dropped. enforce_output_retention name bound d = Inr (r, d')
    \<and> family_text name M d = dropped @ family_text name M d'
    \<and> rt_retained r = int (length (family_text name M d'))
    \<and> numbered_dir name M d' \<and> map_of d' name = map_of d name
    \<and> rt_dropped r = length (present name M d) - length (present name M d')
    \<and> (case bound of Some b \<Rightarrow> 0 < b \<longrightarrow> rt_retained r \<le> b \<or> present name M d' = [] | None \<Rightarrow> dropped = [])"
proof -
  let ?r = "\<lparr>rt_dropped = 0, rt_retained = int (length (family_text name M d))\<rparr>"
  show ?thesis
  proof (cases "\<exists>b. bound = Some b \<and> 0 < b")
    case True
    then obtain b where b: "bound = Some b" "0 < b" by blast
    obtain r' d' where r: "drop_files b (map (numbered name) (present name M d)) ?r d = (r', d')" by (metis surj_pair)
    then have "enforce_output_retention name bound d = Inr (r', d')"
      using b by (simp add: enforce_output_retention_def family_size [OF assms] rotated_files [OF assms])
    with drop_files_oldest [OF assms r] b show ?thesis by auto
  next
    case False
    then have "enforce_output_retention name bound d = Inr (?r, d)"
      by (cases bound) (auto simp: enforce_output_retention_def family_size [OF assms] Let_def)
    with False assms show ?thesis by (auto split: option.splits)
  qed
qed

text \<open>Retention keeps the newest output: what it removes is a beginning of the output, whole files
  of it from the oldest on, and never the current file; it returns the number of files removed and
  the size of what is left, which is within the bound unless only the current file is left.\<close>

theorem retention_keeps_newest:
  assumes "numbered_dir name M d" "0 < b"
  shows "\<exists>r d' dropped. enforce_output_retention name (Some b) d = Inr (r, d')
    \<and> family_text name M d = dropped @ family_text name M d'
    \<and> file_bytes name d' = file_bytes name d
    \<and> rt_dropped r = length (present name M d) - length (present name M d')
    \<and> rt_retained r = int (length (family_text name M d'))
    \<and> (rt_retained r \<le> b \<or> family_text name M d' = file_bytes name d)"
proof -
  have "family_text name M d' = file_bytes name d'" if "present name M d' = []" for d'
  proof -
    have "\<forall>k \<in> set (rev [1..<Suc M]). file_bytes (numbered name k) d' = []"
      using that by (auto simp: present_def filter_empty_conv file_exists_def file_bytes_def simp del: upt_Suc)
    then have "concat (map (\<lambda>k. file_bytes (numbered name k) d') (rev [1..<Suc M])) = []"
      by (simp add: concat_eq_Nil_conv del: upt_Suc)
    then show ?thesis unfolding family_text_def by (simp del: upt_Suc concat_eq_Nil_conv)
  qed
  moreover obtain r d' dropped where "enforce_output_retention name (Some b) d = Inr (r, d')"
      "family_text name M d = dropped @ family_text name M d'"
      "rt_retained r = int (length (family_text name M d'))" "map_of d' name = map_of d name"
      "rt_dropped r = length (present name M d) - length (present name M d')"
      "rt_retained r \<le> b \<or> present name M d' = []"
    using enforce_oldest [OF assms(1), of "Some b"] assms(2) by auto
  ultimately show ?thesis by (metis file_bytes_def)
qed

theorem retention_keeps_newest_witness:
  "\<exists>r d' dropped. enforce_output_retention ''o'' (Some 3)
       [(''o.2'', [1, 2]), (''o.x'', [9]), (''o'', [5]), (''o.1'', [3, 4])] = Inr (r, d')
    \<and> family_text ''o'' 2 [(''o.2'', [1, 2]), (''o.x'', [9]), (''o'', [5]), (''o.1'', [3, 4])]
        = dropped @ family_text ''o'' 2 d'
    \<and> (rt_retained r \<le> 3 \<or> family_text ''o'' 2 d' = [5])"
proof -
  let ?d = "[(''o.2'', [1, 2]), (''o.x'', [9]), (''o'', [5]), (''o.1'', [3, 4])] :: dir"
  have "numbered_dir ''o'' 2 ?d"
  proof -
    have n: "''o.2'' = numbered ''o'' 2" "''o.1'' = numbered ''o'' 1" by code_simp+
    have "family_name ''o'' 2 ''o.2''" "family_name ''o'' 2 ''o.1''" unfolding n by simp_all
    moreover have "family_name ''o'' 2 ''o.x''"
      by (simp add: family_name_def is_digit_text_def dec_digit_def superscript_def ord_def)
    ultimately show ?thesis by (auto simp: numbered_dir_def split: if_splits)
  qed
  from retention_keeps_newest [OF this, of 3] show ?thesis by (fastforce simp: file_bytes_def)
qed

section \<open>A log that loses only its beginning\<close>

text \<open>What the agent needs of its files: making room for a line and trimming remove a beginning of
  the text, and writing adds to its end.\<close>

locale sliding_log =
  fixes content :: "'d \<Rightarrow> 'b list" and ok :: "'d \<Rightarrow> bool"
    and make_room :: "'b list \<Rightarrow> 'd \<Rightarrow> 'd" and append_line :: "'b list \<Rightarrow> 'd \<Rightarrow> 'd" and trim :: "'d \<Rightarrow> 'd"
  assumes make_room_ok: "ok d \<Longrightarrow> ok (make_room l d)"
    and make_room_text: "ok d \<Longrightarrow> \<exists>dropped. content d = dropped @ content (make_room l d)"
    and append_ok: "ok d \<Longrightarrow> ok (append_line l d)"
    and append_text: "content (append_line l d) = content d @ l"
    and trim_ok: "ok d \<Longrightarrow> ok (trim d)"
    and trim_text: "ok d \<Longrightarrow> \<exists>dropped. content d = dropped @ content (trim d)"
begin

lemma step_ok: "ok d \<Longrightarrow> ok (trim (append_line l (make_room l d)))"
  by (intro trim_ok append_ok make_room_ok)

lemma step_text:
  assumes "ok d"
  shows "\<exists>dropped. content d @ l = dropped @ content (trim (append_line l (make_room l d)))"
proof -
  obtain a where "content d = a @ content (make_room l d)" using make_room_text [OF assms] by blast
  moreover obtain b where "content (append_line l (make_room l d)) = b @ content (trim (append_line l (make_room l d)))"
    using trim_text [OF append_ok [OF make_room_ok [OF assms]]] by blast
  ultimately show ?thesis by (intro exI [of _ "a @ b"]) (simp add: append_text)
qed

end

definition make_room :: "string \<Rightarrow> int \<Rightarrow> int option \<Rightarrow> nat list \<Rightarrow> dir \<Rightarrow> dir" where
  "make_room name max_rotated_files rotate_bytes line d =
     (if should_rotate (length (file_bytes name d)) line rotate_bytes
      then append_file name [] (rotate_output_files name max_rotated_files d) else d)"

definition trim_files :: "string \<Rightarrow> int option \<Rightarrow> dir \<Rightarrow> dir" where
  "trim_files name bound d = (case enforce_output_retention name bound d of Inl _ \<Rightarrow> d | Inr (_, d) \<Rightarrow> d)"

lemma append_ok: "numbered_dir name M d \<Longrightarrow> numbered_dir name M (append_file name bs d)"
  by (auto simp: numbered_dir_def append_file_def distinct_dset)

lemma append_text: "family_text name M (append_file name bs d) = family_text name M d @ bs"
  by (simp add: family_text_def append_file_def file_bytes_def)

interpretation files: sliding_log "family_text name (nat m)" "numbered_dir name (nat m)"
  "make_room name m rotate_bytes" "append_file name" "trim_files name bound"
proof
  fix d l
  assume ok: "numbered_dir name (nat m) d"
  show "numbered_dir name (nat m) (make_room name m rotate_bytes l d)"
    using ok by (simp add: make_room_def append_ok numbered_rotate)
  show "\<exists>dropped. family_text name (nat m) d = dropped @ family_text name (nat m) (make_room name m rotate_bytes l d)"
    using rotate_text [of name m d] by (auto simp: make_room_def append_text)
  show "numbered_dir name (nat m) (append_file name l d)" using ok by (rule append_ok)
  show "numbered_dir name (nat m) (trim_files name bound d)"
    using enforce_oldest [OF ok, of bound] by (auto simp: trim_files_def)
  show "\<exists>dropped. family_text name (nat m) d = dropped @ family_text name (nat m) (trim_files name bound d)"
    using enforce_oldest [OF ok, of bound] by (auto simp: trim_files_def)
qed (rule append_text)

end
