(* ===== verification/EndpointAgent.thy ===== *)
theory EndpointAgent
  imports OutputFiles
begin

text \<open>
  \<open>src/zeroadr/endpoint/agent.py\<close>: the agent takes records from a collector, appends each to its output,
  keeps the events, and says in a status file how it fares. What the collector does is a list: the
  records it yields, and, between them, the signal that stops the agent, an exception of the
  collector, a beat of the heartbeat thread and a refresh that the collector asks for. The status
  file is the JSON value it holds; it is replaced as a whole. Opening, renaming and removing files
  succeed; a flush may fail.
\<close>

section \<open>State\<close>

text \<open>What a flush does: everything that is pending reaches the file; or it raises an \<open>OSError\<close> after
  some bytes, and the rest stays in the buffer of the file object or is lost.\<close>

datatype flush = Flushed | FlushError nat bool

record agent_vars =
  av_written :: nat
  av_read :: nat
  av_events :: nat
  av_rotations :: nat
  av_dropped :: nat
  av_backpressure :: nat
  av_last_backpressure :: "int option"
  av_retained :: int
  av_sessions :: "string list"
  av_error :: "string option"
  av_last_record :: "int option"
  av_activity :: rat
  av_last_status :: rat

text \<open>\<open>ag_pending\<close> is the buffer of the open output, \<open>ag_flush n\<close> the outcome of the \<open>n\<close>-th flush.\<close>

record agent_state = sys +
  ag_dir :: dir
  ag_pending :: "nat list"
  ag_flush :: "nat \<Rightarrow> flush"
  ag_flushes :: nat
  ag_status :: "json option"
  ag_statuses :: nat
  ag_pid :: "string option"
  ag :: agent_vars

text \<open>\<open>ao_extra n\<close> is what the collector reports at the \<open>n\<close>-th status, \<open>ao_text\<close> is \<open>str\<close> of an exception.\<close>

record agent_options =
  ao_collector :: string
  ao_name :: string
  ao_output :: string
  ao_status :: bool
  ao_trace :: "string option"
  ao_db :: "string option"
  ao_session :: string
  ao_host :: "string option"
  ao_limit :: "int option"
  ao_idle :: "rat option"
  ao_strict :: bool
  ao_rotate :: "int option"
  ao_max_files :: int
  ao_max_output :: "int option"
  ao_retries :: int
  ao_heartbeat :: "rat option"
  ao_pid :: "nat option"
  ao_extra :: "nat \<Rightarrow> jdict option"
  ao_text :: "exn \<Rightarrow> string"

datatype feed = Record endpoint_record | Interrupt | Fault exn | Beat | Refresh

section \<open>The status file\<close>

definition status_state :: "string \<Rightarrow> string" where
  "status_state stopped_reason =
     (if stopped_reason = ''running'' then ''running''
      else if stopped_reason \<in> set [''collector_unavailable'', ''error''] then ''error'' else ''stopped'')"

definition json_time_opt :: "int option \<Rightarrow> json" where
  "json_time_opt t = (case t of None \<Rightarrow> JNull | Some t \<Rightarrow> json_time t)"

definition elapsed_seconds :: "int \<Rightarrow> int \<Rightarrow> rat" where
  "elapsed_seconds started_at updated_at = max 0 (of_int (updated_at - started_at) / 1000000)"

definition status_payload ::
  "agent_options \<Rightarrow> int \<Rightarrow> string \<Rightarrow> agent_vars \<Rightarrow> jdict option \<Rightarrow> bool \<Rightarrow> int \<Rightarrow> jdict" where
  "status_payload A started_at stopped_reason v collector_extra available updated_at =
     [(''backpressure_events'', JInt (int (av_backpressure v))),
      (''collector'', JStr (ao_collector A)),
      (''collector_available'', JBool available),
      (''db_path'', json_opt (ao_db A)),
      (''dropped_rotated_files'', JInt (int (av_dropped v))),
      (''started_at'', json_time started_at),
      (''updated_at'', json_time updated_at),
      (''state'', JStr (status_state stopped_reason)),
      (''output_path'', JStr (ao_output A)),
      (''trace_path'', json_opt (ao_trace A)),
      (''records_written'', JInt (int (av_written v))),
      (''retained_bytes'', JInt (av_retained v)),
      (''records_read'', JInt (int (av_read v))),
      (''events_written'', JInt (int (av_events v))),
      (''rotations'', JInt (int (av_rotations v))),
      (''session_ids'', json_strs (sort (av_sessions v))),
      (''stopped_reason'', JStr stopped_reason),
      (''last_error'', json_opt (av_error v)),
      (''last_backpressure_at'', json_time_opt (av_last_backpressure v)),
      (''last_record_at'', json_time_opt (av_last_record v)),
      (''uptime_seconds'', decimal_json (elapsed_seconds started_at updated_at))]
     @ (if ao_collector A = ''linux'' then case collector_extra of None \<Rightarrow> [] | Some x \<Rightarrow> [(''bcc'', JObj x)] else [])"

definition write_status_file ::
  "agent_options \<Rightarrow> int \<Rightarrow> string \<Rightarrow> agent_vars \<Rightarrow> jdict option \<Rightarrow> bool \<Rightarrow> agent_state \<Rightarrow> agent_state" where
  "write_status_file A started_at stopped_reason v collector_extra available s =
     (if \<not> ao_status A then s
      else let (updated_at, s) = utc_now s in
        s\<lparr>ag_status := Some (sort_keys (JObj (status_payload A started_at stopped_reason v collector_extra available updated_at)))\<rparr>)"

text \<open>\<open>write_status\<close>: with a heartbeat interval, a running status is not written again before it is over.\<close>

definition write_status :: "agent_options \<Rightarrow> int \<Rightarrow> string \<Rightarrow> bool \<Rightarrow> agent_state \<Rightarrow> agent_state" where
  "write_status A started_at reason forced s =
     (let (now, s) = monotonic s; v = ag s in
      if \<not> forced \<and> reason = ''running'' \<and> av_last_status v \<noteq> 0
         \<and> (case ao_heartbeat A of None \<Rightarrow> False | Some interval \<Rightarrow> now - av_last_status v < interval)
      then s
      else let v = v\<lparr>av_last_status := now\<rparr>;
               extra = ao_extra A (ag_statuses s);
               s = s\<lparr>ag := v, ag_statuses := Suc (ag_statuses s)\<rparr> in
           write_status_file A started_at reason v extra True s)"

definition vars0 :: agent_vars where
  "vars0 = \<lparr>av_written = 0, av_read = 0, av_events = 0, av_rotations = 0, av_dropped = 0, av_backpressure = 0,
     av_last_backpressure = None, av_retained = 0, av_sessions = [], av_error = None, av_last_record = None,
     av_activity = 0, av_last_status = 0\<rparr>"

definition write_initial_error_status ::
  "agent_options \<Rightarrow> string \<Rightarrow> string \<Rightarrow> bool \<Rightarrow> agent_state \<Rightarrow> exn option \<times> agent_state" where
  "write_initial_error_status A stopped_reason last_error available s =
     (let (started_at, s) = utc_now s in
      case output_family_size (ao_name A) (ag_dir s) of
        Inl e \<Rightarrow> (Some e, s)
      | Inr size_now \<Rightarrow>
          (None, write_status_file A started_at stopped_reason
             (vars0\<lparr>av_retained := int size_now, av_error := Some last_error\<rparr>) None available s))"

section \<open>Health\<close>

text \<open>\<open>fromiso\<close> is \<open>datetime.fromisoformat\<close> in microseconds, with a \<open>TypeError\<close> for a time without a
  zone, which the subtraction raises. The first component is \<open>None\<close> for an infinite age.\<close>

definition status_age_seconds ::
  "(string \<Rightarrow> exn + int) \<Rightarrow> json \<Rightarrow> 'a world_scheme \<Rightarrow> (exn + rat option) \<times> 'a world_scheme" where
  "status_age_seconds fromiso updated_at w =
     (case updated_at of
        JStr t \<Rightarrow>
          (let (now, w) = utc_now w in
           (map_sum id (\<lambda>then_at. Some (max 0 (of_int (now - then_at) / 1000000)))
              (fromiso (concat (map (\<lambda>x. if x = CHR ''Z'' then ''+00:00'' else [x]) t))), w))
      | _ \<Rightarrow> (Inr None, w))"

definition evaluate_agent_health ::
  "(string \<Rightarrow> exn + int) \<Rightarrow> string \<Rightarrow> rat option \<Rightarrow> json \<Rightarrow> 'a world_scheme \<Rightarrow> (exn + jdict) \<times> 'a world_scheme" where
  "evaluate_agent_health fromiso status_path stale_after status w =
     (let answer = (\<lambda>reason healthy. Inr [(''agent'', status), (''healthy'', JBool healthy),
            (''reason'', JStr reason), (''status_file'', JStr status_path)]) in
      case status of
        JObj d \<Rightarrow>
          if dget d ''collector_available'' = JBool False then (answer ''collector_unavailable'' False, w)
          else if dget d ''state'' = JStr ''error'' \<or> truthy (dget d ''last_error'') then (answer ''error'' False, w)
          else (case stale_after of
                  None \<Rightarrow> (answer ''ok'' True, w)
                | Some limit \<Rightarrow>
                    (case status_age_seconds fromiso (dget d ''updated_at'') w of
                       (Inl e, w) \<Rightarrow> (Inl e, w)
                     | (Inr age, w) \<Rightarrow>
                         if (case age of None \<Rightarrow> True | Some a \<Rightarrow> limit < a) then (answer ''stale'' False, w)
                         else (answer ''ok'' True, w)))
      | _ \<Rightarrow> (Inl (PyError ''AttributeError''), w))"

text \<open>The status file as it is found: no file, or what reading and decoding it gives.\<close>

definition read_agent_health ::
  "(string \<Rightarrow> exn + int) \<Rightarrow> string \<Rightarrow> rat option \<Rightarrow> (exn + json) option \<Rightarrow> 'a world_scheme \<Rightarrow>
   (exn + jdict) \<times> 'a world_scheme" where
  "read_agent_health fromiso status_path stale_after file w =
     (case file of
        None \<Rightarrow> (Inl (PyError ''FileNotFoundError''), w)
      | Some (Inl e) \<Rightarrow> (Inl e, w)
      | Some (Inr status) \<Rightarrow> evaluate_agent_health fromiso status_path stale_after status w)"

definition build_agent_health ::
  "(string \<Rightarrow> exn + int) \<Rightarrow> string \<Rightarrow> rat option \<Rightarrow> (exn + json) option \<Rightarrow> 'a world_scheme \<Rightarrow>
   (exn + jdict) \<times> 'a world_scheme" where
  "build_agent_health fromiso status_path stale_after file w =
     (if file = None
      then (Inr [(''agent'', JObj [(''state'', JStr ''unknown''), (''stopped_reason'', JStr ''status_file_missing''),
                   (''updated_at'', JNull)]), (''healthy'', JBool False), (''reason'', JStr ''unknown''),
                 (''status_file'', JStr status_path)], w)
      else read_agent_health fromiso status_path stale_after file w)"

section \<open>Writing a line\<close>

definition os_error :: exn where
  "os_error = PyError ''OSError''"

text \<open>\<open>flush\<close>: what is pending goes to the file.\<close>

definition flush_output :: "string \<Rightarrow> agent_state \<Rightarrow> bool \<times> agent_state" where
  "flush_output name s =
     (let s' = s\<lparr>ag_flushes := Suc (ag_flushes s)\<rparr> in
      case ag_flush s (ag_flushes s) of
        Flushed \<Rightarrow> (True, s'\<lparr>ag_dir := append_file name (ag_pending s) (ag_dir s), ag_pending := []\<rparr>)
      | FlushError n kept \<Rightarrow>
          (False, s'\<lparr>ag_dir := append_file name (take n (ag_pending s)) (ag_dir s),
                     ag_pending := (if kept then drop n (ag_pending s) else [])\<rparr>))"

definition write_attempt :: "string \<Rightarrow> nat list \<Rightarrow> agent_state \<Rightarrow> bool \<times> agent_state" where
  "write_attempt name line s = flush_output name (s\<lparr>ag_pending := ag_pending s @ line\<rparr>)"

definition record_backpressure :: "agent_state \<Rightarrow> agent_state" where
  "record_backpressure s =
     (let (now, s) = utc_now s; v = ag s in
      s\<lparr>ag := v\<lparr>av_backpressure := Suc (av_backpressure v), av_last_backpressure := Some now\<rparr>\<rparr>)"

function write_line_with_retries :: "string \<Rightarrow> nat list \<Rightarrow> int \<Rightarrow> int \<Rightarrow> agent_state \<Rightarrow> (exn + int) \<times> agent_state" where
  "write_line_with_retries name line retry_count retries s =
     (let (ok, s) = write_attempt name line s in
      if ok then (Inr retries, s)
      else if retry_count \<le> retries then (Inl os_error, s)
      else write_line_with_retries name line retry_count (retries + 1) (record_backpressure s))"
  by pat_completeness auto
termination
  by (relation "measure (\<lambda>(_, _, retry_count, retries, _). nat (retry_count - retries))") auto

declare write_line_with_retries.simps [simp del]

definition close_output :: "string \<Rightarrow> agent_state \<Rightarrow> exn option \<times> agent_state" where
  "close_output name s =
     (if ag_pending s = [] then (None, s)
      else let (ok, s) = flush_output name s in (if ok then None else Some os_error, s))"

section \<open>One record\<close>

definition record_line :: "endpoint_record \<Rightarrow> nat list" where
  "record_line r = utf8 (json_dumps (sort_keys (JObj (endpoint_record_to_mapping r))) @ [CHR 10])"

definition add_session :: "string \<Rightarrow> string list \<Rightarrow> string list" where
  "add_session x xs = (if x \<in> set xs then xs else xs @ [x])"

definition rotate_if_needed :: "agent_options \<Rightarrow> nat list \<Rightarrow> agent_state \<Rightarrow> agent_state" where
  "rotate_if_needed A line s =
     (if should_rotate (length (file_bytes (ao_name A) (ag_dir s))) line (ao_rotate A)
      then s\<lparr>ag_dir := append_file (ao_name A) [] (rotate_output_files (ao_name A) (ao_max_files A) (ag_dir s)),
             ag := (ag s)\<lparr>av_rotations := Suc (av_rotations (ag s))\<rparr>\<rparr>
      else s)"

text \<open>The counters after the line is written and old files are dropped.\<close>

definition count_record :: "jdict \<Rightarrow> retention \<Rightarrow> agent_state \<Rightarrow> agent_state" where
  "count_record normalized r s =
     (let (now, s) = utc_now s; v = ag s in
      s\<lparr>ag := v\<lparr>av_dropped := av_dropped v + rt_dropped r, av_retained := rt_retained r,
                 av_last_record := Some now, av_written := Suc (av_written v),
                 av_sessions := (case dget normalized ''session_id'' of
                    JStr x \<Rightarrow> add_session x (av_sessions v) | _ \<Rightarrow> av_sessions v)\<rparr>\<rparr>)"

definition keeps_events :: "agent_options \<Rightarrow> bool" where
  "keeps_events A = (ao_trace A \<noteq> None \<or> ao_db A \<noteq> None)"

definition keep_as_event :: "endpoint_lib \<Rightarrow> agent_options \<Rightarrow> jdict \<Rightarrow> agent_state \<Rightarrow> exn option \<times> agent_state" where
  "keep_as_event E A normalized s =
     (if \<not> keeps_events A then (None, s)
      else let s = s\<lparr>ag := (ag s)\<lparr>av_read := Suc (av_read (ag s))\<rparr>\<rparr> in
        case persist_endpoint_record E (ao_trace A \<noteq> None) (ao_db A \<noteq> None) (ao_strict A) (Plain normalized) s of
          (Inl e, s) \<Rightarrow> (Some e, s)
        | (Inr event, s) \<Rightarrow>
            (None, s\<lparr>ag := (ag s)\<lparr>av_sessions := add_session (ev_session event) (av_sessions (ag s)),
                                   av_events := Suc (av_events (ag s))\<rparr>\<rparr>))"

definition handle_record ::
  "endpoint_lib \<Rightarrow> agent_options \<Rightarrow> int \<Rightarrow> endpoint_record \<Rightarrow> agent_state \<Rightarrow> exn option \<times> agent_state" where
  "handle_record E A started_at r s =
     (let line = record_line r; s = rotate_if_needed A line s in
      case write_line_with_retries (ao_name A) line (ao_retries A) 0 s of
        (Inl e, s) \<Rightarrow> (Some e, s)
      | (Inr _, s) \<Rightarrow>
          (case enforce_output_retention (ao_name A) (ao_max_output A) (ag_dir s) of
             Inl e \<Rightarrow> (Some e, s)
           | Inr (kept, d) \<Rightarrow>
               (let normalized = endpoint_record_to_mapping r in
                case keep_as_event E A normalized (count_record normalized kept (s\<lparr>ag_dir := d\<rparr>)) of
                  (Some e, s) \<Rightarrow> (Some e, s)
                | (None, s) \<Rightarrow>
                    (let (now, s) = monotonic s;
                         s = s\<lparr>ag := (ag s)\<lparr>av_activity := now\<rparr>\<rparr> in
                     (None, write_status A started_at ''running'' False s)))))"

section \<open>The stream\<close>

datatype stop = Ended | Signalled | Raised exn

definition limit_reached :: "agent_options \<Rightarrow> agent_state \<Rightarrow> bool" where
  "limit_reached A s = (case ao_limit A of None \<Rightarrow> False | Some n \<Rightarrow> n \<le> int (av_written (ag s)))"

definition has_heartbeat :: "agent_options \<Rightarrow> bool" where
  "has_heartbeat A = (ao_status A \<and> (case ao_heartbeat A of None \<Rightarrow> False | Some i \<Rightarrow> 0 < i))"

fun stream_loop :: "endpoint_lib \<Rightarrow> agent_options \<Rightarrow> int \<Rightarrow> feed list \<Rightarrow> agent_state \<Rightarrow> stop \<times> agent_state" where
  "stream_loop E A started_at [] s = (Ended, s)"
| "stream_loop E A started_at (f # fs) s =
     (case f of
        Record r \<Rightarrow>
          if limit_reached A s then (Ended, s)
          else (case handle_record E A started_at r s of
                  (Some e, s) \<Rightarrow> (Raised e, s)
                | (None, s) \<Rightarrow> stream_loop E A started_at fs s)
      | Interrupt \<Rightarrow> (Signalled, s)
      | Fault e \<Rightarrow> (Raised e, s)
      | Beat \<Rightarrow> stream_loop E A started_at fs (if has_heartbeat A then write_status A started_at ''running'' True s else s)
      | Refresh \<Rightarrow> stream_loop E A started_at fs (write_status A started_at ''running'' False s))"

definition agent_result :: "agent_options \<Rightarrow> agent_vars \<Rightarrow> string \<Rightarrow> jdict" where
  "agent_result A v stopped_reason =
     [(''backpressure_events'', JInt (int (av_backpressure v))),
      (''collector'', JStr (ao_collector A)),
      (''dropped_rotated_files'', JInt (int (av_dropped v))),
      (''events_written'', JInt (int (av_events v))),
      (''last_backpressure_at'', json_time_opt (av_last_backpressure v)),
      (''output'', JStr (ao_output A)),
      (''records_read'', JInt (int (av_read v))),
      (''records_written'', JInt (int (av_written v))),
      (''retained_bytes'', JInt (av_retained v)),
      (''rotations'', JInt (int (av_rotations v))),
      (''session_ids'', json_strs (sort (av_sessions v))),
      (''stopped_reason'', JStr stopped_reason)]"

text \<open>Why a stream that was not stopped by a signal or an exception has ended.\<close>

definition end_reason :: "agent_options \<Rightarrow> agent_state \<Rightarrow> string \<times> agent_state" where
  "end_reason A s =
     (if limit_reached A s then (''limit'', s)
      else case ao_idle A of
             None \<Rightarrow> (''exhausted'', s)
           | Some stop_after_idle \<Rightarrow>
               (let (now, s) = monotonic s in
                (if stop_after_idle \<le> now - av_activity (ag s) then ''idle'' else ''exhausted'', s)))"

definition finish_stream :: "agent_options \<Rightarrow> int \<Rightarrow> stop \<Rightarrow> agent_state \<Rightarrow> (exn + jdict) \<times> agent_state" where
  "finish_stream A started_at stop s =
     (case stop of
        Raised e \<Rightarrow>
          (let s = write_status A started_at ''error'' False (s\<lparr>ag := (ag s)\<lparr>av_error := Some (ao_text A e)\<rparr>\<rparr>);
               (closing, s) = close_output (ao_name A) s in
           (Inl (case closing of None \<Rightarrow> e | Some e' \<Rightarrow> e'), s))
      | _ \<Rightarrow>
          (let (reason, s) = (if stop = Signalled then (''signal'', s) else end_reason A s);
               (closing, s) = close_output (ao_name A) s in
           case closing of
             Some e \<Rightarrow> (Inl e, s)
           | None \<Rightarrow> (let s = write_status A started_at reason False s in (Inr (agent_result A (ag s) reason), s))))"

definition stream_endpoint_records ::
  "endpoint_lib \<Rightarrow> agent_options \<Rightarrow> feed list \<Rightarrow> agent_state \<Rightarrow> (exn + jdict) \<times> agent_state" where
  "stream_endpoint_records E A records s =
     (let (started_at, s) = utc_now s in
      case output_family_size (ao_name A) (ag_dir s) of
        Inl e \<Rightarrow> (Inl e, s)
      | Inr size_now \<Rightarrow>
          (let (now, s) = monotonic s;
               s = s\<lparr>ag := vars0\<lparr>av_retained := int size_now, av_activity := now\<rparr>\<rparr>;
               s = write_status A started_at ''running'' False s;
               s = s\<lparr>ag_dir := append_file (ao_name A) [] (ag_dir s), ag_pending := []\<rparr>;
               (stop, s) = stream_loop E A started_at records s in
           finish_stream A started_at stop s))"

section \<open>The agent\<close>

text \<open>The three records of the mock collector: the keyword arguments of their models.\<close>

definition mock_process :: "string \<Rightarrow> string \<Rightarrow> jdict" where
  "mock_process session_id host_id =
     [(''session_id'', JStr session_id), (''host_id'', JStr host_id), (''pid'', JInt 4200), (''ppid'', JInt 4100),
      (''process'', JStr ''python''), (''process_start_time'', JStr ''2026-06-26T00:00:00Z''),
      (''executable'', JStr ''/usr/bin/python3''), (''cwd'', JStr ''/workspace''), (''user'', JStr ''agent'')]"

definition mock_records :: "endpoint_lib \<Rightarrow> string \<Rightarrow> string \<Rightarrow> feed list" where
  "mock_records E session_id host_id =
     (let yield_record = (\<lambda>r. case r of Inl e \<Rightarrow> Fault e | Inr d \<Rightarrow> Record (Model d)) in
      [yield_record (el_exec E
         ([(''event_id'', JStr ''mock_exec_001''), (''timestamp'', JStr ''2026-06-26T00:00:00Z'')]
          @ mock_process session_id host_id @ [(''command'', JStr ''python exfiltrate.py'')])),
       yield_record (el_file E
         ([(''event_id'', JStr ''mock_file_001''), (''timestamp'', JStr ''2026-06-26T00:00:01Z'')]
          @ mock_process session_id host_id @ [(''path'', JStr ''.env'')])),
       yield_record (el_net E
         ([(''event_id'', JStr ''mock_network_001''), (''timestamp'', JStr ''2026-06-26T00:00:02Z'')]
          @ mock_process session_id host_id
          @ [(''url'', JStr ''https://webhook.site/zero-adr-demo''), (''host'', JStr ''webhook.site''),
             (''domain'', JStr ''webhook.site''), (''port'', JInt 443)]))])"

text \<open>\<open>linux\<close>: what building the Linux collector gives, an exception of \<open>check_available\<close> or what the
  collector then does.\<close>

definition build_agent_collector :: "endpoint_lib \<Rightarrow> agent_options \<Rightarrow> exn + feed list \<Rightarrow> exn + feed list" where
  "build_agent_collector E A linux =
     (if ao_collector A = ''mock'' then Inr (mock_records E (ao_session A) (str_or (ao_host A) ''host_mock''))
      else if ao_collector A = ''linux'' then linux
      else value_error)"

definition is_runtime_error :: "exn \<Rightarrow> bool" where
  "is_runtime_error e =
     (case e of
        LLMProviderError _ _ \<Rightarrow> True
      | PyError c \<Rightarrow> c \<in> set [''LinuxCollectorUnavailable'', ''BccCollectorUnavailable'', ''RuntimeError'',
          ''NotImplementedError'', ''RecursionError''])"

definition run_endpoint_agent ::
  "endpoint_lib \<Rightarrow> agent_options \<Rightarrow> exn + feed list \<Rightarrow> agent_state \<Rightarrow> (exn + jdict) \<times> agent_state" where
  "run_endpoint_agent E A linux s =
     (case build_agent_collector E A linux of
        Inl e \<Rightarrow>
          (let unavailable = is_runtime_error e in
           case write_initial_error_status A (if unavailable then ''collector_unavailable'' else ''error'')
                  (ao_text A e) (\<not> unavailable) s of
             (Some e', s) \<Rightarrow> (Inl e', s)
           | (None, s) \<Rightarrow> (Inl e, s))
      | Inr records \<Rightarrow>
          (let s = (case ao_pid A of None \<Rightarrow> s | Some pid \<Rightarrow> s\<lparr>ag_pid := Some (nat_str pid @ [CHR 10])\<rparr>);
               (r, s) = stream_endpoint_records E A records s in
           (r, if ao_pid A = None then s else s\<lparr>ag_pid := None\<rparr>)))"

section \<open>What the steps leave alone\<close>

definition same_output :: "agent_state \<Rightarrow> agent_state \<Rightarrow> bool" where
  "same_output s s' =
     (ag_dir s' = ag_dir s \<and> ag_pending s' = ag_pending s \<and> ag_flush s' = ag_flush s \<and> ag_flushes s' = ag_flushes s
      \<and> av_written (ag s') = av_written (ag s) \<and> av_error (ag s') = av_error (ag s))"

lemma same_output_refl [simp]: "same_output s s"
  by (simp add: same_output_def)

lemma same_output_trans: "same_output s t \<Longrightarrow> same_output t u \<Longrightarrow> same_output s u"
  by (simp add: same_output_def)

lemma write_status_same: "same_output s (write_status A t reason forced s)"
  by (simp add: same_output_def write_status_def write_status_file_def monotonic_def utc_now_def Let_def)

lemma more_same:
  fixes s s' :: agent_state
  shows "sys.more s' = sys.more s \<Longrightarrow> same_output s s' \<and> ag s' = ag s"
  by (cases s; cases s') (simp add: same_output_def)

lemma persist_same:
  fixes s s' :: agent_state
  assumes "persist_endpoint_record E tr st strict r s = (v, s')"
  shows "same_output s s' \<and> ag s' = ag s"
proof -
  have "sys.more s' = sys.more s"
  proof (cases v)
    case (Inl e)
    with assms persist_Inl show ?thesis by blast
  next
    case (Inr e)
    then show ?thesis using assms unfolding persist_endpoint_record_def Let_def
      by (auto split: sum.splits prod.splits endpoint_record.splits dest!: endpoint_event_frame
          simp: keep_event_def write_event_jsonl_def)
  qed
  then show ?thesis by (rule more_same)
qed

lemma keep_as_event_same: "keep_as_event E A d s = (x, s') \<Longrightarrow> same_output s s'"
  unfolding keep_as_event_def Let_def
  by (auto split: if_splits sum.splits prod.splits dest!: persist_same simp: same_output_def)

section \<open>Retries\<close>

lemma record_backpressure_fields [simp]:
  "ag_flush (record_backpressure s) = ag_flush s" "ag_flushes (record_backpressure s) = ag_flushes s"
  "ag_dir (record_backpressure s) = ag_dir s" "ag_pending (record_backpressure s) = ag_pending s"
  "av_backpressure (ag (record_backpressure s)) = Suc (av_backpressure (ag s))"
  "av_written (ag (record_backpressure s)) = av_written (ag s)" "av_error (ag (record_backpressure s)) = av_error (ag s)"
  by (simp_all add: record_backpressure_def utc_now_def Let_def)

lemma write_attempt_result:
  assumes "write_attempt name line s = (ok, s')"
  shows "ok = (ag_flush s (ag_flushes s) = Flushed) \<and> ag_flush s' = ag_flush s \<and> ag_flushes s' = Suc (ag_flushes s)
    \<and> ag s' = ag s
    \<and> (ok \<longrightarrow> ag_pending s' = [] \<and> ag_dir s' = append_file name (ag_pending s @ line) (ag_dir s))"
  using assms by (auto simp: write_attempt_def flush_output_def Let_def split: flush.splits)

text \<open>C29. A line is tried at most \<open>retry_count\<close> times again. The function returns exactly if one of these
  attempts is flushed, with the number of attempts that failed before it; then nothing is left in
  the buffer. Every failed attempt that is followed by another counts as backpressure, and an error
  is raised only after the last one.\<close>

theorem retries_are_bounded:
  assumes "write_line_with_retries name line retry_count 0 s = (r, s')"
  shows "\<exists>k \<le> nat retry_count.
      (\<forall>i < k. ag_flush s (ag_flushes s + i) \<noteq> Flushed)
      \<and> ag_flushes s' = ag_flushes s + Suc k
      \<and> av_backpressure (ag s') = av_backpressure (ag s) + k
      \<and> (case r of
           Inr n \<Rightarrow> n = int k \<and> ag_flush s (ag_flushes s + k) = Flushed \<and> ag_pending s' = []
         | Inl e \<Rightarrow> e = os_error \<and> k = nat retry_count \<and> ag_flush s (ag_flushes s + k) \<noteq> Flushed)"
proof -
  have "\<exists>k \<le> nat (retry_count - n).
      (\<forall>i < k. ag_flush s (ag_flushes s + i) \<noteq> Flushed)
      \<and> ag_flushes s' = ag_flushes s + Suc k \<and> av_backpressure (ag s') = av_backpressure (ag s) + k
      \<and> (case r of
           Inr m \<Rightarrow> m = n + int k \<and> ag_flush s (ag_flushes s + k) = Flushed \<and> ag_pending s' = []
         | Inl e \<Rightarrow> e = os_error \<and> k = nat (retry_count - n) \<and> ag_flush s (ag_flushes s + k) \<noteq> Flushed)"
    if "write_line_with_retries name line retry_count n s = (r, s')" for n
    using that
  proof (induction name line retry_count n s arbitrary: r s' rule: write_line_with_retries.induct)
    case (1 name line retry_count n s)
    obtain ok t where t: "write_attempt name line s = (ok, t)" by (metis surj_pair)
    note w = write_attempt_result [OF t]
    show ?case
    proof (cases "ok \<or> retry_count \<le> n")
      case True
      then have "(r, s') = (if ok then (Inr n, t) else (Inl os_error, t))"
        using "1.prems" by (subst (asm) write_line_with_retries.simps) (auto simp: t)
      with True w show ?thesis by (intro exI [of _ 0]) (auto split: if_splits)
    next
      case False
      then have rest: "write_line_with_retries name line retry_count (n + 1) (record_backpressure t) = (r, s')"
        using "1.prems" by (subst (asm) write_line_with_retries.simps) (auto simp: t)
      have nots: "\<not> ok" "\<not> retry_count \<le> n" using False by auto
      from "1.IH" [OF t [symmetric] refl nots rest, unfolded record_backpressure_fields] obtain k where k: "k \<le> nat (retry_count - (n + 1))"
        "\<forall>i < k. ag_flush t (ag_flushes t + i) \<noteq> Flushed" "ag_flushes s' = ag_flushes t + Suc k"
        "av_backpressure (ag s') = Suc (av_backpressure (ag t)) + k"
        "case r of Inr m \<Rightarrow> m = n + 1 + int k \<and> ag_flush t (ag_flushes t + k) = Flushed \<and> ag_pending s' = []
         | Inl e \<Rightarrow> e = os_error \<and> k = nat (retry_count - (n + 1)) \<and> ag_flush t (ag_flushes t + k) \<noteq> Flushed"
        by blast
      have "ag_flush s (ag_flushes s + i) \<noteq> Flushed" if "i < Suc k" for i
        using that k(2) w False by (cases i) auto
      with k w False show ?thesis
        by (intro exI [of _ "Suc k"]) (auto split: sum.splits)
    qed
  qed
  from this [of 0, unfolded add_0 diff_0_right, OF assms] show ?thesis .
qed

section \<open>The output keeps what was written\<close>

definition calm :: "agent_options \<Rightarrow> agent_state \<Rightarrow> bool" where
  "calm A s = (numbered_dir (ao_name A) (nat (ao_max_files A)) (ag_dir s) \<and> ag_pending s = []
     \<and> (\<forall>n. ag_flush s n = Flushed))"

definition output_text :: "agent_options \<Rightarrow> agent_state \<Rightarrow> nat list" where
  "output_text A s = family_text (ao_name A) (nat (ao_max_files A)) (ag_dir s)"

lemma calm_same: "calm A s \<Longrightarrow> same_output s s' \<Longrightarrow> calm A s'"
  by (simp add: calm_def same_output_def)

lemma write_line_calm:
  assumes "calm A s"
  shows "\<exists>s'. write_line_with_retries name line c n s = (Inr n, s') \<and> ag_flush s' = ag_flush s \<and> ag_pending s' = []
    \<and> ag s' = ag s \<and> ag_dir s' = append_file name line (ag_dir s)"
proof -
  obtain ok t where t: "write_attempt name line s = (ok, t)" by (metis surj_pair)
  from write_attempt_result [OF t] assms show ?thesis
    by (subst write_line_with_retries.simps) (auto simp: t calm_def)
qed

text \<open>The directory after a record: the steps of the log, one after the other.\<close>

definition record_dir :: "agent_options \<Rightarrow> nat list \<Rightarrow> dir \<Rightarrow> dir" where
  "record_dir A line d =
     trim_files (ao_name A) (ao_max_output A)
       (append_file (ao_name A) line (make_room (ao_name A) (ao_max_files A) (ao_rotate A) line d))"

lemma rotate_if_needed_fields:
  "ag_dir (rotate_if_needed A line s) = make_room (ao_name A) (ao_max_files A) (ao_rotate A) line (ag_dir s)"
  "ag_pending (rotate_if_needed A line s) = ag_pending s" "ag_flush (rotate_if_needed A line s) = ag_flush s"
  "av_written (ag (rotate_if_needed A line s)) = av_written (ag s)"
  "av_error (ag (rotate_if_needed A line s)) = av_error (ag s)"
  by (simp_all add: rotate_if_needed_def make_room_def)

lemma count_record_fields:
  "ag_dir (count_record d r s) = ag_dir s" "ag_pending (count_record d r s) = ag_pending s"
  "ag_flush (count_record d r s) = ag_flush s" "av_written (ag (count_record d r s)) = Suc (av_written (ag s))"
  "av_error (ag (count_record d r s)) = av_error (ag s)"
  by (simp_all add: count_record_def utc_now_def Let_def)

lemma handle_record_calm:
  assumes "calm A s" "handle_record E A t r s = (x, s')"
  shows "calm A s' \<and> ag_dir s' = record_dir A (record_line r) (ag_dir s)
    \<and> av_written (ag s') = Suc (av_written (ag s)) \<and> av_error (ag s') = av_error (ag s)"
proof -
  let ?l = "record_line r" and ?n = "ao_name A"
  let ?s1 = "rotate_if_needed A ?l s"
  have c1: "calm A ?s1"
    using assms(1) files.make_room_ok [of ?n "ao_max_files A" "ag_dir s"] by (simp add: calm_def rotate_if_needed_fields)
  obtain s2 where s2: "write_line_with_retries ?n ?l (ao_retries A) 0 ?s1 = (Inr 0, s2)" "ag_flush s2 = ag_flush s"
      "ag_pending s2 = []" "ag s2 = ag ?s1" "ag_dir s2 = append_file ?n ?l (ag_dir ?s1)"
    using write_line_calm [OF c1, of ?n ?l "ao_retries A" 0] by (auto simp: rotate_if_needed_fields)
  have d2: "numbered_dir ?n (nat (ao_max_files A)) (ag_dir s2)"
    using c1 by (simp add: s2(5) calm_def append_ok)
  obtain kept d3 where e: "enforce_output_retention ?n (ao_max_output A) (ag_dir s2) = Inr (kept, d3)"
      "numbered_dir ?n (nat (ao_max_files A)) d3"
    using enforce_oldest [OF d2, of "ao_max_output A"] by blast
  have "d3 = record_dir A ?l (ag_dir s)"
    using e(1) by (simp add: record_dir_def trim_files_def s2(5) rotate_if_needed_fields)
  let ?s3 = "count_record (endpoint_record_to_mapping r) kept (s2\<lparr>ag_dir := d3\<rparr>)"
  obtain y s4 where s4: "keep_as_event E A (endpoint_record_to_mapping r) ?s3 = (y, s4)" by (metis surj_pair)
  have "same_output s4 s'"
  proof (cases y)
    case None
    let ?s5 = "s4\<lparr>w_monos := Suc (w_monos s4), ag := (ag s4)\<lparr>av_activity := w_mono s4 (w_monos s4)\<rparr>\<rparr>"
    have "s' = write_status A t ''running'' False ?s5"
      using assms(2) by (simp add: handle_record_def s2(1) e(1) s4 None monotonic_def Let_def)
    moreover have "same_output s4 ?s5" by (simp add: same_output_def)
    ultimately show ?thesis using write_status_same same_output_trans by blast
  next
    case (Some z)
    then show ?thesis using assms(2) by (simp add: handle_record_def s2(1) e(1) s4 Let_def)
  qed
  with keep_as_event_same [OF s4] have "same_output ?s3 s'" by (rule same_output_trans)
  moreover have "calm A ?s3" using e(2) s2(2,3) assms(1) by (simp add: calm_def count_record_fields)
  ultimately show ?thesis
    using calm_same [of A ?s3 s'] \<open>d3 = _\<close>
    by (simp add: same_output_def count_record_fields s2(4) rotate_if_needed_fields)
qed

section \<open>A whole stream\<close>

definition yielded :: "feed list \<Rightarrow> endpoint_record list" where
  "yielded fs = concat (map (\<lambda>f. case f of Record r \<Rightarrow> [r] | _ \<Rightarrow> []) fs)"

definition written_text :: "endpoint_record list \<Rightarrow> nat list" where
  "written_text rs = concat (map record_line rs)"

lemma yielded_Cons: "yielded (f # fs) = (case f of Record r \<Rightarrow> [r] | _ \<Rightarrow> []) @ yielded fs"
  by (simp add: yielded_def)

text \<open>The directory after the first records: their lines went through the log one after the other.\<close>

definition record_dirs :: "agent_options \<Rightarrow> endpoint_record list \<Rightarrow> dir \<Rightarrow> dir" where
  "record_dirs A rs d = fold (\<lambda>r. record_dir A (record_line r)) rs d"

lemma stream_loop_calm:
  assumes "calm A s" "stream_loop E A t fs s = (stop, s')"
  shows "\<exists>k \<le> length (yielded fs). calm A s' \<and> ag_dir s' = record_dirs A (take k (yielded fs)) (ag_dir s)
    \<and> av_written (ag s') = av_written (ag s) + k
    \<and> (\<forall>n. ao_limit A = Some n \<longrightarrow> int (av_written (ag s')) \<le> max n (int (av_written (ag s))))
    \<and> (stop = Ended \<longrightarrow> k = length (yielded fs) \<or> limit_reached A s')"
  using assms
proof (induction fs arbitrary: s)
  case Nil
  then show ?case by (intro exI [of _ 0]) (auto simp: record_dirs_def yielded_def)
next
  case (Cons f fs)
  have quiet: ?case if q: "same_output s s1" and y: "yielded (f # fs) = yielded fs"
    and l: "stream_loop E A t fs s1 = (stop, s')" for s1
    using Cons.IH [OF calm_same [OF Cons.prems(1) q] l] q by (simp add: y same_output_def)
  show ?case
  proof (cases f)
    case (Record r)
    show ?thesis
    proof (cases "limit_reached A s")
      case True
      then show ?thesis using Cons.prems Record
        by (intro exI [of _ 0]) (auto simp: record_dirs_def)
    next
      case False
      obtain x s1 where h: "handle_record E A t r s = (x, s1)" by (metis surj_pair)
      note c = handle_record_calm [OF Cons.prems(1) h]
      have lim: "int (Suc (av_written (ag s))) \<le> n" if "ao_limit A = Some n" for n
        using False that by (simp add: limit_reached_def)
      show ?thesis
      proof (cases x)
        case (Some e)
        then have "stop = Raised e" "s' = s1" using Cons.prems(2) Record False h by simp_all
        with c lim show ?thesis
          by (intro exI [of _ 1]) (auto simp: yielded_Cons Record record_dirs_def)
      next
        case None
        then have "stream_loop E A t fs s1 = (stop, s')" using Cons.prems(2) Record False h by simp
        from Cons.IH [OF conjunct1 [OF c] this] obtain k where "k \<le> length (yielded fs)" "calm A s'"
            "ag_dir s' = record_dirs A (take k (yielded fs)) (ag_dir s1)" "av_written (ag s') = av_written (ag s1) + k"
            "\<forall>n. ao_limit A = Some n \<longrightarrow> int (av_written (ag s')) \<le> max n (int (av_written (ag s1)))"
            "stop = Ended \<longrightarrow> k = length (yielded fs) \<or> limit_reached A s'"
          by blast
        with c lim show ?thesis
          by (intro exI [of _ "Suc k"]) (auto simp: yielded_Cons Record record_dirs_def)
      qed
    qed
  next
    case Interrupt
    then show ?thesis using Cons.prems by (intro exI [of _ 0]) (auto simp: record_dirs_def)
  next
    case (Fault e)
    then show ?thesis using Cons.prems by (intro exI [of _ 0]) (auto simp: record_dirs_def)
  next
    case Beat
    then show ?thesis
      using quiet [of "if has_heartbeat A then write_status A t ''running'' True s else s"] Cons.prems(2) write_status_same
      by (auto simp: yielded_Cons split: if_splits)
  next
    case Refresh
    then show ?thesis
      using quiet [OF write_status_same] Cons.prems(2) by (simp add: yielded_Cons)
  qed
qed

lemma finish_same:
  assumes "ag_pending s = []" "finish_stream A t stop s = (r, s')"
  shows "ag_dir s' = ag_dir s \<and> av_written (ag s') = av_written (ag s)"
proof -
  have e: "same_output s (snd (end_reason A s))"
    by (auto simp: end_reason_def same_output_def monotonic_def Let_def split: option.splits)
  have w: "ag_dir (write_status A t x b u) = ag_dir u" "ag_pending (write_status A t x b u) = ag_pending u"
    "av_written (ag (write_status A t x b u)) = av_written (ag u)" for x b u
    using write_status_same [of u A t x b] by (simp_all add: same_output_def)
  show ?thesis using assms e
    by (auto simp: finish_stream_def close_output_def Let_def w same_output_def split: stop.splits prod.splits if_splits)
qed

lemma record_dirs_text:
  assumes "numbered_dir (ao_name A) (nat (ao_max_files A)) d"
  shows "numbered_dir (ao_name A) (nat (ao_max_files A)) (record_dirs A rs d)
    \<and> (\<exists>dropped. family_text (ao_name A) (nat (ao_max_files A)) d @ written_text rs
        = dropped @ family_text (ao_name A) (nat (ao_max_files A)) (record_dirs A rs d))"
  using assms
proof (induction rs arbitrary: d)
  case Nil
  then show ?case by (simp add: record_dirs_def written_text_def)
next
  case (Cons r rs)
  let ?t = "family_text (ao_name A) (nat (ao_max_files A))" and ?d = "record_dir A (record_line r) d"
  have d: "numbered_dir (ao_name A) (nat (ao_max_files A)) ?d"
    unfolding record_dir_def using Cons.prems by (rule files.step_ok)
  obtain a where a: "?t d @ record_line r = a @ ?t ?d"
    using files.step_text [OF Cons.prems] unfolding record_dir_def by metis
  have fold: "record_dirs A (r # rs) d = record_dirs A rs ?d" by (simp add: record_dirs_def)
  obtain b where "numbered_dir (ao_name A) (nat (ao_max_files A)) (record_dirs A rs ?d)"
      "?t ?d @ written_text rs = b @ ?t (record_dirs A rs ?d)"
    using Cons.IH [OF d] by blast
  moreover from a this(2) have "?t d @ written_text (r # rs) = (a @ b) @ ?t (record_dirs A rs ?d)"
    by (simp add: written_text_def) (metis append.assoc)
  ultimately show ?case unfolding fold by blast
qed

lemma stream_dirs:
  assumes "numbered_dir (ao_name A) (nat (ao_max_files A)) (ag_dir s)" "\<forall>n. ag_flush s n = Flushed"
    and "stream_endpoint_records E A fs s = (r, s')"
  shows "\<exists>k \<le> length (yielded fs). av_written (ag s') = k
    \<and> ag_dir s' = record_dirs A (take k (yielded fs)) (append_file (ao_name A) [] (ag_dir s))
    \<and> (\<forall>n. ao_limit A = Some n \<longrightarrow> int k \<le> max n 0)"
proof -
  let ?s1 = "s\<lparr>w_walls := Suc (w_walls s), w_monos := Suc (w_monos s),
      ag := vars0\<lparr>av_retained := int (length (output_text A s)), av_activity := w_mono s (w_monos s)\<rparr>\<rparr>"
  let ?t = "w_wall s (w_walls s)"
  let ?s2 = "write_status A ?t ''running'' False ?s1"
  let ?s3 = "?s2\<lparr>ag_dir := append_file (ao_name A) [] (ag_dir ?s2), ag_pending := []\<rparr>"
  have w: "same_output ?s1 ?s2" by (rule write_status_same)
  have calm: "calm A ?s3"
    using assms(1,2) w by (simp add: calm_def same_output_def append_ok)
  obtain stop s4 where l: "stream_loop E A ?t fs ?s3 = (stop, s4)" by (metis surj_pair)
  have "finish_stream A ?t stop s4 = (r, s')"
    using assms(3) l
    by (simp add: stream_endpoint_records_def family_size [OF assms(1)] utc_now_def monotonic_def Let_def output_text_def)
  from finish_same [OF _ this] stream_loop_calm [OF calm l] w show ?thesis
    by (auto simp: calm_def same_output_def vars0_def)
qed


section \<open>The output is bounded\<close>

definition sized :: "string \<Rightarrow> nat \<Rightarrow> dir \<Rightarrow> bool" where
  "sized name b d =
     (length (file_bytes name d) \<le> b \<and> (\<forall>k. length (file_bytes (numbered name k) d) \<le> b))"

lemma drop_files_lookup:
  "drop_files b ns r d = (r', d') \<Longrightarrow> file_bytes n d' = file_bytes n d \<or> file_bytes n d' = []"
proof (induction b ns r d rule: drop_files.induct)
  case (2 b x ns r d)
  show ?case
  proof (cases "rt_retained r \<le> b")
    case False
    with 2 have "file_bytes n d' = file_bytes n (ddel x d) \<or> file_bytes n d' = []" by simp
    then show ?thesis by (auto simp: file_bytes_def split: if_splits)
  qed (use 2 in simp)
qed simp

lemma enforce_lookup:
  assumes "enforce_output_retention name bound d = Inr (r, d')"
  shows "file_bytes n d' = file_bytes n d \<or> file_bytes n d' = []"
proof -
  have "d' = d \<or> (\<exists>b ns r0. drop_files b ns r0 d = (r, d'))"
    using assms
    by (cases "rotated_output_files_oldest_first name d")
      (auto simp: enforce_output_retention_def Let_def split: sum.splits option.splits if_splits)
  then show ?thesis using drop_files_lookup by blast
qed

lemma trim_sized:
  assumes "sized name b d"
  shows "sized name b (trim_files name bound d)"
proof (cases "enforce_output_retention name bound d")
  case (Inr p)
  obtain r d' where p: "p = (r, d')" by (metis surj_pair)
  have "length (file_bytes n d') \<le> length (file_bytes n d)" for n
    using enforce_lookup [OF Inr [unfolded p], of n] by auto
  then show ?thesis using assms unfolding sized_def trim_files_def Inr p by (simp, metis le_trans)
qed (use assms in \<open>simp add: trim_files_def\<close>)

lemma rotate_sized:
  assumes "sized name b d"
  shows "sized name b (rotate_output_files name m d)"
proof (cases "m \<le> 0")
  case True
  then show ?thesis using assms by (auto simp: sized_def rotate_output_files_def file_bytes_def)
next
  case False
  then have m: "m = int (nat m)" "0 < nat m" by simp_all
  let ?d = "rotate_output_files name m d"
  have b: "length (file_bytes name d) \<le> b" "length (file_bytes (numbered name k) d) \<le> b" for k
    using assms by (simp_all add: sized_def)
  have "length (file_bytes (numbered name k) ?d) \<le> b" for k
  proof (cases "2 \<le> k \<and> k \<le> nat m")
    case True
    then have "numbered name k \<in> numbered name ` {2..nat m}" "numbered name k \<noteq> numbered name 1" by auto
    then have "map_of ?d (numbered name k) = map_of d (numbered name (k - 1))"
      using map_of_rotate [OF m(2), of name d "numbered name k"] m(1) by simp
    then show ?thesis using b(2) [of "k - 1"] by (simp add: file_bytes_def)
  next
    case False
    then have "numbered name k \<notin> numbered name ` {2..nat m}" by auto
    then have "map_of ?d (numbered name k) = (if k = 1 then map_of d name else map_of d (numbered name k))"
      using map_of_rotate [OF m(2), of name d "numbered name k"] m(1) by simp
    then show ?thesis using b(1) b(2) [of k] by (simp add: file_bytes_def split: if_splits)
  qed
  moreover have "map_of ?d name = None" using map_of_rotate_simps(1) [OF m(2), of name d] m(1) by simp
  ultimately show ?thesis by (simp add: sized_def file_bytes_def [of name])
qed

lemma append_sized:
  "sized name b d \<Longrightarrow> length (file_bytes name d @ line) \<le> b \<Longrightarrow> sized name b (append_file name line d)"
  by (simp add: sized_def append_file_def file_bytes_def)

lemma record_dir_sized:
  assumes "sized (ao_name A) b d" "ao_rotate A = Some (int b)" "0 < b" "length line \<le> b"
  shows "sized (ao_name A) b (record_dir A line d)"
proof -
  let ?n = "ao_name A" and ?d = "make_room (ao_name A) (ao_max_files A) (ao_rotate A) line d"
  have "sized ?n b ?d \<and> length (file_bytes ?n ?d @ line) \<le> b"
  proof (cases "should_rotate (length (file_bytes ?n d)) line (ao_rotate A)")
    case True
    have "file_bytes ?n (rotate_output_files ?n (ao_max_files A) d) = []"
    proof (cases "ao_max_files A \<le> 0")
      case False
      then show ?thesis
        using map_of_rotate_simps(1) [of "nat (ao_max_files A)" ?n d] by (simp add: file_bytes_def)
    qed (simp add: rotate_output_files_def file_bytes_def)
    with True assms rotate_sized [OF assms(1), of "ao_max_files A"] show ?thesis
      by (simp add: make_room_def append_sized) (simp add: append_file_def file_bytes_def)
  next
    case False
    with assms show ?thesis by (auto simp: make_room_def should_rotate_def)
  qed
  then show ?thesis unfolding record_dir_def by (intro trim_sized append_sized) simp_all
qed


section \<open>The status file tells how the run ended\<close>

lemma map_of_sorted: "distinct (map fst d) \<Longrightarrow> map_of (sort_key fst d) = map_of d"
  by (subst map_of_inject_set) (simp_all add: distinct_map)

lemma sorted_object:
  assumes "distinct (map fst d)"
  shows "\<exists>d'. sort_keys (JObj d) = JObj d' \<and> (\<forall>k. dget d' k = sort_keys (dget d k))"
proof -
  let ?e = "map (\<lambda>(k, v). (k, sort_keys v)) d"
  have "map fst ?e = map fst d" by (auto simp: o_def split_def)
  then have "distinct (map fst ?e)" using assms by (simp only:)
  then have m: "map_of (sort_key fst ?e) = map_of ?e" by (rule map_of_sorted)
  have "map_of ?e k = map_option sort_keys (map_of d k)" for k by (simp add: map_of_map)
  with m show ?thesis by (auto simp: dget_def split: option.splits)
qed

lemma status_keys: "distinct (map fst (status_payload A t reason v extra av now))"
  by (cases extra; cases "ao_collector A = ''linux''"; simp add: status_payload_def)

lemma write_status_final:
  assumes "ao_status A" "reason \<noteq> ''running''"
  shows "\<exists>d extra now. ag_status (write_status A t reason b s) = Some (JObj d)
    \<and> (\<forall>k. dget d k = sort_keys (dget (status_payload A t reason (ag s) extra True now) k))
    \<and> ag (write_status A t reason b s) = (ag s)\<lparr>av_last_status := w_mono s (w_monos s)\<rparr>"
proof -
  let ?v = "(ag s)\<lparr>av_last_status := w_mono s (w_monos s)\<rparr>"
  let ?extra = "ao_extra A (ag_statuses s)"
  have "status_payload A t reason ?v x True now = status_payload A t reason (ag s) x True now" for x now
    by (simp add: status_payload_def)
  with sorted_object [OF status_keys [of A t reason ?v ?extra True "w_wall s (w_walls s)"]] show ?thesis
    using assms by (force simp: write_status_def write_status_file_def monotonic_def utc_now_def Let_def)
qed

lemma write_line_fields:
  "write_line_with_retries name line c n s = (r, s') \<Longrightarrow>
   av_error (ag s') = av_error (ag s) \<and> (\<forall>m. r = Inr m \<longrightarrow> ag_pending s' = [])"
proof (induction name line c n s arbitrary: r s' rule: write_line_with_retries.induct)
  case (1 name line c n s)
  obtain ok t where t: "write_attempt name line s = (ok, t)" by (metis surj_pair)
  show ?case
    using "1.prems" "1.IH" [OF t [symmetric] refl] write_attempt_result [OF t]
    by (subst (asm) write_line_with_retries.simps) (auto simp: t split: if_splits)
qed

lemma handle_record_fields:
  assumes "handle_record E A t x s = (None, s')"
  shows "av_error (ag s') = av_error (ag s) \<and> ag_pending s' = []"
proof -
  let ?l = "record_line x" and ?n = "ao_name A"
  obtain v s1 where w: "write_line_with_retries ?n ?l (ao_retries A) 0 (rotate_if_needed A ?l s) = (v, s1)"
    by (metis surj_pair)
  obtain m where m: "v = Inr m" using assms w by (cases v) (auto simp: handle_record_def Let_def)
  obtain kept d where e: "enforce_output_retention ?n (ao_max_output A) (ag_dir s1) = Inr (kept, d)"
    using assms w m by (cases "enforce_output_retention ?n (ao_max_output A) (ag_dir s1)") (auto simp: handle_record_def Let_def)
  let ?s2 = "count_record (endpoint_record_to_mapping x) kept (s1\<lparr>ag_dir := d\<rparr>)"
  obtain y s3 where k: "keep_as_event E A (endpoint_record_to_mapping x) ?s2 = (y, s3)" by (metis surj_pair)
  let ?s4 = "s3\<lparr>w_monos := Suc (w_monos s3), ag := (ag s3)\<lparr>av_activity := w_mono s3 (w_monos s3)\<rparr>\<rparr>"
  have "s' = write_status A t ''running'' False ?s4"
    using assms by (cases y) (simp_all add: handle_record_def w m e k monotonic_def Let_def)
  then have "same_output ?s4 s'" using write_status_same by simp
  with keep_as_event_same [OF k] write_line_fields [OF w] show ?thesis
    by (simp add: same_output_def count_record_fields rotate_if_needed_fields m)
qed

lemma stream_loop_fields:
  "stream_loop E A t fs s = (stop, s') \<Longrightarrow> ag_pending s = [] \<Longrightarrow> (\<forall>e. stop \<noteq> Raised e) \<Longrightarrow>
   av_error (ag s') = av_error (ag s) \<and> ag_pending s' = []"
proof (induction fs arbitrary: s)
  case (Cons f fs)
  have w: "ag_pending (write_status A t x b u) = ag_pending u" "av_error (ag (write_status A t x b u)) = av_error (ag u)"
    for x b u
    using write_status_same [of u A t x b] by (simp_all add: same_output_def)
  show ?case
  proof (cases f)
    case (Record r)
    obtain x s1 where h: "handle_record E A t r s = (x, s1)" by (metis surj_pair)
    show ?thesis
      using Cons.prems Cons.IH [of s1] handle_record_fields [of E A t r s s1] h
      by (auto simp: Record split: if_splits option.splits)
  next
    case Beat
    then show ?thesis using Cons.prems Cons.IH w by (auto split: if_splits)
  next
    case Refresh
    then show ?thesis using Cons.prems Cons.IH w by auto
  qed (use Cons.prems in auto)
qed simp

text \<open>The last status a run leaves tells how it ended: reading the health from it says healthy exactly
  if the run returned, with the reason \<open>ok\<close>, and otherwise unhealthy with the reason \<open>error\<close>. The
  counters and the reason of the status are those of the result.\<close>

theorem status_tells_outcome:
  assumes "stream_endpoint_records E A fs s = (r, s')" "ao_status A"
    and "output_family_size (ao_name A) (ag_dir s) = Inr n"
  shows "\<exists>d h. ag_status s' = Some (JObj d)
    \<and> build_agent_health fromiso path None (map_option Inr (ag_status s')) w = (Inr h, w)
    \<and> dget h ''healthy'' = JBool (\<not> isl r)
    \<and> dget h ''reason'' = JStr (if isl r then ''error'' else ''ok'')
    \<and> (\<forall>result. r = Inr result \<longrightarrow>
        (\<forall>k \<in> set [''records_written'', ''records_read'', ''events_written'', ''rotations'', ''retained_bytes'',
                     ''dropped_rotated_files'', ''session_ids'', ''stopped_reason'']. dget d k = dget result k))"
proof -
  let ?t = "w_wall s (w_walls s)"
  let ?s1 = "s\<lparr>w_walls := Suc (w_walls s), w_monos := Suc (w_monos s),
      ag := vars0\<lparr>av_retained := int n, av_activity := w_mono s (w_monos s)\<rparr>\<rparr>"
  let ?s2 = "write_status A ?t ''running'' False ?s1"
  let ?s3 = "?s2\<lparr>ag_dir := append_file (ao_name A) [] (ag_dir ?s2), ag_pending := []\<rparr>"
  obtain stop s4 where l: "stream_loop E A ?t fs ?s3 = (stop, s4)" by (metis surj_pair)
  have f: "finish_stream A ?t stop s4 = (r, s')"
    using assms(1) l by (simp add: stream_endpoint_records_def assms(3) utc_now_def monotonic_def Let_def)
  have strs: "sort_keys (json_strs xs) = json_strs xs" for xs by (simp add: json_strs_def)
  show ?thesis
  proof (cases "\<exists>e. stop = Raised e")
    case True
    then obtain e where e: "stop = Raised e" by blast
    let ?s5 = "s4\<lparr>ag := (ag s4)\<lparr>av_error := Some (ao_text A e)\<rparr>\<rparr>"
    obtain d extra now where d: "ag_status (write_status A ?t ''error'' False ?s5) = Some (JObj d)"
        "\<forall>k. dget d k = sort_keys (dget (status_payload A ?t ''error'' (ag ?s5) extra True now) k)"
      using write_status_final [OF assms(2), of "''error''" ?t False ?s5] by auto
    have "isl r" "ag_status s' = ag_status (write_status A ?t ''error'' False ?s5)"
      using f by (auto simp: finish_stream_def e close_output_def flush_output_def Let_def
          split: prod.splits if_splits flush.splits)
    with d show ?thesis
      by (auto simp: build_agent_health_def read_agent_health_def evaluate_agent_health_def Let_def
          status_payload_def status_state_def)
  next
    case False
    then have "av_error (ag s4) = None" "ag_pending s4 = []"
      using stream_loop_fields [OF l] write_status_same [of ?s1 A ?t "''running''" False]
      by (auto simp: same_output_def vars0_def)
    obtain reason s5 where rs: "(if stop = Signalled then (''signal'', s4) else end_reason A s4) = (reason, s5)"
      by (metis surj_pair)
    then have s5: "ag s5 = ag s4" "ag_pending s5 = []" "reason \<in> set [''signal'', ''limit'', ''exhausted'', ''idle'']"
      using \<open>ag_pending s4 = []\<close>
      by (auto simp: end_reason_def monotonic_def Let_def split: if_splits option.splits)
    let ?s6 = "write_status A ?t reason False s5"
    have r: "r = Inr (agent_result A (ag ?s6) reason)" "s' = ?s6"
      using f False rs s5(2) by (cases stop; auto simp: finish_stream_def close_output_def Let_def)+
    obtain d extra now where d: "ag_status ?s6 = Some (JObj d)"
        "\<forall>k. dget d k = sort_keys (dget (status_payload A ?t reason (ag s5) extra True now) k)"
        "ag ?s6 = (ag s5)\<lparr>av_last_status := w_mono s5 (w_monos s5)\<rparr>"
      using write_status_final [OF assms(2), of reason ?t False s5] s5(3) by auto
    have "reason \<notin> set [''running'', ''collector_unavailable'', ''error'']" using s5(3) by auto
    then have "status_state reason = ''stopped''" by (simp add: status_state_def)
    then show ?thesis using d r s5(1) \<open>av_error (ag s4) = None\<close>
      by (auto simp: build_agent_health_def read_agent_health_def evaluate_agent_health_def Let_def
          status_payload_def agent_result_def strs json_opt_def)
  qed
qed

section \<open>An agent on a small directory\<close>

definition agent_options0 :: agent_options where
  "agent_options0 =
     \<lparr>ao_collector = ''mock'', ao_name = ''o'', ao_output = ''o'', ao_status = True, ao_trace = Some ''t'', ao_db = None,
      ao_session = ''s'', ao_host = None, ao_limit = Some 5, ao_idle = None, ao_strict = False, ao_rotate = Some 300,
      ao_max_files = 1, ao_max_output = Some 400, ao_retries = 2, ao_heartbeat = None, ao_pid = Some 7,
      ao_extra = \<lambda>_. None, ao_text = \<lambda>_. ''failed''\<rparr>"

definition agent0 :: agent_state where
  "agent0 = sys.extend (sys.truncate tail0)
     \<lparr>ag_dir = [(''o'', [123, 125, 10]), (''x'', [1])], ag_pending = [], ag_flush = \<lambda>_. Flushed, ag_flushes = 0,
      ag_status = None, ag_statuses = 0, ag_pid = None, ag = vars0\<rparr>"

definition feed0 :: "feed list" where
  "feed0 =
     [Record (Plain [(''event_type'', JStr ''process_exec''), (''session_id'', JStr ''s''), (''command'', JStr ''ls'')]),
      Beat, Interrupt]"

lemma agent0_files:
  "numbered_dir (ao_name agent_options0) (nat (ao_max_files agent_options0)) (ag_dir agent0)"
  "\<forall>n. ag_flush agent0 n = Flushed" "sized (ao_name agent_options0) 300 (ag_dir agent0)"
proof -
  have "family_name ''o'' 1 ''x''" by (simp add: family_name_def)
  then show "numbered_dir (ao_name agent_options0) (nat (ao_max_files agent_options0)) (ag_dir agent0)"
    by (auto simp: numbered_dir_def agent_options0_def agent0_def sys.defs split: if_splits)
  show "\<forall>n. ag_flush agent0 n = Flushed" by (simp add: agent0_def sys.defs)
  have "numbered ''o'' k \<notin> {''x'', ''o''}" for k by (auto simp: numbered_def)
  then show "sized (ao_name agent_options0) 300 (ag_dir agent0)"
    by (auto simp: sized_def agent_options0_def agent0_def sys.defs file_bytes_def)
qed



theorem status_tells_outcome_witness:
  "\<exists>d. ag_status (snd (stream_endpoint_records no_lib agent_options0 feed0 agent0)) = Some (JObj d)"
proof -
  have "ao_status agent_options0" by (simp add: agent_options0_def)
  from status_tells_outcome [where E = no_lib and fs = feed0, OF prod.collapse [symmetric] this family_size [OF agent0_files(1)]]
  show ?thesis by blast
qed

text \<open>A line whose first flush fails, and whose rest stays in the buffer, is written twice.\<close>

theorem retries_are_bounded_witness:
  "\<exists>k \<le> 2. let (r, s') = write_line_with_retries ''o'' [65, 10] 2 0 (agent0\<lparr>ag_flush := (\<lambda>_. Flushed)(0 := FlushError 0 True)\<rparr>)
     in ag_flushes s' = Suc k \<and> r = Inr 1 \<and> file_bytes ''o'' (ag_dir s') = [123, 125, 10, 65, 10, 65, 10]"
proof -
  let ?s = "agent0\<lparr>ag_flush := (\<lambda>_. Flushed)(0 := FlushError 0 True)\<rparr>"
  obtain r s' where w: "write_line_with_retries ''o'' [65, 10] 2 0 ?s = (r, s')" by (metis surj_pair)
  have "r = Inr 1" "file_bytes ''o'' (ag_dir s') = [123, 125, 10, 65, 10, 65, 10]"
    using w by (auto simp: write_line_with_retries.simps write_attempt_def flush_output_def Let_def agent0_def sys.defs
        append_file_def file_bytes_def record_backpressure_def utc_now_def)
  with retries_are_bounded [OF w] w show ?thesis by (auto simp: agent0_def sys.defs)
qed

end
