(* ===== verification/EbpfCollector.thy ===== *)
theory EbpfCollector
  imports EndpointAgent Framing
begin

unbundle bit_operations_syntax

text \<open>
  \<open>src/zeroadr/endpoint/collectors/linux_bcc.py\<close> and \<open>linux.py\<close>: three kernel probes deliver raw events,
  which are decoded, filtered, queued and turned into sensor records. The library that loads the
  probes is a parameter: what attaching a probe raises, and what each poll delivers and raises. The
  host is little-endian.
\<close>

section \<open>Paths\<close>

text \<open>\<open>os.path.normpath\<close>.\<close>

fun norm_comps :: "bool \<Rightarrow> string list \<Rightarrow> string list \<Rightarrow> string list" where
  "norm_comps rooted acc [] = rev acc"
| "norm_comps rooted acc (c # cs) =
     (if c = [] \<or> c = ''.'' then norm_comps rooted acc cs
      else if c \<noteq> ''..'' \<or> \<not> rooted \<and> acc = [] \<or> acc \<noteq> [] \<and> hd acc = ''..'' then norm_comps rooted (c # acc) cs
      else norm_comps rooted (tl acc) cs)"

definition initial_slashes :: "string \<Rightarrow> nat" where
  "initial_slashes path =
     (if \<not> prefix ''/'' path then 0
      else if prefix ''//'' path \<and> \<not> prefix ''///'' path then 2 else 1)"

definition normpath :: "string \<Rightarrow> string" where
  "normpath path =
     (if path = [] then ''.''
      else let n = initial_slashes path;
               p = replicate n (CHR ''/'') @ join ''/'' (norm_comps (n \<noteq> 0) [] (split_at (CHR ''/'') path))
           in if p = [] then ''.'' else p)"

text \<open>\<open>os.path.expanduser\<close>: \<open>home []\<close> is the home directory of the process's user, \<open>home name\<close> that
  of another one, if there is such a user.\<close>

definition expanduser :: "(string \<Rightarrow> string option) \<Rightarrow> string \<Rightarrow> string" where
  "expanduser home path =
     (if \<not> prefix ''~'' path then path
      else let user = takeWhile (\<lambda>c. c \<noteq> CHR ''/'') (tl path) in
           case home user of
             None \<Rightarrow> path
           | Some userhome \<Rightarrow>
               (let p = rstrip_if (\<lambda>c. c = CHR ''/'') userhome @ drop (Suc (length user)) path
                in if p = [] then ''/'' else p))"

definition basename :: "string \<Rightarrow> string" where
  "basename path = last (split_at (CHR ''/'') path)"

definition DEFAULT_SENSITIVE_PATH_PREFIXES :: "string list" where
  "DEFAULT_SENSITIVE_PATH_PREFIXES =
     [''/etc/shadow'', ''/etc/sudoers'', ''/root/.ssh'', ''/.ssh'', ''.env'', ''.env.'']"

definition parse_sensitive_path_prefixes :: "string option \<Rightarrow> string list" where
  "parse_sensitive_path_prefixes raw =
     (case raw of
        None \<Rightarrow> DEFAULT_SENSITIVE_PATH_PREFIXES
      | Some r \<Rightarrow>
          if strip r = [] then DEFAULT_SENSITIVE_PATH_PREFIXES
          else filter (\<lambda>p. p \<noteq> []) (map strip (split_at (CHR '','') r)))"

text \<open>One prefix of the loop: a name that starts with a dot is looked for at the end.\<close>

definition matches_prefix :: "string \<Rightarrow> string \<Rightarrow> bool" where
  "matches_prefix normalized expanded =
     (if prefix ''.'' expanded
      then suffix expanded normalized
           \<or> suffix (''/'' @ dropWhile (\<lambda>c. c = CHR ''.'') expanded) normalized
           \<or> suffix ''.'' expanded \<and> prefix expanded (basename normalized)
      else normalized = expanded \<or> prefix (expanded @ ''/'') normalized)"

definition path_matches_sensitive_prefix :: "(string \<Rightarrow> string option) \<Rightarrow> string \<Rightarrow> string list \<Rightarrow> bool" where
  "path_matches_sensitive_prefix home path sensitive =
     list_ex (\<lambda>p. matches_prefix (normpath (expanduser home path)) (normpath (expanduser home p))) sensitive"

section \<open>Availability\<close>

text \<open>What the checks read of the host: \<open>/proc\<close> files are \<open>None\<close> when reading raises an \<open>OSError\<close>.\<close>

record host =
  ho_system :: string
  ho_node :: string
  ho_enable :: "string option"
  ho_legacy :: "string option"
  ho_euid :: nat
  ho_self_status :: "string option"
  ho_bcc :: bool
  ho_home :: "string \<Rightarrow> string option"
  ho_status :: "nat \<Rightarrow> string option"
  ho_cwd :: "nat \<Rightarrow> string option"
  ho_stat :: "nat \<Rightarrow> string option"
  ho_boot :: "string option"
  ho_user :: "int \<Rightarrow> string option"
  ho_ticks :: nat

definition CAP_BPF :: nat where "CAP_BPF = 39"
definition CAP_PERFMON :: nat where "CAP_PERFMON = 38"
definition CAP_SYS_ADMIN :: nat where "CAP_SYS_ADMIN = 21"

text \<open>\<open>int(text, 16)\<close>.\<close>

definition py_int_hex :: "string \<Rightarrow> exn + int" where
  "py_int_hex s =
     (let t = strip s; sg = (if t \<noteq> [] \<and> hd t \<in> {CHR ''+'', CHR ''-''} then [hd t] else []);
          u = drop (length sg) t;
          marked = prefix ''0x'' (lower u);
          v = (if marked then drop 2 u else u);
          ds = (if marked \<and> prefix ''_'' v then tl v else v);
          hs = filter (\<lambda>c. c \<noteq> CHR ''_'') ds;
          n = int (foldl (\<lambda>k c. 16 * k + (case hex_value c of Some h \<Rightarrow> h | None \<Rightarrow> 0)) 0 hs) in
      if ds \<noteq> [] \<and> hd ds \<noteq> CHR ''_'' \<and> last ds \<noteq> CHR ''_'' \<and> \<not> sublist ''__'' ds
         \<and> list_all (\<lambda>c. hex_value c \<noteq> None) hs
      then Inr (if sg = ''-'' then - n else n) else value_error)"

fun effective_in_lines :: "string list \<Rightarrow> exn + int" where
  "effective_in_lines [] = Inr 0"
| "effective_in_lines (line # lines) =
     (if prefix ''CapEff:'' line then py_int_hex (strip (drop 7 line)) else effective_in_lines lines)"

definition effective_capabilities :: "host \<Rightarrow> exn + int" where
  "effective_capabilities H =
     (case ho_self_status H of None \<Rightarrow> Inr 0 | Some status \<Rightarrow> effective_in_lines (splitlines status))"

definition capability_is_effective :: "host \<Rightarrow> nat \<Rightarrow> exn + bool" where
  "capability_is_effective H capability =
     map_sum id (\<lambda>caps. caps AND push_bit capability 1 \<noteq> 0) (effective_capabilities H)"

fun any_capability :: "host \<Rightarrow> nat list \<Rightarrow> exn + bool" where
  "any_capability H [] = Inr False"
| "any_capability H (c # cs) =
     (case capability_is_effective H c of
        Inl e \<Rightarrow> Inl e | Inr True \<Rightarrow> Inr True | Inr False \<Rightarrow> any_capability H cs)"

definition has_ebpf_privileges :: "host \<Rightarrow> exn + bool" where
  "has_ebpf_privileges H =
     (if ho_euid H = 0 then Inr True else any_capability H [CAP_BPF, CAP_PERFMON, CAP_SYS_ADMIN])"

definition bcc_enabled :: "host \<Rightarrow> bool" where
  "bcc_enabled H = (ho_enable H = Some ''1'' \<or> ho_legacy H = Some ''1'')"

definition bcc_unavailable :: exn where
  "bcc_unavailable = PyError ''BccCollectorUnavailable''"

definition check_bcc_available :: "host \<Rightarrow> exn option" where
  "check_bcc_available H =
     (if ho_system H \<noteq> ''Linux'' then Some bcc_unavailable
      else if \<not> bcc_enabled H then Some bcc_unavailable
      else case has_ebpf_privileges H of
             Inl e \<Rightarrow> Some e
           | Inr privileged \<Rightarrow>
               if \<not> privileged then Some bcc_unavailable
               else if \<not> ho_bcc H then Some bcc_unavailable else None)"

section \<open>What is known of a process\<close>

record enrichment =
  en_user :: "string option"
  en_cwd :: "string option"
  en_start :: "string option"

fun user_in_lines :: "host \<Rightarrow> string list \<Rightarrow> exn + string option" where
  "user_in_lines H [] = Inr None"
| "user_in_lines H (line # lines) =
     (if prefix ''Uid:'' line
      then (case split_ws (strip (drop 4 line)) of
              [] \<Rightarrow> Inl (PyError ''IndexError'')
            | uid_text # _ \<Rightarrow>
                (case py_int uid_text of
                   Inl _ \<Rightarrow> Inr (Some uid_text)
                 | Inr uid \<Rightarrow> Inr (Some (case ho_user H uid of None \<Rightarrow> uid_text | Some name \<Rightarrow> name))))
      else user_in_lines H lines)"

definition read_process_user :: "host \<Rightarrow> nat \<Rightarrow> exn + string option" where
  "read_process_user H pid =
     (case ho_status H pid of None \<Rightarrow> Inr None | Some status \<Rightarrow> user_in_lines H (splitlines status))"

text \<open>\<open>_system_boot_time\<close>; \<open>None\<close> is the \<open>OSError\<close>. The boot time is written as a whole number.\<close>

definition system_boot_time :: "host \<Rightarrow> (exn + int) option" where
  "system_boot_time H =
     (case ho_boot H of
        None \<Rightarrow> None
      | Some proc_stat \<Rightarrow>
          (case filter (prefix ''btime '') (splitlines proc_stat) of
             [] \<Rightarrow> None
           | line # _ \<Rightarrow> (case split_ws line of _ # t # _ \<Rightarrow> Some (py_int t) | _ \<Rightarrow> Some (Inl (PyError ''IndexError'')))))"

text \<open>\<open>stat[stat.rfind(")") + 2:]\<close>.\<close>

definition after_paren :: "string \<Rightarrow> string option" where
  "after_paren s =
     (if CHR '')'' \<notin> set s then None
      else Some (drop 1 (rev (takeWhile (\<lambda>c. c \<noteq> CHR '')'') (rev s)))))"

text \<open>The arithmetic on floating-point numbers is exact to the microseconds that are printed.\<close>

definition read_process_start_time :: "host \<Rightarrow> nat \<Rightarrow> exn + string option" where
  "read_process_start_time H pid =
     (case ho_stat H pid of
        None \<Rightarrow> Inr None
      | Some stat \<Rightarrow>
          (case system_boot_time H of
             None \<Rightarrow> Inr None
           | Some (Inl e) \<Rightarrow> Inl e
           | Some (Inr boot_time) \<Rightarrow>
               (case after_paren stat of
                  None \<Rightarrow> Inr None
                | Some rest \<Rightarrow>
                    (let fields = split_ws rest in
                     if length fields < 20 then Inr None
                     else case py_int (fields ! 19) of
                            Inl _ \<Rightarrow> Inr None
                          | Inr ticks \<Rightarrow>
                              Inr (Some (iso_local (py_round ((of_int boot_time + of_int ticks / of_nat (ho_ticks H)) * 1000000))
                                         @ ''Z''))))))"

definition no_enrichment :: enrichment where
  "no_enrichment = \<lparr>en_user = None, en_cwd = None, en_start = None\<rparr>"

definition enrich_process :: "host \<Rightarrow> nat \<Rightarrow> exn + enrichment" where
  "enrich_process H pid =
     (if pid = 0 then Inr no_enrichment
      else case read_process_user H pid of
             Inl e \<Rightarrow> Inl e
           | Inr user \<Rightarrow>
               (case read_process_start_time H pid of
                  Inl e \<Rightarrow> Inl e
                | Inr start \<Rightarrow> Inr \<lparr>en_user = user, en_cwd = ho_cwd H pid, en_start = start\<rparr>))"

section \<open>Raw events\<close>

text \<open>The fields of the three C structures that the probes submit; a character array is its bytes.\<close>

record raw_event =
  raw_pid :: "32 word"
  raw_ppid :: "32 word"
  raw_comm :: "nat list"
  raw_text :: "nat list"
  raw_daddr :: "32 word"
  raw_dport :: "16 word"

text \<open>\<open>decode("utf-8", errors="replace")\<close>: a longest start of a sequence that goes no further gives one
  replacement character.\<close>

definition continuations :: "nat \<Rightarrow> nat" where
  "continuations a =
     (if 194 \<le> a \<and> a \<le> 223 then 1 else if 224 \<le> a \<and> a \<le> 239 then 2 else if 240 \<le> a \<and> a \<le> 244 then 3 else 0)"

definition second_ok :: "nat \<Rightarrow> nat \<Rightarrow> bool" where
  "second_ok a b = (continuation b \<and> (a = 224 \<longrightarrow> 160 \<le> b) \<and> (a = 237 \<longrightarrow> b < 160)
     \<and> (a = 240 \<longrightarrow> 144 \<le> b) \<and> (a = 244 \<longrightarrow> b < 144))"

definition good_bytes :: "nat \<Rightarrow> nat list \<Rightarrow> nat" where
  "good_bytes a bs =
     (case bs of
        [] \<Rightarrow> 0
      | b # r \<Rightarrow> if continuations a \<noteq> 0 \<and> second_ok a b
                 then Suc (length (takeWhile continuation (take (continuations a - 1) r))) else 0)"

function utf8_replace :: "nat list \<Rightarrow> string" where
  "utf8_replace [] = []"
| "utf8_replace (a # bs) =
     (let n = continuations a; k = good_bytes a bs in
      (if a < 128 then char_of a
       else if n \<noteq> 0 \<and> k = n
       then code_point (foldl (\<lambda>v b. v * 64 + (b - 128)) (a - [0, 192, 224, 240] ! n) (take k bs))
       else code_point 65533)
      # utf8_replace (if a < 128 then bs else drop k bs))"
  by pat_completeness auto
termination by (relation "measure length") auto

definition decode_bytes :: "nat list \<Rightarrow> string" where
  "decode_bytes value = utf8_replace (takeWhile (\<lambda>b. b \<noteq> 0) value)"

text \<open>\<open>socket.inet_ntoa(struct.pack("<I", value))\<close> and \<open>socket.ntohs\<close>.\<close>

definition address_byte :: "nat \<Rightarrow> 32 word \<Rightarrow> nat" where
  "address_byte i v = unat (drop_bit (8 * i) v AND 255)"

definition ipv4_from_kernel_value :: "32 word \<Rightarrow> string" where
  "ipv4_from_kernel_value v = join ''.'' (map (\<lambda>i. nat_str (address_byte i v)) [0, 1, 2, 3])"

definition ntohs :: "16 word \<Rightarrow> 16 word" where
  "ntohs p = push_bit 8 p OR drop_bit 8 p"

text \<open>Events after decoding: a process that starts, a file that is opened, a connection.\<close>

datatype bcc_event =
    ExecEvent nat nat string string
  | FileOpenEvent nat nat string string
  | NetworkConnectEvent nat nat string string nat

text \<open>What the handler of a probe makes of a raw event; nothing for a file that is not sensitive. The
  command of a process that starts is its executable.\<close>

definition handle_event :: "host \<Rightarrow> string list \<Rightarrow> string \<Rightarrow> raw_event \<Rightarrow> bcc_event option" where
  "handle_event H sensitive probe raw =
     (let pid = unat (raw_pid raw); ppid = unat (raw_ppid raw); process = decode_bytes (raw_comm raw) in
      if probe = ''exec'' then Some (ExecEvent pid ppid process (decode_bytes (raw_text raw)))
      else if probe = ''file''
      then (let path = decode_bytes (raw_text raw) in
            if path_matches_sensitive_prefix (ho_home H) path sensitive
            then Some (FileOpenEvent pid ppid process path) else None)
      else Some (NetworkConnectEvent pid ppid process (ipv4_from_kernel_value (raw_daddr raw))
                   (unat (ntohs (raw_dport raw)))))"

section \<open>From an event to a record\<close>

text \<open>The keyword arguments all three records have; the schema library leaves out those without a value.\<close>

definition process_fields ::
  "string \<Rightarrow> string option \<Rightarrow> enrichment \<Rightarrow> string \<Rightarrow> int \<Rightarrow> nat \<Rightarrow> nat \<Rightarrow> string \<Rightarrow> jdict" where
  "process_fields session_id host_id extra event_id timestamp pid ppid process =
     [(''event_id'', JStr event_id), (''timestamp'', json_time timestamp), (''session_id'', JStr session_id),
      (''host_id'', json_opt host_id), (''pid'', JInt (int pid)), (''ppid'', JInt (int ppid)),
      (''process'', JStr process), (''user'', json_opt (en_user extra)), (''cwd'', json_opt (en_cwd extra)),
      (''process_start_time'', json_opt (en_start extra))]"

definition bcc_exec_event_to_record ::
  "endpoint_lib \<Rightarrow> jdict \<Rightarrow> string \<Rightarrow> string \<Rightarrow> exn + endpoint_record" where
  "bcc_exec_event_to_record E common process executable =
     (let command = (if executable \<noteq> [] then executable else process) in
      map_sum id Model (el_exec E (common @ [(''executable'', JStr executable), (''command'', JStr command)])))"

definition bcc_file_open_event_to_record :: "endpoint_lib \<Rightarrow> jdict \<Rightarrow> string \<Rightarrow> exn + endpoint_record" where
  "bcc_file_open_event_to_record E common path = map_sum id Model (el_file E (common @ [(''path'', JStr path)]))"

definition bcc_network_connect_event_to_record ::
  "endpoint_lib \<Rightarrow> jdict \<Rightarrow> string \<Rightarrow> nat \<Rightarrow> exn + endpoint_record" where
  "bcc_network_connect_event_to_record E common host port =
     map_sum id Model (el_net E (common @ [(''host'', JStr host), (''port'', JInt (int port))]))"

fun event_pid :: "bcc_event \<Rightarrow> nat" where
  "event_pid (ExecEvent pid _ _ _) = pid"
| "event_pid (FileOpenEvent pid _ _ _) = pid"
| "event_pid (NetworkConnectEvent pid _ _ _ _) = pid"

text \<open>The fresh identifier and the time come from the conversion.\<close>

definition stamped_fields ::
  "string \<Rightarrow> string option \<Rightarrow> enrichment \<Rightarrow> nat \<Rightarrow> nat \<Rightarrow> string \<Rightarrow> 'a world_scheme \<Rightarrow> jdict \<times> 'a world_scheme" where
  "stamped_fields session_id host_id extra pid ppid process w =
     (let (event_id, w) = new_ulid w; (now, w) = utc_now w in
      (process_fields session_id host_id extra event_id now pid ppid process, w))"

definition event_to_record ::
  "endpoint_lib \<Rightarrow> host \<Rightarrow> string \<Rightarrow> string option \<Rightarrow> string \<Rightarrow> bcc_event \<Rightarrow> 'a world_scheme \<Rightarrow>
   (exn + endpoint_record) \<times> 'a world_scheme" where
  "event_to_record E H session_id host_id probe event w =
     (case enrich_process H (event_pid event) of
        Inl e \<Rightarrow> (Inl e, w)
      | Inr extra \<Rightarrow>
          (case event of
             ExecEvent pid ppid process executable \<Rightarrow>
               if probe \<noteq> ''exec'' then (value_error, w)
               else (let (common, w) = stamped_fields session_id host_id extra pid ppid process w in
                     (bcc_exec_event_to_record E common process executable, w))
           | FileOpenEvent pid ppid process path \<Rightarrow>
               if probe \<noteq> ''file'' then (value_error, w)
               else (let (common, w) = stamped_fields session_id host_id extra pid ppid process w in
                     (bcc_file_open_event_to_record E common path, w))
           | NetworkConnectEvent pid ppid process host port \<Rightarrow>
               if probe \<noteq> ''network'' then (value_error, w)
               else (let (common, w) = stamped_fields session_id host_id extra pid ppid process w in
                     (bcc_network_connect_event_to_record E common host port, w))))"

section \<open>A collector session\<close>

text \<open>\<open>kn_attach probe\<close> is the text of what attaching the probe raises, \<open>kn_poll probe n\<close> what its \<open>n\<close>-th
  poll delivers and raises, \<open>kn_stop n\<close> whether the stop event is set at the \<open>n\<close>-th look. A polled
  event is delivered to the handler of its probe.\<close>

record kernel =
  kn_attach :: "string \<Rightarrow> string option"
  kn_poll :: "string \<Rightarrow> nat \<Rightarrow> raw_event list \<times> string option"
  kn_stop :: "nat \<Rightarrow> bool"

record bcc_options =
  bo_session :: string
  bo_host :: "string option"
  bo_limit :: "int option"
  bo_sensitive :: "string list"
  bo_max_queue :: int
  bo_notify :: bool

record probe =
  pb_name :: string
  pb_attached :: bool
  pb_events :: nat
  pb_errors :: nat
  pb_last_error :: "string option"
  pb_queue :: "bcc_event list"
  pb_polls :: nat

text \<open>\<open>bs_out\<close>: what the consumer sees, the records yielded and the refreshes of the status.\<close>

record bcc_state = world +
  bs_probes :: "probe list"
  bs_attached :: bool
  bs_dropped :: nat
  bs_last_event :: "int option"
  bs_stops :: nat
  bs_out :: "feed list"

definition notify_status :: "bcc_options \<Rightarrow> bcc_state \<Rightarrow> bcc_state" where
  "notify_status B s = (if bo_notify B then s\<lparr>bs_out := bs_out s @ [Refresh]\<rparr> else s)"

definition update_probe :: "nat \<Rightarrow> (probe \<Rightarrow> probe) \<Rightarrow> bcc_state \<Rightarrow> bcc_state" where
  "update_probe i f s = s\<lparr>bs_probes := (bs_probes s)[i := f (bs_probes s ! i)]\<rparr>"

definition probe_error :: "string \<Rightarrow> probe \<Rightarrow> probe" where
  "probe_error message p = p\<lparr>pb_errors := Suc (pb_errors p), pb_last_error := Some message\<rparr>"

definition attach_probe :: "kernel \<Rightarrow> string \<Rightarrow> probe" where
  "attach_probe K name =
     (let p = \<lparr>pb_name = name, pb_attached = False, pb_events = 0, pb_errors = 0, pb_last_error = None,
               pb_queue = [], pb_polls = 0\<rparr> in
      case kn_attach K name of None \<Rightarrow> p\<lparr>pb_attached := True\<rparr> | Some message \<Rightarrow> probe_error message p)"

definition active_probes :: "bcc_state \<Rightarrow> nat list" where
  "active_probes s = filter (\<lambda>i. pb_attached (bs_probes s ! i)) [0..<length (bs_probes s)]"

text \<open>The errors that \<open>cleanup\<close> counts are those of probes that it then forgets.\<close>

definition cleanup :: "bcc_options \<Rightarrow> bcc_state \<Rightarrow> bcc_state" where
  "cleanup B s = notify_status B (s\<lparr>bs_probes := [], bs_attached := False\<rparr>)"

definition attach :: "host \<Rightarrow> bcc_options \<Rightarrow> kernel \<Rightarrow> bcc_state \<Rightarrow> exn option \<times> bcc_state" where
  "attach H B K s =
     (if bs_attached s then (None, s)
      else case check_bcc_available H of
             Some e \<Rightarrow> (Some e, s)
           | None \<Rightarrow>
               (let s = s\<lparr>bs_probes := map (attach_probe K) [''exec'', ''file'', ''network'']\<rparr> in
                if active_probes s = [] then (Some bcc_unavailable, cleanup B s)
                else (None, notify_status B (s\<lparr>bs_attached := True\<rparr>))))"

definition enqueue :: "bcc_options \<Rightarrow> nat \<Rightarrow> bcc_event \<Rightarrow> bcc_state \<Rightarrow> bcc_state" where
  "enqueue B i event s =
     (if bo_max_queue B \<le> int (length (pb_queue (bs_probes s ! i)))
      then notify_status B (s\<lparr>bs_dropped := Suc (bs_dropped s)\<rparr>)
      else update_probe i (\<lambda>p. p\<lparr>pb_queue := pb_queue p @ [event]\<rparr>) s)"

text \<open>A poll calls the handler for each event it delivers.\<close>

definition deliver :: "host \<Rightarrow> bcc_options \<Rightarrow> nat \<Rightarrow> raw_event list \<Rightarrow> bcc_state \<Rightarrow> bcc_state" where
  "deliver H B i raws s =
     fold (\<lambda>raw s. case handle_event H (bo_sensitive B) (pb_name (bs_probes s ! i)) raw of
                     None \<Rightarrow> s | Some event \<Rightarrow> enqueue B i event s) raws s"

text \<open>The loop of \<open>_drain_probe\<close>, over the events in the queue.\<close>

fun drain_events ::
  "endpoint_lib \<Rightarrow> host \<Rightarrow> bcc_options \<Rightarrow> nat \<Rightarrow> bcc_event list \<Rightarrow> bcc_state \<Rightarrow>
   (exn + endpoint_record list) \<times> bcc_state" where
  "drain_events E H B i [] s = (Inr [], s)"
| "drain_events E H B i (event # queue) s =
     (let s = update_probe i (\<lambda>p. p\<lparr>pb_queue := queue\<rparr>) s in
      case event_to_record E H (bo_session B) (bo_host B) (pb_name (bs_probes s ! i)) event s of
        (Inl e, s) \<Rightarrow> (Inl e, s)
      | (Inr record, s) \<Rightarrow>
          (let s = update_probe i (\<lambda>p. p\<lparr>pb_events := Suc (pb_events p)\<rparr>) s;
               (now, s) = utc_now s;
               s = notify_status B (s\<lparr>bs_last_event := Some now\<rparr>) in
           case drain_events E H B i queue s of
             (Inl e, s) \<Rightarrow> (Inl e, s)
           | (Inr records, s) \<Rightarrow> (Inr (record # records), s)))"

definition drain_probe ::
  "endpoint_lib \<Rightarrow> host \<Rightarrow> bcc_options \<Rightarrow> nat \<Rightarrow> bcc_state \<Rightarrow> (exn + endpoint_record list) \<times> bcc_state" where
  "drain_probe E H B i s = drain_events E H B i (pb_queue (bs_probes s ! i)) s"

definition at_limit :: "bcc_options \<Rightarrow> nat \<Rightarrow> bool" where
  "at_limit B emitted = (case bo_limit B of None \<Rightarrow> False | Some n \<Rightarrow> n \<le> int emitted)"

fun yield_records :: "bcc_options \<Rightarrow> nat \<Rightarrow> endpoint_record list \<Rightarrow> bcc_state \<Rightarrow> nat \<times> bcc_state" where
  "yield_records B emitted [] s = (emitted, s)"
| "yield_records B emitted (r # rs) s =
     (let s = s\<lparr>bs_out := bs_out s @ [Record r]\<rparr>; emitted = Suc emitted in
      if at_limit B emitted then (emitted, s) else yield_records B emitted rs s)"

definition look_stop :: "kernel \<Rightarrow> bcc_state \<Rightarrow> bool \<times> bcc_state" where
  "look_stop K s = (kn_stop K (bs_stops s), s\<lparr>bs_stops := Suc (bs_stops s)\<rparr>)"

definition poll_probe :: "host \<Rightarrow> bcc_options \<Rightarrow> kernel \<Rightarrow> nat \<Rightarrow> bcc_state \<Rightarrow> bool \<times> bcc_state" where
  "poll_probe H B K i s =
     (let p = bs_probes s ! i;
          (raws, failed) = kn_poll K (pb_name p) (pb_polls p);
          s = deliver H B i raws (update_probe i (\<lambda>p. p\<lparr>pb_polls := Suc (pb_polls p)\<rparr>) s) in
      case failed of
        None \<Rightarrow> (True, s)
      | Some message \<Rightarrow> (False, notify_status B (update_probe i (probe_error message) s)))"

text \<open>One round over the probes; the result is the number of records yielded so far and whether a poll
  succeeded.\<close>

fun poll_probes ::
  "endpoint_lib \<Rightarrow> host \<Rightarrow> bcc_options \<Rightarrow> kernel \<Rightarrow> nat list \<Rightarrow> nat \<Rightarrow> bool \<Rightarrow> bcc_state \<Rightarrow>
   (exn + nat \<times> bool) \<times> bcc_state" where
  "poll_probes E H B K [] emitted polled s = (Inr (emitted, polled), s)"
| "poll_probes E H B K (i # is) emitted polled s =
     (let (stopped, s) = look_stop K s in
      if stopped \<or> at_limit B emitted then (Inr (emitted, polled), s)
      else let (ok, s) = poll_probe H B K i s in
        case drain_probe E H B i s of
          (Inl e, s) \<Rightarrow> (Inl e, s)
        | (Inr records, s) \<Rightarrow>
            (let (emitted, s) = yield_records B emitted records s in
             poll_probes E H B K is emitted (polled \<or> ok) s))"

text \<open>The loop of \<open>iter_records\<close>, with fuel for its rounds: without a result it is still running.\<close>

fun session_loop ::
  "endpoint_lib \<Rightarrow> host \<Rightarrow> bcc_options \<Rightarrow> kernel \<Rightarrow> nat \<Rightarrow> nat \<Rightarrow> bcc_state \<Rightarrow> exn option option \<times> bcc_state" where
  "session_loop E H B K 0 emitted s = (None, s)"
| "session_loop E H B K (Suc fuel) emitted s =
     (let (stopped, s) = look_stop K s in
      if stopped \<or> at_limit B emitted then (Some None, s)
      else case poll_probes E H B K (active_probes s) emitted False s of
             (Inl e, s) \<Rightarrow> (Some (Some e), s)
           | (Inr (emitted, polled), s) \<Rightarrow>
               if \<not> polled \<and> list_all (\<lambda>i. pb_queue (bs_probes s ! i) = []) (active_probes s) \<and> bo_limit B \<noteq> None
               then (Some None, s)
               else session_loop E H B K fuel emitted s)"

definition iter_records ::
  "endpoint_lib \<Rightarrow> host \<Rightarrow> bcc_options \<Rightarrow> kernel \<Rightarrow> nat \<Rightarrow> bcc_state \<Rightarrow> exn option option \<times> bcc_state" where
  "iter_records E H B K fuel s =
     (case attach H B K s of
        (Some e, s) \<Rightarrow> (Some (Some e), s)
      | (None, s) \<Rightarrow>
          (case session_loop E H B K fuel 0 s of
             (None, s) \<Rightarrow> (None, s)
           | (Some r, s) \<Rightarrow> (Some r, cleanup B s)))"

text \<open>\<open>BccRecordMultiplexer\<close>: one record of every stream in turn; a stream is what it yields.\<close>

function multiplex :: "'x list list \<Rightarrow> 'x list" where
  "multiplex [] = []"
| "multiplex (s # ss) =
     (let live = filter (\<lambda>x. x \<noteq> []) (s # ss) in map hd live @ multiplex (map tl live))"
  by pat_completeness auto
termination
proof (relation "measure (\<lambda>ss. sum_list (map (\<lambda>s. Suc (length s)) ss))", simp, clarsimp simp del: filter.simps)
  fix s :: "'x list" and ss
  have "sum_list (map (\<lambda>s. Suc (length (tl s))) (filter (\<lambda>x. x \<noteq> []) xs))
      \<le> sum_list (map length xs)" for xs :: "'x list list"
    by (induction xs) auto
  from this [of "s # ss"] show "sum_list (map ((\<lambda>s. Suc (length s)) \<circ> tl) (filter (\<lambda>x. x \<noteq> []) (s # ss)))
      < Suc (length s + sum_list (map (\<lambda>s. Suc (length s)) ss))"
    by (auto simp: o_def sum_list_Suc split: if_splits)
qed

section \<open>The Linux collector\<close>

definition linux_unavailable :: "exn \<Rightarrow> exn" where
  "linux_unavailable e = (if e = bcc_unavailable then PyError ''LinuxCollectorUnavailable'' else e)"

definition check_available :: "host \<Rightarrow> exn option" where
  "check_available H = map_option linux_unavailable (check_bcc_available H)"

definition probe_status :: "probe \<Rightarrow> string \<times> json" where
  "probe_status p =
     (pb_name p, JObj ([(''attached'', JBool (pb_attached p)), (''events'', JInt (int (pb_events p))),
        (''errors'', JInt (int (pb_errors p)))]
        @ (case pb_last_error p of None \<Rightarrow> [] | Some [] \<Rightarrow> [] | Some e \<Rightarrow> [(''last_error'', JStr e)])))"

definition session_snapshot :: "bcc_state \<Rightarrow> jdict" where
  "session_snapshot s =
     [(''enabled'', JBool True), (''probes'', JObj (map probe_status (bs_probes s))),
      (''dropped_events'', JInt (int (bs_dropped s))), (''last_event_at'', json_time_opt (bs_last_event s))]"

text \<open>\<open>status_snapshot\<close> of a collector with its session and the reason for which it degraded.\<close>

definition status_snapshot :: "bcc_state option \<Rightarrow> string option \<Rightarrow> jdict option" where
  "status_snapshot session degrade_reason =
     (case session of
        Some s \<Rightarrow> Some (session_snapshot s)
      | None \<Rightarrow>
          if str_or degrade_reason [] = [] then None
          else Some [(''enabled'', JBool False), (''reason'', json_opt degrade_reason), (''probes'', JObj []),
                     (''dropped_events'', JInt 0), (''last_event_at'', JNull)])"

text \<open>\<open>iter_records\<close> of the collector: an unavailable probe library at the start ends the stream
  quietly, later it is an error.\<close>

definition linux_iter_records ::
  "endpoint_lib \<Rightarrow> host \<Rightarrow> bcc_options \<Rightarrow> kernel \<Rightarrow> nat \<Rightarrow> bcc_state \<Rightarrow> exn option option \<times> bcc_state" where
  "linux_iter_records E H B K fuel s =
     (case check_bcc_available H of
        Some e \<Rightarrow> (Some (if e = bcc_unavailable then None else Some e), s)
      | None \<Rightarrow> (let (r, s) = iter_records E H B K fuel s in (map_option (map_option linux_unavailable) r, s)))"

text \<open>What the agent sees of it: an exception when it is built, or its stream.\<close>

definition linux_feed :: "endpoint_lib \<Rightarrow> host \<Rightarrow> bcc_options \<Rightarrow> kernel \<Rightarrow> nat \<Rightarrow> bcc_state \<Rightarrow> exn + feed list" where
  "linux_feed E H B K fuel s =
     (case check_available H of
        Some e \<Rightarrow> Inl e
      | None \<Rightarrow>
          (let (r, s) = linux_iter_records E H B K fuel s in
           Inr (bs_out s @ (case r of Some (Some e) \<Rightarrow> [Fault e] | _ \<Rightarrow> []))))"

section \<open>No event is lost unseen\<close>

definition psum :: "(probe \<Rightarrow> nat) \<Rightarrow> bcc_state \<Rightarrow> nat" where
  "psum g s = sum_list (map g (bs_probes s))"

lemma psum_update:
  assumes "i < length (bs_probes s)"
  shows "psum g (update_probe i f s) + g (bs_probes s ! i) = psum g s + g (f (bs_probes s ! i))"
proof -
  have "g (bs_probes s ! i) \<le> psum g s"
    using assms by (simp add: psum_def elem_le_sum_list [of i "map g (bs_probes s)", simplified])
  then show ?thesis using assms
    by (simp add: psum_def update_probe_def map_update sum_list_update)
qed

text \<open>The events of the raw ones that the handler of a probe accepts.\<close>

definition accepted :: "host \<Rightarrow> bcc_options \<Rightarrow> string \<Rightarrow> raw_event list \<Rightarrow> bcc_event list" where
  "accepted H B name raws = List.map_filter (handle_event H (bo_sensitive B) name) raws"

definition accepted_of :: "host \<Rightarrow> bcc_options \<Rightarrow> kernel \<Rightarrow> probe \<Rightarrow> nat" where
  "accepted_of H B K p =
     (\<Sum>n \<leftarrow> [0..<pb_polls p]. length (accepted H B (pb_name p) (fst (kn_poll K (pb_name p) n))))"

definition kept_of :: "probe \<Rightarrow> nat" where
  "kept_of p = pb_events p + length (pb_queue p)"

text \<open>The books of a session with \<open>m\<close> probes, \<open>n\<close> records that are drained and not yet yielded, and \<open>e\<close>
  that are yielded.\<close>

definition books :: "host \<Rightarrow> bcc_options \<Rightarrow> kernel \<Rightarrow> nat \<Rightarrow> nat \<Rightarrow> nat \<Rightarrow> bcc_state \<Rightarrow> bool" where
  "books H B K m n e s =
     (length (bs_probes s) = m
      \<and> psum kept_of s + bs_dropped s = psum (accepted_of H B K) s
      \<and> (bo_limit B = None \<longrightarrow> e + n = psum pb_events s)
      \<and> length (yielded (bs_out s)) = e \<and> (\<forall>k. bo_limit B = Some k \<longrightarrow> int e \<le> max 0 k)
      \<and> (\<forall>p \<in> set (bs_probes s). int (length (pb_queue p)) \<le> max 0 (bo_max_queue B)))"

lemma notify_fields [simp]:
  "bs_probes (notify_status B s) = bs_probes s" "bs_dropped (notify_status B s) = bs_dropped s"
  "length (yielded (bs_out (notify_status B s))) = length (yielded (bs_out s))"
  "psum g (notify_status B s) = psum g s"
  by (simp_all add: notify_status_def psum_def yielded_def)

lemma books_notify [simp]: "books H B K m n e (notify_status B' s) = books H B K m n e s"
  by (simp add: books_def)

lemma update_fields [simp]:
  "bs_dropped (update_probe i f s) = bs_dropped s" "bs_out (update_probe i f s) = bs_out s"
  "length (bs_probes (update_probe i f s)) = length (bs_probes s)"
  by (simp_all add: update_probe_def)

lemma probe_updated [simp]: "i < length (bs_probes s) \<Longrightarrow> bs_probes (update_probe i f s) ! i = f (bs_probes s ! i)"
  by (simp add: update_probe_def)

lemma set_update_probe:
  "p \<in> set (bs_probes (update_probe i f s)) \<Longrightarrow> p \<in> set (bs_probes s) \<or> i < length (bs_probes s) \<and> p = f (bs_probes s ! i)"
  by (cases "i < length (bs_probes s)") (auto simp: update_probe_def list_update_beyond dest: set_update_subset_insert [THEN subsetD])

lemma enqueue_step:
  assumes "i < length (bs_probes s)"
    and "\<forall>p \<in> set (bs_probes s). int (length (pb_queue p)) \<le> max 0 (bo_max_queue B)"
  shows "length (bs_probes (enqueue B i event s)) = length (bs_probes s)
    \<and> psum kept_of (enqueue B i event s) + bs_dropped (enqueue B i event s) = Suc (psum kept_of s + bs_dropped s)
    \<and> psum (accepted_of H B K) (enqueue B i event s) = psum (accepted_of H B K) s
    \<and> psum pb_events (enqueue B i event s) = psum pb_events s
    \<and> length (yielded (bs_out (enqueue B i event s))) = length (yielded (bs_out s))
    \<and> pb_name (bs_probes (enqueue B i event s) ! i) = pb_name (bs_probes s ! i)
    \<and> (\<forall>p \<in> set (bs_probes (enqueue B i event s)). int (length (pb_queue p)) \<le> max 0 (bo_max_queue B))"
proof (cases "bo_max_queue B \<le> int (length (pb_queue (bs_probes s ! i)))")
  case True
  then show ?thesis using assms by (simp add: enqueue_def psum_def)
next
  case False
  let ?f = "\<lambda>p. p\<lparr>pb_queue := pb_queue p @ [event]\<rparr>"
  have "enqueue B i event s = update_probe i ?f s" using False by (simp add: enqueue_def)
  moreover have "psum kept_of (update_probe i ?f s) = Suc (psum kept_of s)"
    "psum (accepted_of H B K) (update_probe i ?f s) = psum (accepted_of H B K) s"
    "psum pb_events (update_probe i ?f s) = psum pb_events s"
    using psum_update [OF assms(1), of kept_of ?f] psum_update [OF assms(1), of "accepted_of H B K" ?f]
      psum_update [OF assms(1), of pb_events ?f]
    by (simp_all add: kept_of_def accepted_of_def)
  ultimately show ?thesis using assms False by (auto dest!: set_update_probe)
qed

lemma deliver_step:
  assumes "i < length (bs_probes s)"
    and "\<forall>p \<in> set (bs_probes s). int (length (pb_queue p)) \<le> max 0 (bo_max_queue B)"
  shows "length (bs_probes (deliver H B i raws s)) = length (bs_probes s)
    \<and> psum kept_of (deliver H B i raws s) + bs_dropped (deliver H B i raws s)
        = psum kept_of s + bs_dropped s + length (accepted H B (pb_name (bs_probes s ! i)) raws)
    \<and> psum (accepted_of H B K) (deliver H B i raws s) = psum (accepted_of H B K) s
    \<and> psum pb_events (deliver H B i raws s) = psum pb_events s
    \<and> length (yielded (bs_out (deliver H B i raws s))) = length (yielded (bs_out s))
    \<and> (\<forall>p \<in> set (bs_probes (deliver H B i raws s)). int (length (pb_queue p)) \<le> max 0 (bo_max_queue B))"
  using assms
proof (induction raws arbitrary: s)
  case Nil
  then show ?case by (simp add: deliver_def accepted_def map_filter_simps)
next
  case (Cons raw raws)
  let ?h = "handle_event H (bo_sensitive B) (pb_name (bs_probes s ! i)) raw"
  define t where "t = (case ?h of None \<Rightarrow> s | Some event \<Rightarrow> enqueue B i event s)"
  have d: "deliver H B i (raw # raws) s = deliver H B i raws t" by (simp add: deliver_def t_def)
  show ?case
  proof (cases ?h)
    case None
    then show ?thesis using Cons.IH [of s] Cons.prems d
      by (simp add: t_def accepted_def map_filter_simps)
  next
    case (Some event)
    have t: "t = enqueue B i event s" using Some by (simp add: t_def)
    note e = enqueue_step [OF Cons.prems, of event H K]
    show ?thesis unfolding d t
      using Cons.IH [of "enqueue B i event s"] e Cons.prems(1) Some
      by (simp add: accepted_def map_filter_simps)
  qed
qed

lemma poll_probe_books:
  assumes "books H B K m n e s" "i < m" "poll_probe H B K i s = (ok, s')"
  shows "books H B K m n e s'"
proof -
  let ?p = "bs_probes s ! i" and ?f = "\<lambda>p. p\<lparr>pb_polls := Suc (pb_polls p)\<rparr>"
  let ?s1 = "update_probe i ?f s"
  obtain raws failed where k: "kn_poll K (pb_name ?p) (pb_polls ?p) = (raws, failed)" by (metis surj_pair)
  have i: "i < length (bs_probes s)" using assms(1,2) by (simp add: books_def)
  have q: "\<forall>p \<in> set (bs_probes ?s1). int (length (pb_queue p)) \<le> max 0 (bo_max_queue B)"
    using assms(1) i by (auto simp: books_def dest!: set_update_probe)
  have "psum (accepted_of H B K) ?s1 = psum (accepted_of H B K) s + length (accepted H B (pb_name ?p) raws)"
    "psum kept_of ?s1 = psum kept_of s" "psum pb_events ?s1 = psum pb_events s"
    using psum_update [OF i, of "accepted_of H B K" ?f] psum_update [OF i, of kept_of ?f] psum_update [OF i, of pb_events ?f]
    by (simp_all add: accepted_of_def kept_of_def k)
  then have b: "books H B K m n e (deliver H B i raws ?s1)"
    using deliver_step [of i ?s1 B H raws K] i q assms(1) by (simp add: books_def)
  have "books H B K m n e (update_probe i (probe_error x) t)" if "books H B K m n e t" for x t
  proof -
    have j: "i < length (bs_probes t)" using that assms(2) by (simp add: books_def)
    have "psum g (update_probe i (probe_error x) t) = psum g t" if "\<And>p. g (probe_error x p) = g p" for g
      using psum_update [OF j, of g "probe_error x"] that by simp
    then show ?thesis using that
      by (auto simp: books_def probe_error_def kept_of_def accepted_of_def dest!: set_update_probe)
  qed
  with b show ?thesis using assms(3) k
    by (auto simp: poll_probe_def Let_def split: option.splits)
qed

lemma event_to_record_frame:
  "event_to_record E H a b c ev w = (r, w') \<Longrightarrow> world.more w' = world.more w"
  by (auto simp: event_to_record_def stamped_fields_def new_ulid_def utc_now_def Let_def split: sum.splits bcc_event.splits if_splits)

lemma more_books:
  fixes s s' :: bcc_state
  shows "world.more s' = world.more s \<Longrightarrow>
    bs_probes s' = bs_probes s \<and> bs_dropped s' = bs_dropped s \<and> bs_out s' = bs_out s"
  by (cases s; cases s') simp

lemma drain_events_books:
  assumes "books H B K m n e s" "i < m" "pb_queue (bs_probes s ! i) = queue"
    and "drain_events E H B i queue s = (Inr rs, s')"
  shows "books H B K m (n + length rs) e s'"
  using assms
proof (induction queue arbitrary: n s rs)
  case (Cons ev queue)
  let ?f = "\<lambda>p. p\<lparr>pb_queue := queue\<rparr>" and ?g = "\<lambda>p. p\<lparr>pb_events := Suc (pb_events p)\<rparr>"
  let ?s1 = "update_probe i ?f s"
  obtain v s2 where ev: "event_to_record E H (bo_session B) (bo_host B) (pb_name (bs_probes ?s1 ! i)) ev ?s1 = (v, s2)"
    by (metis surj_pair)
  obtain r where v: "v = Inr r" using Cons.prems(4) ev by (cases v) (auto simp: Let_def)
  let ?s3 = "notify_status B ((update_probe i ?g s2)\<lparr>w_walls := Suc (w_walls (update_probe i ?g s2)),
      bs_last_event := Some (w_wall (update_probe i ?g s2) (w_walls (update_probe i ?g s2)))\<rparr>)"
  obtain rs' where rest: "drain_events E H B i queue ?s3 = (Inr rs', s')" "rs = r # rs'"
    using Cons.prems(4) ev v by (auto simp: Let_def utc_now_def split: prod.splits sum.splits)
  have i: "i < length (bs_probes s)" using Cons.prems(1,2) by (simp add: books_def)
  have same: "bs_probes s2 = bs_probes ?s1" "bs_dropped s2 = bs_dropped s" "bs_out s2 = bs_out s"
    using more_books [OF event_to_record_frame [OF ev]] by simp_all
  have j: "i < length (bs_probes s2)" using i by (simp add: same)
  have p: "psum g (update_probe i ?g s2) + g (bs_probes s ! i) = psum g s + g (?g (?f (bs_probes s ! i)))" for g
    using psum_update [OF i, of g ?f] psum_update [OF j, of g ?g] i by (simp add: psum_def same)
  have k: "psum kept_of (update_probe i ?g s2) = psum kept_of s"
    "psum (accepted_of H B K) (update_probe i ?g s2) = psum (accepted_of H B K) s"
    "psum pb_events (update_probe i ?g s2) = Suc (psum pb_events s)"
    using p [of kept_of] p [of "accepted_of H B K"] p [of pb_events] Cons.prems(3)
    by (simp_all add: kept_of_def accepted_of_def)
  have q: "int (length (pb_queue p)) \<le> max 0 (bo_max_queue B)" if "p \<in> set (bs_probes (update_probe i ?g s2))" for p
  proof -
    have old: "int (length (pb_queue x)) \<le> max 0 (bo_max_queue B)" if "x \<in> set (bs_probes s)" for x
      using that Cons.prems(1) by (simp add: books_def)
    have short: "int (length queue) \<le> max 0 (bo_max_queue B)" using old [of "bs_probes s ! i"] i Cons.prems(3) by simp
    have new: "int (length (pb_queue x)) \<le> max 0 (bo_max_queue B)" if "x \<in> set (bs_probes ?s1)" for x
      using that old short by (auto dest!: set_update_probe)
    show ?thesis using that new same(1) short i by (auto dest!: set_update_probe)
  qed
  have "books H B K m (Suc n) e ?s3"
    using Cons.prems(1) k q same by (auto simp: books_def psum_def)
  moreover have "pb_queue (bs_probes ?s3 ! i) = queue" using i j by (simp add: same)
  ultimately have "books H B K m (Suc n + length rs') e s'" using Cons.IH [OF _ Cons.prems(2) _ rest(1)] by blast
  then show ?case by (simp add: rest(2))
qed simp

lemma yield_books:
  assumes "books H B K m (n + length rs) e s" "yield_records B e rs s = (e', s')" "rs \<noteq> [] \<Longrightarrow> \<not> at_limit B e"
  shows "books H B K m n e' s'"
  using assms
proof (induction rs arbitrary: e s)
  case (Cons r rs)
  let ?s = "s\<lparr>bs_out := bs_out s @ [Record r]\<rparr>"
  have b: "books H B K m (n + length rs) (Suc e) ?s"
    using Cons.prems(1,3) by (auto simp: books_def psum_def yielded_def at_limit_def)
  show ?case
  proof (cases "at_limit B (Suc e)")
    case True
    then have "bo_limit B \<noteq> None" by (cases "bo_limit B") (auto simp: at_limit_def)
    with True b Cons.prems(2) show ?thesis by (auto simp: books_def)
  next
    case False
    with Cons.IH [OF b] Cons.prems(2) show ?thesis by simp
  qed
qed simp

lemma poll_probes_books:
  assumes "books H B K m 0 e s" "\<forall>i \<in> set is. i < m" "poll_probes E H B K is e polled s = (Inr (e', polled'), s')"
  shows "books H B K m 0 e' s'"
  using assms
proof (induction "is" arbitrary: e polled s)
  case (Cons i "is")
  let ?s = "s\<lparr>bs_stops := Suc (bs_stops s)\<rparr>"
  have b: "books H B K m 0 e ?s" using Cons.prems(1) by (simp add: books_def psum_def)
  show ?case
  proof (cases "kn_stop K (bs_stops s) \<or> at_limit B e")
    case True
    then show ?thesis using b Cons.prems(3) by (simp add: look_stop_def)
  next
    case False
    obtain ok s1 where s1: "poll_probe H B K i ?s = (ok, s1)" by (metis surj_pair)
    obtain v s2 where s2: "drain_probe E H B i s1 = (v, s2)" by (metis surj_pair)
    obtain rs where v: "v = Inr rs" using Cons.prems(3) False s1 s2 by (cases v) (auto simp: look_stop_def Let_def)
    obtain e2 s3 where s3: "yield_records B e rs s2 = (e2, s3)" by (metis surj_pair)
    have rest: "poll_probes E H B K is e2 (polled \<or> ok) s3 = (Inr (e', polled'), s')"
      using Cons.prems(3) False s1 s2 v s3 by (simp add: look_stop_def Let_def)
    have b1: "books H B K m 0 e s1" using poll_probe_books [OF b _ s1] Cons.prems(2) by simp
    have b2: "books H B K m (0 + length rs) e s2"
      using drain_events_books [OF b1 _ refl s2 [unfolded drain_probe_def v]] Cons.prems(2) by simp
    have "books H B K m 0 e2 s3" using False by (intro yield_books [OF b2 s3]) simp
    with Cons.IH [OF _ _ rest] Cons.prems(2) show ?thesis by simp
  qed
qed simp

lemma session_loop_books:
  assumes "books H B K m 0 e s" "session_loop E H B K fuel e s = (r, s')" "\<forall>x. r \<noteq> Some (Some x)"
  shows "\<exists>e'. books H B K m 0 e' s'"
  using assms
proof (induction fuel arbitrary: e s)
  case (Suc fuel)
  let ?s = "s\<lparr>bs_stops := Suc (bs_stops s)\<rparr>"
  have b: "books H B K m 0 e ?s" using Suc.prems(1) by (simp add: books_def psum_def)
  show ?case
  proof (cases "kn_stop K (bs_stops s) \<or> at_limit B e")
    case True
    then show ?thesis using b Suc.prems(2) by (auto simp: look_stop_def)
  next
    case False
    obtain v s1 where s1: "poll_probes E H B K (active_probes ?s) e False ?s = (v, s1)" by (metis surj_pair)
    obtain e1 polled where v: "v = Inr (e1, polled)"
      using Suc.prems(2,3) False s1 by (cases v) (auto simp: look_stop_def Let_def)
    have "\<forall>i \<in> set (active_probes ?s). i < m" using b by (auto simp: active_probes_def books_def)
    then have b1: "books H B K m 0 e1 s1" using poll_probes_books [OF b _ s1 [unfolded v]] by blast
    show ?thesis
      using Suc.prems(2,3) False s1 v b1 Suc.IH [OF b1] by (auto simp: look_stop_def Let_def split: if_splits)
  qed
qed auto

lemma books_start:
  assumes "bs_probes s = map (attach_probe K) names" "bs_dropped s = 0" "yielded (bs_out s) = []"
  shows "books H B K (length names) 0 0 s"
proof -
  have p: "pb_events p = 0 \<and> pb_queue p = [] \<and> pb_polls p = 0" if "p \<in> set (bs_probes s)" for p
    using that assms(1) by (auto simp: attach_probe_def probe_error_def Let_def split: option.splits)
  then have "psum kept_of s = 0" "psum pb_events s = 0" "psum (accepted_of H B K) s = 0"
    by (auto simp: psum_def kept_of_def accepted_of_def)
  with p assms show ?thesis by (auto simp: books_def)
qed


section \<open>One record of every stream in turn\<close>

lemma transpose_live: "transpose xss = transpose (filter (\<lambda>x. x \<noteq> []) xss)"
proof (induction xss rule: transpose.induct)
  case (3 x xs xss)
  have "concat (map (\<lambda>l. case l of [] \<Rightarrow> [] | h # t \<Rightarrow> [h]) (filter (\<lambda>x. x \<noteq> []) xss))
      = concat (map (\<lambda>l. case l of [] \<Rightarrow> [] | h # t \<Rightarrow> [h]) xss)"
    "concat (map (\<lambda>l. case l of [] \<Rightarrow> [] | h # t \<Rightarrow> [t]) (filter (\<lambda>x. x \<noteq> []) xss))
      = concat (map (\<lambda>l. case l of [] \<Rightarrow> [] | h # t \<Rightarrow> [t]) xss)"
    by (induction xss) auto
  then show ?case by simp
qed simp_all

lemma transpose_step:
  assumes "\<forall>x \<in> set xss. x \<noteq> []" "xss \<noteq> []"
  shows "transpose xss = map hd xss # transpose (map tl xss)"
proof -
  obtain x xs yss where x: "xss = (x # xs) # yss" using assms by (metis list.exhaust list.set_intros(1))
  have "concat (map (\<lambda>l. case l of [] \<Rightarrow> [] | h # t \<Rightarrow> [h]) yss) = map hd yss"
    "concat (map (\<lambda>l. case l of [] \<Rightarrow> [] | h # t \<Rightarrow> [t]) yss) = map tl yss"
    if "\<forall>y \<in> set yss. y \<noteq> []"
    using that by (induction yss) (auto split: list.splits)
  then show ?thesis using assms(1) by (simp add: x)
qed

lemma count_list_hd:
  "(\<Sum>s \<leftarrow> filter (\<lambda>x. x \<noteq> []) ss. (if hd s = x then 1 else 0) + count_list (tl s) x) = (\<Sum>s \<leftarrow> ss. count_list s x)"
proof (induction ss)
  case (Cons s ss)
  then show ?case by (cases s) auto
qed simp

text \<open>The multiplexer takes the streams' records in the order of the columns of the table whose rows
  are the streams: the first record of each stream, then the second of each that has one, and so on;
  each record is yielded as often as the streams yield it.\<close>

theorem multiplex_is_fair:
  "multiplex ss = concat (transpose ss) \<and> count_list (multiplex ss) x = (\<Sum>s \<leftarrow> ss. count_list s x)"
proof (induction ss rule: multiplex.induct)
  case (2 s ss)
  define live where "live = filter (\<lambda>x. x \<noteq> []) (s # ss)"
  have m: "multiplex (s # ss) = map hd live @ multiplex (map tl live)" by (simp add: live_def Let_def)
  have ih: "multiplex (map tl live) = concat (transpose (map tl live))"
    "count_list (multiplex (map tl live)) x = (\<Sum>s \<leftarrow> map tl live. count_list s x)"
    using 2 [OF live_def] by (auto simp only:)
  have c: "count_list (map hd live) x = (\<Sum>s \<leftarrow> live. if hd s = x then 1 else 0)" by (induction live) auto
  have t: "transpose (s # ss) = transpose live" unfolding live_def by (rule transpose_live)
  have "concat (transpose (s # ss)) = map hd live @ concat (transpose (map tl live))"
  proof (cases "live = []")
    case True
    then show ?thesis by (simp add: t)
  next
    case False
    have "\<forall>x \<in> set live. x \<noteq> []" by (simp add: live_def)
    from transpose_step [OF this False] show ?thesis by (simp add: t)
  qed
  moreover have "count_list (map hd live) x + (\<Sum>s \<leftarrow> map tl live. count_list s x) = (\<Sum>s \<leftarrow> s # ss. count_list s x)"
    using count_list_hd [of x "s # ss"] unfolding c live_def [symmetric] by (simp add: sum_list_addf o_def)
  ultimately show ?case
    by (intro conjI) (simp_all only: m ih(1), simp only: ih(1) [symmetric] ih(2) count_list_append)
qed simp

section \<open>Addresses and ports\<close>

lemma address_bytes:
  fixes a b c d :: "8 word"
  defines "v \<equiv> (ucast a OR push_bit 8 (ucast b) OR push_bit 16 (ucast c) OR push_bit 24 (ucast d) :: 32 word)"
  shows "map (\<lambda>i. address_byte i v) [0, 1, 2, 3] = map unat [a, b, c, d]"
proof -
  have m: "(255 :: 32 word) = mask 8" by (simp add: mask_eq_exp_minus_1)
  have "drop_bit 0 v AND 255 = ucast a" "drop_bit 8 v AND 255 = ucast b" "drop_bit 16 v AND 255 = ucast c"
    "drop_bit 24 v AND 255 = ucast d"
    unfolding v_def m by (rule bit_word_eqI; auto simp: bit_simps dest: bit_imp_le_length)+
  moreover have "take_bit 32 (unat x) = unat x" for x :: "8 word"
  proof (rule take_bit_nat_eq_self)
    have "unat x < 2 ^ LENGTH(8)" by (rule unsigned_less)
    then show "unat x < 2 ^ 32" by simp
  qed
  ultimately show ?thesis by (simp add: address_byte_def unsigned_ucast_eq)
qed

lemma swap_swap: "ntohs (push_bit 8 p OR drop_bit 8 p) = p"
  unfolding ntohs_def by (rule bit_word_eqI) (auto simp: bit_simps)

text \<open>The handler of the network probe names the destination as it stands in the packet: the four bytes of
  the address in network order, of which the kernel's number is the little-endian reading, and the
  port whose bytes the kernel keeps swapped.\<close>

theorem connection_names_destination:
  "handle_event H sensitive ''network''
     \<lparr>raw_pid = p, raw_ppid = pp, raw_comm = comm, raw_text = t,
      raw_daddr = ucast (a :: 8 word) OR push_bit 8 (ucast (b :: 8 word)) OR push_bit 16 (ucast (c :: 8 word))
        OR push_bit 24 (ucast (d :: 8 word)),
      raw_dport = push_bit 8 port OR drop_bit 8 port\<rparr>
   = Some (NetworkConnectEvent (unat p) (unat pp) (decode_bytes comm)
       (nat_str (unat a) @ ''.'' @ nat_str (unat b) @ ''.'' @ nat_str (unat c) @ ''.'' @ nat_str (unat d)) (unat port))"
  using address_bytes [of a b c d]
  by (simp add: handle_event_def ipv4_from_kernel_value_def swap_swap Let_def)

section \<open>Which files are sensitive\<close>

definition components :: "string \<Rightarrow> string list" where
  "components path = norm_comps True [] (split_at (CHR ''/'') path)"

lemma split_at_acc_append: "split_at_acc c w (xs @ c # ys) = split_at_acc c w xs @ split_at_acc c [] ys"
  by (induction xs arbitrary: w) auto

lemma split_at_acc_none: "c \<notin> set xs \<Longrightarrow> split_at_acc c w xs = [rev w @ xs]"
  by (induction xs arbitrary: w) auto

lemma split_at_join:
  "ds \<noteq> [] \<Longrightarrow> \<forall>d \<in> set ds. c \<notin> set d \<Longrightarrow> split_at c (join [c] ds) = ds"
proof (induction ds)
  case (Cons d ds)
  then show ?case
    by (cases ds) (simp_all add: split_at_def split_at_acc_none join_Cons split_at_acc_append)
qed simp

lemma set_split_at: "x \<in> set (split_at c s) \<Longrightarrow> c \<notin> set x"
proof -
  have "x \<in> set (split_at_acc c w s) \<Longrightarrow> c \<notin> set w \<Longrightarrow> c \<notin> set x" for w
    by (induction s arbitrary: w) (fastforce split: if_splits)+
  then show "x \<in> set (split_at c s) \<Longrightarrow> c \<notin> set x" by (simp add: split_at_def)
qed

lemma in_set_tl: "x \<in> set (tl xs) \<Longrightarrow> x \<in> set xs"
  by (cases xs) auto

lemma set_norm_comps: "set (norm_comps rooted acc cs) \<subseteq> set acc \<union> set cs"
  by (induction rooted acc cs rule: norm_comps.induct) (auto dest!: subsetD in_set_tl split: if_splits)

lemma norm_comps_nonempty: "[] \<notin> set acc \<Longrightarrow> [] \<notin> set (norm_comps rooted acc cs)"
  by (induction rooted acc cs rule: norm_comps.induct) (auto dest: in_set_tl)

lemma components_slashfree: "\<forall>c \<in> set (components path). CHR ''/'' \<notin> set c"
  unfolding components_def using set_norm_comps set_split_at by fastforce

lemma join_prefix:
  assumes "cs \<noteq> []" "\<forall>c \<in> set cs \<union> set ds. CHR ''/'' \<notin> set c"
  shows "join ''/'' ds = join ''/'' cs \<and> ds \<noteq> [] \<or> prefix (join ''/'' cs @ ''/'') (join ''/'' ds) \<longleftrightarrow> prefix cs ds"
proof
  have split: "split_at (CHR ''/'') (join ''/'' cs) = cs"
    "ds \<noteq> [] \<Longrightarrow> split_at (CHR ''/'') (join ''/'' ds) = ds"
    using split_at_join [of cs "CHR ''/''"] split_at_join [of ds "CHR ''/''"] assms by blast+
  assume "join ''/'' ds = join ''/'' cs \<and> ds \<noteq> [] \<or> prefix (join ''/'' cs @ ''/'') (join ''/'' ds)"
  then consider "join ''/'' ds = join ''/'' cs" "ds \<noteq> []" | r where "join ''/'' ds = join ''/'' cs @ CHR ''/'' # r"
    by (auto simp: prefix_def)
  then show "prefix cs ds"
  proof cases
    case 1
    then have "ds = cs" using split by metis
    then show ?thesis by simp
  next
    case 2
    then have "ds \<noteq> []" by auto
    then have "ds = split_at (CHR ''/'') (join ''/'' cs @ CHR ''/'' # r)"
      using split(2) 2 by metis
    also have "\<dots> = cs @ split_at (CHR ''/'') r"
      using split(1) by (simp add: split_at_def split_at_acc_append)
    finally show ?thesis by simp
  qed
next
  have j: "join ''/'' (cs @ es) = join ''/'' cs @ ''/'' @ join ''/'' es" if "es \<noteq> []" for es
    using assms(1) that by (induction cs rule: list_nonempty_induct) (simp_all add: join_Cons)
  assume "prefix cs ds"
  then obtain es where "ds = cs @ es" by (auto simp: prefix_def)
  then show "join ''/'' ds = join ''/'' cs \<and> ds \<noteq> [] \<or> prefix (join ''/'' cs @ ''/'') (join ''/'' ds)"
    using j [of es] assms(1) by (cases "es = []") auto
qed

definition absolute :: "string \<Rightarrow> bool" where
  "absolute path = (prefix ''/'' path \<and> (prefix ''//'' path \<longrightarrow> prefix ''///'' path))"

lemma normpath_absolute: "absolute path \<Longrightarrow> normpath (expanduser home path) = ''/'' @ join ''/'' (components path)"
  by (cases path) (auto simp: absolute_def normpath_def expanduser_def initial_slashes_def components_def Let_def)

text \<open>A listed directory covers itself and what is below it, and nothing else: for absolute paths the test
  on the texts says exactly that the components of a listed path are the first components of the path
  that was opened, however either is written. The root alone is no such directory.\<close>

theorem absolute_prefix_covers_subtree:
  assumes "absolute path" "\<forall>p \<in> set listed. absolute p \<and> components p \<noteq> []"
  shows "path_matches_sensitive_prefix home path listed
    \<longleftrightarrow> (\<exists>p \<in> set listed. prefix (components p) (components path))"
proof -
  have "matches_prefix (normpath (expanduser home path)) (normpath (expanduser home p))
      \<longleftrightarrow> prefix (components p) (components path)" if "p \<in> set listed" for p
  proof -
    let ?cs = "components p" and ?ds = "components path"
    have cs: "?cs \<noteq> []" "absolute p" using that assms(2) by simp_all
    have j: "join ''/'' ?cs \<noteq> []"
    proof
      assume "join ''/'' ?cs = []"
      then have "?cs = split_at (CHR ''/'') []"
        using split_at_join [OF cs(1) components_slashfree] by metis
      then have "[] \<in> set ?cs" by (simp add: split_at_def)
      then show False using norm_comps_nonempty [of "[]"] by (simp add: components_def)
    qed
    have "matches_prefix (''/'' @ join ''/'' ?ds) (''/'' @ join ''/'' ?cs)
        \<longleftrightarrow> join ''/'' ?ds = join ''/'' ?cs \<and> ?ds \<noteq> [] \<or> prefix (join ''/'' ?cs @ ''/'') (join ''/'' ?ds)"
      using j by (auto simp: matches_prefix_def)
    with join_prefix [OF cs(1), of ?ds] components_slashfree show ?thesis
      by (simp only: normpath_absolute [OF assms(1)] normpath_absolute [OF cs(2)]) blast
  qed
  then show ?thesis by (auto simp: path_matches_sensitive_prefix_def list_ex_iff)
qed

theorem absolute_prefix_covers_subtree_witness:
  "path_matches_sensitive_prefix (\<lambda>_. None) ''/root/./.ssh//id_rsa'' [''/etc/shadow'', ''/root/.ssh'']
   \<and> \<not> path_matches_sensitive_prefix (\<lambda>_. None) ''/root/.ssh2/x'' [''/etc/shadow'', ''/root/.ssh'']"
proof -
  have "absolute ''/root/./.ssh//id_rsa''" "absolute ''/root/.ssh2/x''"
    "\<forall>p \<in> set [''/etc/shadow'', ''/root/.ssh'']. absolute p \<and> components p \<noteq> []"
    by code_simp+
  moreover have "prefix (components ''/root/.ssh'') (components ''/root/./.ssh//id_rsa'')"
    "\<forall>p \<in> set [''/etc/shadow'', ''/root/.ssh'']. \<not> prefix (components p) (components ''/root/.ssh2/x'')"
    by code_simp+
  ultimately show ?thesis
    using absolute_prefix_covers_subtree [of "''/root/./.ssh//id_rsa''" "[''/etc/shadow'', ''/root/.ssh'']" "\<lambda>_. None"]
      absolute_prefix_covers_subtree [of "''/root/.ssh2/x''" "[''/etc/shadow'', ''/root/.ssh'']" "\<lambda>_. None"]
    by fastforce
qed

text \<open>What the default prefixes match and do not match.\<close>

lemma default_prefixes:
  "path_matches_sensitive_prefix (\<lambda>_. None) ''/usr/bin/env'' DEFAULT_SENSITIVE_PATH_PREFIXES"
  "\<not> path_matches_sensitive_prefix (\<lambda>_. None) ''/home/alice/.ssh/id_rsa'' DEFAULT_SENSITIVE_PATH_PREFIXES"
  by code_simp+

section \<open>A session without room\<close>

definition host0 :: host where
  "host0 = \<lparr>ho_system = ''Linux'', ho_node = ''n'', ho_enable = Some ''1'', ho_legacy = None, ho_euid = 0,
     ho_self_status = None, ho_bcc = True, ho_home = \<lambda>_. None, ho_status = \<lambda>_. None, ho_cwd = \<lambda>_. None,
     ho_stat = \<lambda>_. None, ho_boot = None, ho_user = \<lambda>_. None, ho_ticks = 100\<rparr>"

definition bcc_options0 :: bcc_options where
  "bcc_options0 = \<lparr>bo_session = ''s'', bo_host = None, bo_limit = None, bo_sensitive = [''.env''],
     bo_max_queue = 0, bo_notify = True\<rparr>"

definition raw0 :: raw_event where
  "raw0 = \<lparr>raw_pid = 0, raw_ppid = 0, raw_comm = [108, 115, 0], raw_text = [47, 108, 115], raw_daddr = 0, raw_dport = 0\<rparr>"

definition kernel0 :: kernel where
  "kernel0 = \<lparr>kn_attach = (\<lambda>p. if p = ''file'' then Some ''no probe'' else None),
     kn_poll = (\<lambda>p n. if p = ''exec'' then ([raw0, raw0], None) else ([], Some ''lost'')), kn_stop = \<lambda>_. False\<rparr>"

definition session0 :: bcc_state where
  "session0 = world.extend ((world.truncate tail0)\<lparr>w_wall := \<lambda>_. 0\<rparr>)
     \<lparr>bs_probes = map (attach_probe kernel0) [''exec'', ''file'', ''network''], bs_attached = True, bs_dropped = 0,
      bs_last_event = None, bs_stops = 0, bs_out = []\<rparr>"


end
