(* ===== verification/PyUrl.thy ===== *)
theory PyUrl
  imports Framing EbpfCollector
begin

text \<open>
  What the program uses of \<open>urllib.parse\<close>: \<open>urlsplit\<close>, \<open>urlparse\<close>, \<open>unquote\<close> and \<open>parse_qs\<close>. Whether the
  library accepts what stands between square brackets in an authority is a parameter.
\<close>

section \<open>Splitting a URL\<close>

record url =
  ur_scheme :: string
  ur_netloc :: string
  ur_path :: string
  ur_query :: string
  ur_fragment :: string

definition ascii_letter :: "char \<Rightarrow> bool" where
  "ascii_letter c = (let n = ord c in 65 \<le> n \<and> n \<le> 90 \<or> 97 \<le> n \<and> n \<le> 122)"

definition scheme_char :: "char \<Rightarrow> bool" where
  "scheme_char c = (ascii_letter c \<or> dec_digit c \<or> c \<in> {CHR ''+'', CHR ''-'', CHR ''.''})"

definition split_scheme :: "string \<Rightarrow> string \<times> string" where
  "split_scheme s =
     (case partition_at (CHR '':'') s of
        (scheme, found, rest) \<Rightarrow>
          if found \<and> scheme \<noteq> [] \<and> ascii_letter (hd scheme) \<and> list_all scheme_char scheme
          then (lower scheme, rest) else ([], s))"

definition ends_authority :: "char \<Rightarrow> bool" where
  "ends_authority c = (c \<in> {CHR ''/'', CHR ''?'', CHR ''#''})"

definition split_authority :: "string \<Rightarrow> string \<times> string" where
  "split_authority s =
     (if take 2 s = ''//''
      then (takeWhile (\<lambda>c. \<not> ends_authority c) (drop 2 s), dropWhile (\<lambda>c. \<not> ends_authority c) (drop 2 s))
      else ([], s))"

text \<open>The brackets of an address in the authority must come in pairs and hold what the library accepts.\<close>

definition good_authority :: "(string \<Rightarrow> bool) \<Rightarrow> string \<Rightarrow> bool" where
  "good_authority bracketed netloc =
     (let l = CHR ''['' \<in> set netloc; r = CHR '']'' \<in> set netloc in l = r \<and> (l \<longrightarrow> bracketed netloc))"

definition urlsplit :: "(string \<Rightarrow> bool) \<Rightarrow> string \<Rightarrow> exn + url" where
  "urlsplit bracketed s =
     (let s = filter (\<lambda>c. ord c \<notin> {9, 10, 13}) (dropWhile (\<lambda>c. ord c \<le> 32) s);
          (scheme, s) = split_scheme s;
          (netloc, s) = split_authority s;
          (s, _, fragment) = partition_at (CHR ''#'') s;
          (s, _, query) = partition_at (CHR ''?'') s in
      if good_authority bracketed netloc
      then Inr \<lparr>ur_scheme = scheme, ur_netloc = netloc, ur_path = s, ur_query = query, ur_fragment = fragment\<rparr>
      else Inl (PyError ''ValueError''))"

definition USES_PARAMS :: "string list" where
  "USES_PARAMS =
     ['''', ''ftp'', ''hdl'', ''prospero'', ''http'', ''https'', ''shttp'', ''rtsp'', ''rtsps'', ''sip'', ''sips'',
      ''mms'', ''sftp'', ''tel'']"

text \<open>The parameters of the last segment of the path.\<close>

definition drop_params :: "string \<Rightarrow> string" where
  "drop_params path =
     (let segment = rev (takeWhile (\<lambda>c. c \<noteq> CHR ''/'') (rev path)) in
      take (length path - length segment) path @ takeWhile (\<lambda>c. c \<noteq> CHR '';'') segment)"

text \<open>\<open>urlparse\<close>, without the parameters it cuts from the path.\<close>

definition urlparse :: "(string \<Rightarrow> bool) \<Rightarrow> string \<Rightarrow> exn + url" where
  "urlparse bracketed s =
     map_sum id (\<lambda>u. if ur_scheme u \<in> set USES_PARAMS then u\<lparr>ur_path := drop_params (ur_path u)\<rparr> else u)
       (urlsplit bracketed s)"

section \<open>Percent escapes\<close>

fun unquote_bytes :: "string \<Rightarrow> nat list" where
  "unquote_bytes [] = []"
| "unquote_bytes (c # cs) =
     (case cs of
        a # b # rest \<Rightarrow>
          if c = CHR ''%'' \<and> hex_value a \<noteq> None \<and> hex_value b \<noteq> None
          then (16 * the (hex_value a) + the (hex_value b)) # unquote_bytes rest
          else ord c # unquote_bytes cs
      | _ \<Rightarrow> ord c # unquote_bytes cs)"

text \<open>Runs of ASCII characters are decoded together; other characters stay.\<close>

function unquote_runs :: "string \<Rightarrow> string" where
  "unquote_runs s =
     (if s = [] then []
      else if ord (hd s) < 128
      then utf8_replace (unquote_bytes (takeWhile (\<lambda>c. ord c < 128) s)) @ unquote_runs (dropWhile (\<lambda>c. ord c < 128) s)
      else hd s # unquote_runs (tl s))"
  by pat_completeness auto
termination
proof (relation "measure length", goal_cases)
  case (2 s)
  then show ?case by (cases s) (auto simp: le_imp_less_Suc length_dropWhile_le)
qed (auto simp: neq_Nil_conv)

declare unquote_runs.simps [simp del]

definition unquote :: "string \<Rightarrow> string" where
  "unquote s = (if CHR ''%'' \<in> set s then unquote_runs s else s)"

section \<open>Query strings\<close>

text \<open>\<open>parse_qs\<close>: fields without a value are left out, the values of a name are collected.\<close>

definition query_field :: "string \<Rightarrow> (string \<times> string) option" where
  "query_field field =
     (case partition_at (CHR ''='') field of
        (name, _, v) \<Rightarrow>
          if v = [] then None
          else Some (unquote (replace_char (CHR ''+'') (CHR '' '') name), unquote (replace_char (CHR ''+'') (CHR '' '') v)))"

definition parse_qs :: "string \<Rightarrow> (string \<times> string list) list" where
  "parse_qs query =
     fold (\<lambda>(name, v) d. dset name ((case map_of d name of None \<Rightarrow> [] | Some vs \<Rightarrow> vs) @ [v]) d)
       (List.map_filter query_field (split_at (CHR ''&'') query)) []"

section \<open>Escaping and reading back\<close>

lemma unquote_plain: "CHR ''%'' \<notin> set s \<Longrightarrow> unquote s = s"
  by (simp add: unquote_def)

lemma takeWhile_no: "c \<notin> set s \<Longrightarrow> takeWhile (\<lambda>x. x \<noteq> c) s = s \<and> dropWhile (\<lambda>x. x \<noteq> c) s = []"
  by (induction s) auto

lemma partition_at_none: "c \<notin> set s \<Longrightarrow> partition_at c s = (s, False, [])"
  by (simp add: partition_at_def takeWhile_no)

text \<open>The path of a request that stands alone: no scheme, authority, query, fragment or parameters.\<close>

definition plain_path :: "string \<Rightarrow> bool" where
  "plain_path s =
     (s \<noteq> [] \<and> hd s = CHR ''/'' \<and> take 2 s \<noteq> ''//''
      \<and> list_all (\<lambda>c. 32 < ord c \<and> c \<notin> {CHR ''?'', CHR ''#'', CHR '';'', CHR ''%''}) s)"

lemma split_scheme_path: "s \<noteq> [] \<Longrightarrow> hd s = CHR ''/'' \<Longrightarrow> split_scheme s = ([], s)"
  by (cases s) (auto simp: split_scheme_def partition_at_def ascii_letter_def ord_def)

lemma drop_params_none: "CHR '';'' \<notin> set s \<Longrightarrow> drop_params s = s"
proof -
  assume a: "CHR '';'' \<notin> set s"
  define g where "g = rev (takeWhile (\<lambda>c. c \<noteq> CHR ''/'') (rev s))"
  define h where "h = rev (dropWhile (\<lambda>c. c \<noteq> CHR ''/'') (rev s))"
  have s: "s = h @ g"
    unfolding g_def h_def by (metis rev_append rev_rev_ident takeWhile_dropWhile_id)
  have "takeWhile (\<lambda>c. c \<noteq> CHR '';'') g = g" using a takeWhile_no [of "CHR '';''" g] by (simp add: s)
  then have "take (length s - length g) s @ takeWhile (\<lambda>c. c \<noteq> CHR '';'') g = s" by (simp add: s)
  then show ?thesis by (simp only: drop_params_def Let_def g_def)
qed

lemma urlparse_plain:
  assumes "plain_path s"
  shows "urlparse bracketed s =
    Inr \<lparr>ur_scheme = [], ur_netloc = [], ur_path = s, ur_query = [], ur_fragment = []\<rparr>"
proof -
  have c: "\<And>c. c \<in> set s \<Longrightarrow> 32 < ord c \<and> c \<notin> {CHR ''?'', CHR ''#'', CHR '';'', CHR ''%''}" and s: "s \<noteq> []" "hd s = CHR ''/''"
      "take 2 s \<noteq> ''//''"
    using assms by (auto simp: plain_path_def list_all_iff)
  have 1: "dropWhile (\<lambda>c. ord c \<le> 32) s = s" using c [of "hd s"] s(1) by (cases s) auto
  have 2: "filter (\<lambda>c. ord c \<notin> {9, 10, 13}) s = s" using c by (intro filter_True) fastforce
  have 3: "CHR ''#'' \<notin> set s" "CHR ''?'' \<notin> set s" "CHR '';'' \<notin> set s" using c by blast+
  show ?thesis
    unfolding urlparse_def urlsplit_def 1 2 split_scheme_path [OF s(1,2)] Let_def prod.case split_authority_def if_not_P [OF s(3)]
      partition_at_none [OF 3(1)] partition_at_none [OF 3(2)]
    by (simp add: good_authority_def USES_PARAMS_def drop_params_none [OF 3(3)])
qed

end
