(* ===== verification/SequenceDetect.thy ===== *)
theory SequenceDetect
  imports Detection
begin

text \<open>
  The detectors that look at a whole sequence of events: \<open>injection_chain.py\<close>, \<open>exfiltration.py\<close> and
  \<open>code_injection.py\<close> of \<open>src/zeroadr/detection/\<close>. \<open>urlparse\<close> and \<open>ipaddress\<close> are the parameter
  \<open>net_lib\<close>: the host name in a text, which may raise, and whether a text is an address and then
  loopback or private. \<open>fixed1\<close> is what the format \<open>.1f\<close> prints for a number of microseconds as
  seconds. The contract \<open>sequence_detector\<close> is the same for the three.
\<close>

section \<open>Positions\<close>

text \<open>The two dictionaries of a detector; of events with the same id the last one wins.\<close>

definition event_positions :: "runtime_event list \<Rightarrow> (string \<times> nat) list" where
  "event_positions events = rev (zip (map ev_id events) [0..<length events])"

definition event_by_id :: "runtime_event list \<Rightarrow> (string \<times> runtime_event) list" where
  "event_by_id events = rev (map (\<lambda>e. (ev_id e, e)) events)"

text \<open>A loop that appends what its body finds.\<close>

fun each :: "('x \<Rightarrow> 'w \<Rightarrow> finding list \<times> 'w) \<Rightarrow> 'x list \<Rightarrow> 'w \<Rightarrow> finding list \<times> 'w" where
  "each body [] w = ([], w)"
| "each body (x # xs) w = (let (fs, w) = body x w; (gs, w) = each body xs w in (fs @ gs, w))"

definition single :: "finding \<times> 'w \<Rightarrow> finding list \<times> 'w" where
  "single p = ([fst p], snd p)"

section \<open>Injection followed by an action\<close>

definition INJECTION_RULE :: string where
  "INJECTION_RULE = ''prompt-injection-tool-result''"

definition ACTION_RULES :: "string set" where
  "ACTION_RULES = {''sensitive-file-access'', ''dangerous-shell-execution''}"

definition CHAIN_RULE :: string where
  "CHAIN_RULE = ''injection-to-action-chain''"

definition new_chain_finding ::
  "runtime_event \<Rightarrow> runtime_event \<Rightarrow> finding \<Rightarrow> 'a world_scheme \<Rightarrow> finding \<times> 'a world_scheme" where
  "new_chain_finding injection_event action_event action w =
     new_finding CHAIN_RULE ''Prompt injection led to risky action'' Critical (9 / 10)
       (ev_session injection_event) [ev_id injection_event, ev_id action_event]
       (fi_capability action) (fi_target action)
       (''Prompt injection in tool result was followed by risky action '' @ fi_rule action
        @ '' targeting '' @ fi_target action @ ''.'') w"

text \<open>The event of a finding and its position, if both are known.\<close>

definition locate :: "runtime_event list \<Rightarrow> finding \<Rightarrow> (runtime_event \<times> nat) option" where
  "locate events f =
     (case fi_events f of
        [] \<Rightarrow> None
      | i # _ \<Rightarrow>
          (case (map_of (event_by_id events) i, map_of (event_positions events) i) of
             (Some e, Some n) \<Rightarrow> Some (e, n)
           | _ \<Rightarrow> None))"

definition chain_action ::
  "runtime_event list \<Rightarrow> runtime_event \<Rightarrow> nat \<Rightarrow> finding \<Rightarrow> 'a world_scheme \<Rightarrow> finding list \<times> 'a world_scheme" where
  "chain_action events injection_event injection_position action w =
     (case locate events action of
        None \<Rightarrow> ([], w)
      | Some (action_event, action_position) \<Rightarrow>
          if ev_session action_event \<noteq> ev_session injection_event then ([], w)
          else if action_position \<le> injection_position then ([], w)
          else single (new_chain_finding injection_event action_event action w))"

definition detect_injection_chain ::
  "runtime_event list \<Rightarrow> finding list \<Rightarrow> 'a world_scheme \<Rightarrow> finding list \<times> 'a world_scheme" where
  "detect_injection_chain events findings w =
     each (\<lambda>injection w.
             case locate events injection of
               None \<Rightarrow> ([], w)
             | Some (injection_event, injection_position) \<Rightarrow>
                 each (chain_action events injection_event injection_position)
                   (filter (\<lambda>f. fi_rule f \<in> ACTION_RULES \<and> fi_events f \<noteq> []) findings) w)
       (filter (\<lambda>f. fi_rule f = INJECTION_RULE \<and> fi_events f \<noteq> []) findings) w"

section \<open>Sensitive data sent away\<close>

definition EXTERNAL_CAPABILITIES :: "string set" where
  "EXTERNAL_CAPABILITIES = {''network.connect'', ''network.http_post'', ''message.send'', ''email.send''}"

definition DESTINATION_KEYS :: "string list" where
  "DESTINATION_KEYS = [''url'', ''uri'', ''endpoint'', ''domain'', ''host'', ''webhook'', ''recipient'', ''to'']"

record net_lib =
  nl_hostname :: "string \<Rightarrow> exn + string option"
  nl_internal :: "string \<Rightarrow> bool option"

definition extract_destination :: "jdict option \<Rightarrow> string option" where
  "extract_destination arguments = extract_opt DESTINATION_KEYS arguments"

definition destination_host :: "net_lib \<Rightarrow> string \<Rightarrow> exn + string option" where
  "destination_host N destination =
     (case nl_hostname N destination of
        Inl e \<Rightarrow> Inl e
      | Inr h \<Rightarrow>
          if h \<noteq> None \<and> h \<noteq> Some [] then Inr h
          else if \<not> sublist ''://'' destination \<and> CHR ''/'' \<notin> set destination \<and> CHR ''@'' \<notin> set destination
          then Inr (Some destination)
          else Inr None)"

text \<open>\<open>text.strip("[]")\<close>.\<close>

definition strip_brackets :: "string \<Rightarrow> string" where
  "strip_brackets s =
     rstrip_if (\<lambda>c. c \<in> {CHR ''['', CHR '']''}) (dropWhile (\<lambda>c. c \<in> {CHR ''['', CHR '']''}) s)"

definition is_external_destination :: "net_lib \<Rightarrow> string \<Rightarrow> exn + bool" where
  "is_external_destination N destination =
     (case destination_host N destination of
        Inl e \<Rightarrow> Inl e
      | Inr host \<Rightarrow>
          if host = None \<or> host = Some [] then Inr (destination \<noteq> [] \<and> CHR ''@'' \<in> set destination)
          else
            (let lowered = strip_brackets (lower (the host)) in
             if lowered = ''localhost'' \<or> lowered = ''::1'' then Inr False
             else if suffix ''.local'' lowered then Inr False
             else case nl_internal N lowered of None \<Rightarrow> Inr True | Some b \<Rightarrow> Inr (\<not> b)))"

definition external_destination :: "net_lib \<Rightarrow> runtime_event \<Rightarrow> exn + bool" where
  "external_destination N event =
     (if case ev_capability event of None \<Rightarrow> False | Some c \<Rightarrow> c \<in> EXTERNAL_CAPABILITIES
      then case extract_destination (ev_arguments event) of
             None \<Rightarrow> Inr False
           | Some destination \<Rightarrow> is_external_destination N destination
      else Inr False)"

text \<open>The comprehension over the events; an exception ends it.\<close>

fun external_events :: "net_lib \<Rightarrow> runtime_event list \<Rightarrow> exn + runtime_event list" where
  "external_events N [] = Inr []"
| "external_events N (e # es) =
     (case external_destination N e of
        Inl x \<Rightarrow> Inl x
      | Inr b \<Rightarrow> (case external_events N es of Inl x \<Rightarrow> Inl x | Inr r \<Rightarrow> Inr (if b then e # r else r)))"

definition new_exfil_finding ::
  "runtime_event \<Rightarrow> runtime_event \<Rightarrow> finding \<Rightarrow> string \<Rightarrow> 'a world_scheme \<Rightarrow> finding \<times> 'a world_scheme" where
  "new_exfil_finding sensitive_event external_event sensitive destination w =
     new_finding ''external-data-exfiltration'' ''Sensitive data sent to external destination'' Critical (9 / 10)
       (ev_session sensitive_event) [ev_id sensitive_event, ev_id external_event]
       (str_or (ev_capability external_event) ''network.connect'') destination
       (''Sensitive access to '' @ fi_target sensitive @ '' was followed by ''
        @ (case ev_capability external_event of None \<Rightarrow> ''None'' | Some c \<Rightarrow> c)
        @ '' to external destination '' @ destination @ ''.'') w"

definition exfil_step ::
  "runtime_event list \<Rightarrow> finding \<Rightarrow> runtime_event \<Rightarrow> nat \<Rightarrow> runtime_event \<Rightarrow> 'a world_scheme \<Rightarrow>
   finding list \<times> 'a world_scheme" where
  "exfil_step events sensitive sensitive_event sensitive_position external_event w =
     (case map_of (event_positions events) (ev_id external_event) of
        None \<Rightarrow> ([], w)
      | Some external_position \<Rightarrow>
          if ev_session external_event \<noteq> ev_session sensitive_event then ([], w)
          else if external_position \<le> sensitive_position then ([], w)
          else case extract_destination (ev_arguments external_event) of
                 None \<Rightarrow> ([], w)
               | Some destination \<Rightarrow>
                   single (new_exfil_finding sensitive_event external_event sensitive destination w))"

definition detect_exfiltration ::
  "net_lib \<Rightarrow> runtime_event list \<Rightarrow> finding list \<Rightarrow> 'a world_scheme \<Rightarrow> (exn + finding list) \<times> 'a world_scheme" where
  "detect_exfiltration N events findings w =
     (case external_events N events of
        Inl e \<Rightarrow> (Inl e, w)
      | Inr external \<Rightarrow>
          (let (fs, w) =
             each (\<lambda>sensitive w.
                     case locate events sensitive of
                       None \<Rightarrow> ([], w)
                     | Some (sensitive_event, sensitive_position) \<Rightarrow>
                         each (exfil_step events sensitive sensitive_event sensitive_position) external w)
               (filter (\<lambda>f. fi_rule f = ''sensitive-file-access'' \<and> fi_events f \<noteq> []) findings) w
           in (Inr fs, w)))"

section \<open>Code that is written and run\<close>

definition CODE_WRITE_EXTENSIONS :: "string list" where
  "CODE_WRITE_EXTENSIONS = [''.py'', ''.js'', ''.sh'', ''.bash'', ''.rb'', ''.php'', ''.pl'', ''.ps1'']"

definition EXEC_CAPABILITIES :: "string set" where
  "EXEC_CAPABILITIES = {''shell.exec'', ''process.spawn'', ''code.eval''}"

definition extract_file_path :: "jdict option \<Rightarrow> string option" where
  "extract_file_path arguments =
     extract_opt [''path'', ''file'', ''filename'', ''filepath'', ''destination'', ''dst'', ''target''] arguments"

definition extract_exec_command :: "jdict option \<Rightarrow> string option" where
  "extract_exec_command arguments = extract_opt [''command'', ''cmd'', ''script'', ''code'', ''exec''] arguments"

definition is_code_file :: "jdict option \<Rightarrow> bool" where
  "is_code_file arguments =
     (case extract_file_path arguments of
        None \<Rightarrow> False
      | Some path \<Rightarrow> path \<noteq> [] \<and> (\<exists>ext \<in> set CODE_WRITE_EXTENSIONS. suffix ext path))"

definition DYNAMIC_EVAL_PATTERNS :: "string list" where
  "DYNAMIC_EVAL_PATTERNS =
     [''eval('', ''exec('', ''compile('', ''__import__'', ''subprocess.call('', ''subprocess.run('', ''os.system('',
      ''eval('', ''function('', ''new function'', ''settimeout('', ''setinterval('']"

definition contains_dynamic_eval :: "string \<Rightarrow> bool" where
  "contains_dynamic_eval command =
     (let lowered = lower command in
      (\<exists>p \<in> set DYNAMIC_EVAL_PATTERNS. sublist p lowered) \<or>
      ((sublist ''curl'' lowered \<or> sublist ''wget'' lowered) \<and> CHR ''|'' \<in> set lowered
       \<and> (sublist ''bash'' lowered \<or> sublist '' sh'' lowered)))"

definition new_code_injection_finding ::
  "(int \<Rightarrow> string) \<Rightarrow> runtime_event \<Rightarrow> runtime_event \<Rightarrow> string \<Rightarrow> int \<Rightarrow> 'a world_scheme \<Rightarrow> finding \<times> 'a world_scheme" where
  "new_code_injection_finding fixed1 write_event exec_event file_path time_gap w =
     new_finding ''code-injection'' ''Code write followed by execution''
       (if time_gap < 10000000 then Critical else High) (if time_gap < 5000000 then 9 / 10 else 8 / 10)
       (ev_session write_event) [ev_id write_event, ev_id exec_event]
       (str_or (ev_capability exec_event) ''shell.exec'') file_path
       (''Code file '' @ file_path @ '' was written and then immediately executed (executed '' @ fixed1 time_gap
        @ ''s after write). This pattern is commonly used in code injection attacks.'') w"

definition exec_step ::
  "(int \<Rightarrow> string) \<Rightarrow> runtime_event list \<Rightarrow> runtime_event \<Rightarrow> nat \<Rightarrow> string \<Rightarrow> runtime_event \<Rightarrow> 'a world_scheme \<Rightarrow>
   finding list \<times> 'a world_scheme" where
  "exec_step fixed1 events write_event write_position written_path exec_event w =
     (case map_of (event_positions events) (ev_id exec_event) of
        None \<Rightarrow> ([], w)
      | Some exec_position \<Rightarrow>
          if ev_session exec_event \<noteq> ev_session write_event then ([], w)
          else if exec_position \<le> write_position then ([], w)
          else case extract_exec_command (ev_arguments exec_event) of
                 None \<Rightarrow> ([], w)
               | Some command \<Rightarrow>
                   if command \<noteq> [] \<and> sublist written_path command
                   then single (new_code_injection_finding fixed1 write_event exec_event written_path
                          (ev_time exec_event - ev_time write_event) w)
                   else ([], w))"

definition write_step ::
  "(int \<Rightarrow> string) \<Rightarrow> runtime_event list \<Rightarrow> runtime_event \<Rightarrow> 'a world_scheme \<Rightarrow> finding list \<times> 'a world_scheme" where
  "write_step fixed1 events write_event w =
     (case (map_of (event_positions events) (ev_id write_event), extract_file_path (ev_arguments write_event)) of
        (Some write_position, Some written_path) \<Rightarrow>
          if written_path = [] then ([], w)
          else each (exec_step fixed1 events write_event write_position written_path)
                 (filter (\<lambda>e. case ev_capability e of None \<Rightarrow> False | Some c \<Rightarrow> c \<in> EXEC_CAPABILITIES) events) w
      | _ \<Rightarrow> ([], w))"

definition eval_step :: "runtime_event \<Rightarrow> 'a world_scheme \<Rightarrow> finding list \<times> 'a world_scheme" where
  "eval_step event w =
     (if case ev_capability event of None \<Rightarrow> False | Some c \<Rightarrow> c \<in> {''shell.exec'', ''code.eval''}
      then case extract_exec_command (ev_arguments event) of
             None \<Rightarrow> ([], w)
           | Some command \<Rightarrow>
               if command \<noteq> [] \<and> contains_dynamic_eval command
               then single (new_finding ''code-injection'' ''Dynamic code evaluation'' High (85 / 100)
                      (ev_session event) [ev_id event] (str_or (ev_capability event) []) command
                      (''Command uses dynamic code evaluation which can execute arbitrary code: '' @ command) w)
               else ([], w)
      else ([], w))"

definition detect_code_injection ::
  "(int \<Rightarrow> string) \<Rightarrow> runtime_event list \<Rightarrow> finding list \<Rightarrow> 'a world_scheme \<Rightarrow> finding list \<times> 'a world_scheme" where
  "detect_code_injection fixed1 events findings w =
     (let (chains, w) = each (write_step fixed1 events)
            (filter (\<lambda>e. ev_capability e = Some ''filesystem.write'' \<and> is_code_file (ev_arguments e)) events) w;
          (evals, w) = each eval_step events w
      in (chains @ evals, w))"


section \<open>The contract\<close>

text \<open>Like the detectors of single events, these take from the world nothing but one identifier for
  each finding.\<close>

locale sequence_detector =
  fixes det :: "runtime_event list \<Rightarrow> finding list \<Rightarrow> 'a world_scheme \<Rightarrow> finding list \<times> 'a world_scheme"
  assumes draws_ids: "det es fs w = stamp (fst (det es fs w')) w"
begin

lemma same_content: "map blank (fst (det es fs w)) = map blank (fst (det es fs w'))"
  by (metis draws_ids blank_stamp)

end

definition stamps :: "('a world_scheme \<Rightarrow> finding list \<times> 'a world_scheme) \<Rightarrow> bool" where
  "stamps f = (\<forall>w w'. f w = stamp (fst (f w')) w)"

lemma stamps_none: "stamps (\<lambda>w. ([], w))"
  by (simp add: stamps_def)

lemma stamps_single: "stamps (\<lambda>w. single (new_finding r t s c se ev ca ta ex w))"
  using stamp_one unfolding stamps_def single_def by (simp add: case_prod_beta)

lemma stamps_if: "stamps f \<Longrightarrow> stamps g \<Longrightarrow> stamps (\<lambda>w. if b then f w else g w)"
  by (cases b) simp_all

lemma stamps_each:
  fixes body :: "'x \<Rightarrow> 'a world_scheme \<Rightarrow> finding list \<times> 'a world_scheme"
  assumes "\<And>x. stamps (body x)"
  shows "stamps (each body xs)"
proof (induction xs)
  case (Cons x xs)
  show ?case
    unfolding stamps_def
  proof (intro allI)
    fix w w' :: "'a world_scheme"
    have "body x w = stamp (fst (body x w')) w" using assms by (simp add: stamps_def)
    moreover have "each body xs (snd (body x w)) = stamp (fst (each body xs (snd (body x w')))) (snd (body x w))"
      using Cons unfolding stamps_def by blast
    ultimately show "each body (x # xs) w = stamp (fst (each body (x # xs) w')) w"
      by (simp add: Let_def case_prod_beta stamp_append)
  qed
qed (simp add: stamps_def)

lemma stamps_option:
  assumes "\<And>y. x = Some y \<Longrightarrow> stamps (f y)"
  shows "stamps (\<lambda>w. case x of None \<Rightarrow> ([], w) | Some y \<Rightarrow> f y w)"
  using assms by (cases x) (auto simp: stamps_def)

lemma stamps_pair_option:
  assumes "\<And>y z. stamps (f y z)"
  shows "stamps (\<lambda>w. case x of None \<Rightarrow> ([], w) | Some (y, z) \<Rightarrow> f y z w)"
  using assms by (cases x) (auto simp: stamps_def)

lemmas stamps_intros = stamps_none stamps_single stamps_if stamps_option stamps_pair_option stamps_each

lemma stamps_chain_action: "stamps (chain_action events e n f)"
  unfolding chain_action_def new_chain_finding_def by (intro stamps_intros)

lemma stamps_exfil_step: "stamps (exfil_step events f e n x)"
  unfolding exfil_step_def new_exfil_finding_def by (intro stamps_intros)

lemma stamps_exec_step: "stamps (exec_step fixed1 events e n p x)"
  unfolding exec_step_def new_code_injection_finding_def by (intro stamps_intros)

lemma stamps_eval_step: "stamps (eval_step e)"
  unfolding eval_step_def by (intro stamps_intros)

lemma stamps_write_step: "stamps (write_step fixed1 events e)"
proof (cases "map_of (event_positions events) (ev_id e)")
  case (Some n)
  then show ?thesis
    unfolding write_step_def
    by (cases "extract_file_path (ev_arguments e)")
      (auto intro!: stamps_none stamps_if stamps_each stamps_exec_step)
next
  case None
  then show ?thesis
    unfolding write_step_def by (simp add: stamps_none)
qed

interpretation chain: sequence_detector detect_injection_chain
proof
  fix es :: "runtime_event list" and fs and w w' :: "'a world_scheme"
  have "stamps (detect_injection_chain es fs :: 'a world_scheme \<Rightarrow> _)"
    unfolding detect_injection_chain_def
    by (intro stamps_each stamps_option) (auto intro: stamps_each stamps_chain_action)
  then show "detect_injection_chain es fs w = stamp (fst (detect_injection_chain es fs w')) w"
    by (simp add: stamps_def)
qed

interpretation code: sequence_detector "detect_code_injection fixed1" for fixed1
proof
  fix es :: "runtime_event list" and fs and w w' :: "'a world_scheme"
  let ?ws = "filter (\<lambda>e. ev_capability e = Some ''filesystem.write'' \<and> is_code_file (ev_arguments e)) es"
  have "stamps (each (write_step fixed1 es) ?ws :: 'a world_scheme \<Rightarrow> _)" "stamps (each eval_step es :: 'a world_scheme \<Rightarrow> _)"
    by (intro stamps_each stamps_write_step stamps_eval_step)+
  then have "each (write_step fixed1 es) ?ws w = stamp (fst (each (write_step fixed1 es) ?ws w')) w"
    "each eval_step es (snd (each (write_step fixed1 es) ?ws w)) =
       stamp (fst (each eval_step es (snd (each (write_step fixed1 es) ?ws w')))) (snd (each (write_step fixed1 es) ?ws w))"
    unfolding stamps_def by blast+
  then show "detect_code_injection fixed1 es fs w = stamp (fst (detect_code_injection fixed1 es fs w')) w"
    by (simp add: detect_code_injection_def Let_def case_prod_beta stamp_append)
qed

text \<open>The detector of exfiltration on events whose destinations can be parsed; otherwise it raises.\<close>

definition exfiltration_findings ::
  "runtime_event list \<Rightarrow> runtime_event list \<Rightarrow> finding list \<Rightarrow> 'a world_scheme \<Rightarrow> finding list \<times> 'a world_scheme" where
  "exfiltration_findings external events findings w =
     each (\<lambda>sensitive w.
             case locate events sensitive of
               None \<Rightarrow> ([], w)
             | Some (sensitive_event, sensitive_position) \<Rightarrow>
                 each (exfil_step events sensitive sensitive_event sensitive_position) external w)
       (filter (\<lambda>f. fi_rule f = ''sensitive-file-access'' \<and> fi_events f \<noteq> []) findings) w"

lemma detect_exfiltration_eq:
  "detect_exfiltration N events findings w =
     (case external_events N events of
        Inl e \<Rightarrow> (Inl e, w)
      | Inr external \<Rightarrow> map_prod Inr id (exfiltration_findings external events findings w))"
  unfolding detect_exfiltration_def exfiltration_findings_def [symmetric]
  by (auto simp: case_prod_beta map_prod_def split: sum.splits)

interpretation exfiltration: sequence_detector "exfiltration_findings external" for external
proof
  fix es :: "runtime_event list" and fs and w w' :: "'a world_scheme"
  have "stamps (exfiltration_findings external es fs :: 'a world_scheme \<Rightarrow> _)"
    unfolding exfiltration_findings_def
    by (intro stamps_each stamps_option) (auto intro: stamps_each stamps_exfil_step)
  then show "exfiltration_findings external es fs w = stamp (fst (exfiltration_findings external es fs w')) w"
    by (simp add: stamps_def)
qed

section \<open>Which chains are found\<close>

lemma each_proj:
  assumes "\<And>x w. map p (fst (body x w)) = g x"
  shows "map p (fst (each body xs w)) = concat (map g xs)"
  by (induction xs arbitrary: w) (simp_all add: assms Let_def case_prod_beta)

lemma event_by_id_distinct:
  assumes "distinct (map ev_id es)"
  shows "map_of (event_by_id es) i = Some e \<longleftrightarrow> e \<in> set es \<and> ev_id e = i"
proof -
  have "distinct (map fst (event_by_id es))"
    using assms by (simp add: event_by_id_def comp_def flip: rev_map)
  then show ?thesis by (auto simp: map_of_eq_Some_iff event_by_id_def)
qed

lemma event_positions_distinct:
  assumes "distinct (map ev_id es)"
  shows "map_of (event_positions es) i = Some n \<longleftrightarrow> n < length es \<and> ev_id (es ! n) = i"
proof -
  have "distinct (map fst (event_positions es))"
    using assms by (simp add: event_positions_def flip: rev_map)
  then have "map_of (event_positions es) i = Some n \<longleftrightarrow> (i, n) \<in> set (zip (map ev_id es) [0..<length es])"
    by (simp add: map_of_eq_Some_iff event_positions_def)
  also have "\<dots> \<longleftrightarrow> n < length es \<and> ev_id (es ! n) = i"
    unfolding in_set_zip by (auto intro!: exI [of _ n])
  finally show ?thesis .
qed

lemma locate_distinct:
  assumes "distinct (map ev_id es)"
  shows "locate es f = Some (e, n) \<longleftrightarrow>
    (\<exists>is. fi_events f = ev_id e # is) \<and> n < length es \<and> es ! n = e"
proof (cases "fi_events f")
  case (Cons i rest)
  have inj: "e \<in> set es \<Longrightarrow> n < length es \<Longrightarrow> ev_id (es ! n) = ev_id e \<Longrightarrow> es ! n = e"
    using assms by (metis distinct_map inj_onD nth_mem)
  have "locate es f = Some (e, n) \<longleftrightarrow>
      map_of (event_by_id es) i = Some e \<and> map_of (event_positions es) i = Some n"
    by (simp add: locate_def Cons split: option.split)
  also have "\<dots> \<longleftrightarrow> i = ev_id e \<and> n < length es \<and> es ! n = e"
    unfolding event_by_id_distinct [OF assms] event_positions_distinct [OF assms] using inj by auto
  finally show ?thesis by (auto simp: Cons)
qed (simp add: locate_def)

lemma chain_events:
  "map fi_events (fst (detect_injection_chain es fs w)) =
     concat (map (\<lambda>f. case locate es f of None \<Rightarrow> [] | Some (e, n) \<Rightarrow>
       concat (map (\<lambda>a. case locate es a of None \<Rightarrow> [] | Some (e', m) \<Rightarrow>
           if ev_session e' = ev_session e \<and> n < m then [[ev_id e, ev_id e']] else [])
         (filter (\<lambda>f. fi_rule f \<in> ACTION_RULES \<and> fi_events f \<noteq> []) fs)))
       (filter (\<lambda>f. fi_rule f = INJECTION_RULE \<and> fi_events f \<noteq> []) fs))"
proof -
  have action: "map fi_events (fst (chain_action es e n a w)) =
      (case locate es a of None \<Rightarrow> [] | Some (e', m) \<Rightarrow>
        if ev_session e' = ev_session e \<and> n < m then [[ev_id e, ev_id e']] else [])" for e n a and w :: "'a world_scheme"
    by (auto simp: chain_action_def single_def new_chain_finding_def split: option.splits)
  show ?thesis
    unfolding detect_injection_chain_def
    by (rule each_proj) (auto simp: each_proj [OF action] split: option.split)
qed

text \<open>C20. In a session whose events have distinct ids, the chain detector reports the pair of two events
  exactly when the first has a prompt injection finding, the second a finding of a risky action,
  both belong to one session and the second comes later: no chain is missed, none is invented, and
  an action that precedes the injection is never blamed on it.\<close>

theorem injection_chain_exact:
  assumes "distinct (map ev_id es)"
  shows "[i, j] \<in> fi_events ` set (fst (detect_injection_chain es fs w)) \<longleftrightarrow>
    (\<exists>n m. n < m \<and> m < length es \<and> ev_id (es ! n) = i \<and> ev_id (es ! m) = j
       \<and> ev_session (es ! n) = ev_session (es ! m)
       \<and> (\<exists>f \<in> set fs. fi_rule f = INJECTION_RULE \<and> (\<exists>is. fi_events f = i # is))
       \<and> (\<exists>a \<in> set fs. fi_rule a \<in> ACTION_RULES \<and> (\<exists>is. fi_events a = j # is)))" (is "?l \<longleftrightarrow> ?r")
proof
  note at = locate_distinct [OF assms]
  assume ?l
  then have "[i, j] \<in> set (map fi_events (fst (detect_injection_chain es fs w)))" by simp
  then obtain f e n a e' m where "f \<in> set fs" "fi_rule f = INJECTION_RULE" "locate es f = Some (e, n)"
      "a \<in> set fs" "fi_rule a \<in> ACTION_RULES" "locate es a = Some (e', m)"
      "ev_session e' = ev_session e" "n < m" "i = ev_id e" "j = ev_id e'"
    unfolding chain_events by (auto split: option.splits if_splits dest!: sym [of "Some _"])
  then show ?r unfolding at by metis
next
  note at = locate_distinct [OF assms]
  assume ?r
  then obtain n m f a where p: "n < m" "m < length es" "ev_session (es ! n) = ev_session (es ! m)"
      "ev_id (es ! n) = i" "ev_id (es ! m) = j"
      and f: "f \<in> set fs" "fi_rule f = INJECTION_RULE" "fi_events f \<noteq> []" "locate es f = Some (es ! n, n)"
      and a: "a \<in> set fs" "fi_rule a \<in> ACTION_RULES" "fi_events a \<noteq> []" "locate es a = Some (es ! m, m)"
    unfolding at by fastforce
  have "[i, j] \<in> set (map fi_events (fst (detect_injection_chain es fs w)))"
    unfolding chain_events using p f a by (force intro!: bexI [of _ f] bexI [of _ a])
  then show ?l by (simp add: image_iff)
qed

theorem injection_chain_exact_witness:
  "[''e1'', ''e2''] \<in> fi_events ` set (fst (detect_injection_chain
      [read_key_event\<lparr>ev_id := ''e1''\<rparr>, read_key_event\<lparr>ev_id := ''e2''\<rparr>]
      [fst (new_finding INJECTION_RULE [] High 1 [] [''e1''] [] [] [] world0),
       fst (new_finding ''sensitive-file-access'' [] High 1 [] [''e2''] [] [] [] world0)] world0))
   \<and> [''e2'', ''e1''] \<notin> fi_events ` set (fst (detect_injection_chain
      [read_key_event\<lparr>ev_id := ''e1''\<rparr>, read_key_event\<lparr>ev_id := ''e2''\<rparr>]
      [fst (new_finding INJECTION_RULE [] High 1 [] [''e1''] [] [] [] world0),
       fst (new_finding ''sensitive-file-access'' [] High 1 [] [''e2''] [] [] [] world0)] world0))"
proof -
  let ?es = "[read_key_event\<lparr>ev_id := ''e1''\<rparr>, read_key_event\<lparr>ev_id := ''e2''\<rparr>]"
  have ids: "distinct (map ev_id ?es)" by simp
  show ?thesis
    unfolding injection_chain_exact [OF ids]
    by (rule conjI, rule exI [of _ 0], rule exI [of _ 1])
      (auto simp: ACTION_RULES_def INJECTION_RULE_def)
qed

end
