(* ===== verification/Replay.thy ===== *)
theory Replay
  imports SequenceDetect Policy Storage
begin

text \<open>
  \<open>src/zeroadr/replay/runner.py\<close>: a recorded trace is run again through the event detectors, the
  policy engine and the detectors of sequences. Every identifier and time that the run draws is
  replaced by one made from the trace, so that the result is a function of the trace and the
  policies. \<open>net_lib\<close> and \<open>fixed1\<close> are those of \<open>SequenceDetect\<close>.
\<close>

section \<open>Replaying the events\<close>

definition number_findings :: "runtime_event \<Rightarrow> finding list \<Rightarrow> finding list" where
  "number_findings event fs =
     map (\<lambda>(index, finding). finding\<lparr>fi_id := ''finding_'' @ ev_id event @ ''_'' @ nat_str index\<rparr>) (enumerate 0 fs)"

fun replay_events ::
  "policy_engine \<Rightarrow> runtime_event list \<Rightarrow> 'a world_scheme \<Rightarrow>
   (finding list \<times> policy_decision list) \<times> 'a world_scheme" where
  "replay_events E [] w = (([], []), w)"
| "replay_events E (event # events) w =
     (let (event_findings, w) = detect event w;
          event_findings = number_findings event event_findings;
          (decision, w) = evaluate E event event_findings w;
          decision = decision\<lparr>pd_id := ''decision_'' @ ev_id event, pd_created := ev_ingest event\<rparr>;
          ((findings, decisions), w) = replay_events E events w
      in ((event_findings @ findings, decision # decisions), w))"

section \<open>Replaying the sequence\<close>

text \<open>The findings of a sequence name one event or two; the identifier is made from these.\<close>

definition label_finding :: "string \<Rightarrow> finding \<Rightarrow> finding" where
  "label_finding kind finding =
     finding\<lparr>fi_id := ''finding_'' @ kind @ ''_'' @ fi_events finding ! 0 @ ''_'' @
       (if length (fi_events finding) > 1 then fi_events finding ! 1 else ''single'')\<rparr>"

fun finding_decision_time ::
  "string list \<Rightarrow> runtime_event list \<Rightarrow> 'a world_scheme \<Rightarrow> int \<times> 'a world_scheme" where
  "finding_decision_time [] events w =
     (case events of [] \<Rightarrow> utc_now w | event # _ \<Rightarrow> (ev_ingest event, w))"
| "finding_decision_time (event_id # event_ids) events w =
     (case map_of (event_by_id events) event_id of
        Some event \<Rightarrow> (ev_ingest event, w)
      | None \<Rightarrow> finding_decision_time event_ids events w)"

fun decide_findings ::
  "policy_engine \<Rightarrow> runtime_event list \<Rightarrow> finding list \<Rightarrow> 'a world_scheme \<Rightarrow>
   policy_decision list \<times> 'a world_scheme" where
  "decide_findings E events [] w = ([], w)"
| "decide_findings E events (finding # findings) w =
     (let (decision, w) = evaluate_finding E finding w;
          (created, w) = finding_decision_time (fi_events finding) events w;
          decision = decision\<lparr>pd_id := ''decision_finding_'' @ fi_id finding, pd_created := created\<rparr>;
          (decisions, w) = decide_findings E events findings w
      in (decision # decisions, w))"

definition replay_trace ::
  "net_lib \<Rightarrow> (int \<Rightarrow> string) \<Rightarrow> policy_engine option \<Rightarrow> runtime_event list option \<Rightarrow> 'a world_scheme \<Rightarrow>
   (exn + session_trace) \<times> 'a world_scheme" where
  "replay_trace N fixed1 policy_engine path w =
     (let events = read_events_jsonl path;
          E = (case policy_engine of None \<Rightarrow> empty_engine | Some E \<Rightarrow> E);
          ((findings, decisions), w) = replay_events E events w;
          (chain_findings, w) = detect_injection_chain events findings w;
          chain_findings = map (label_finding ''chain'') chain_findings;
          findings = findings @ chain_findings
      in case detect_exfiltration N events findings w of
           (Inl e, w) \<Rightarrow> (Inl e, w)
         | (Inr exfil_findings, w) \<Rightarrow>
             (let exfil_findings = map (label_finding ''exfil'') exfil_findings;
                  findings = findings @ exfil_findings;
                  (code_injection_findings, w) = detect_code_injection fixed1 events findings w;
                  code_injection_findings = map (label_finding ''code_inj'') code_injection_findings;
                  findings = findings @ code_injection_findings;
                  (more_decisions, w) =
                    decide_findings E events (chain_findings @ exfil_findings @ code_injection_findings) w
              in (Inr \<lparr>st_session = (case events of [] \<Rightarrow> ''empty'' | event # _ \<Rightarrow> ev_session event),
                       st_events = events, st_findings = findings,
                       st_decisions = decisions @ more_decisions\<rparr>, w)))"

section \<open>Replays agree\<close>

text \<open>What a later relabelling overwrites cannot tell two runs apart.\<close>

lemma number_blank [simp]: "number_findings e (map blank fs) = number_findings e fs"
  by (rule nth_equalityI) (simp_all add: number_findings_def nth_enumerate_eq blank_def)

lemma label_blank [simp]: "map (label_finding k) (map blank fs) = map (label_finding k) fs"
  by (simp add: label_finding_def blank_def)

lemma number_same: "map blank fs = map blank gs \<Longrightarrow> number_findings e fs = number_findings e gs"
  by (drule arg_cong [where f = "number_findings e"]) simp

lemma label_same: "map blank fs = map blank gs \<Longrightarrow> map (label_finding k) fs = map (label_finding k) gs"
  by (drule arg_cong [where f = "map (label_finding k)"]) (simp only: label_blank)

lemma evaluate_stable:
  "(fst (evaluate E e fs w))\<lparr>pd_id := i, pd_created := t\<rparr> = (fst (evaluate E e fs w'))\<lparr>pd_id := i, pd_created := t\<rparr>"
  unfolding evaluate_def evaluate_policies_deciding
  by (simp add: new_policy_decision_def Let_def case_prod_beta split: option.split)

lemma evaluate_finding_stable:
  "(fst (evaluate_finding E f w))\<lparr>pd_id := i, pd_created := t\<rparr> =
   (fst (evaluate_finding E f w'))\<lparr>pd_id := i, pd_created := t\<rparr>"
proof -
  have "(fst (evaluate_finding_in ps f w))\<lparr>pd_id := i, pd_created := t\<rparr> =
        (fst (evaluate_finding_in ps f w'))\<lparr>pd_id := i, pd_created := t\<rparr>" for ps
    by (induction ps) (simp_all add: new_policy_decision_def Let_def case_prod_beta)
  then show ?thesis by (simp add: evaluate_finding_def)
qed

lemma number_detect:
  fixes w w' :: "'a world_scheme"
  shows "number_findings e (fst (detect e w)) = number_findings e (fst (detect e w'))"
  by (rule number_same [OF engine.content_independent])

lemma replay_events_stable:
  fixes w w' :: "'a world_scheme"
  shows "fst (replay_events E es w) = fst (replay_events E es w')"
proof (induction es arbitrary: w w')
  case (Cons e es)
  let ?fs = "\<lambda>w. number_findings e (fst (detect e w))"
  let ?w = "\<lambda>w. snd (evaluate E e (?fs w) (snd (detect e w)))"
  have "?fs w = ?fs w'" by (rule number_detect)
  moreover have "fst (replay_events E es (?w w)) = fst (replay_events E es (?w w'))" by (rule Cons.IH)
  ultimately show ?case
    using evaluate_stable [where E = E and e = e and fs = "?fs w" and w = "snd (detect e w)" and w' = "snd (detect e w')"]
    by (simp add: Let_def case_prod_beta)
qed simp

lemma decision_time_stable:
  "es \<noteq> [] \<Longrightarrow> fst (finding_decision_time ids es w) = fst (finding_decision_time ids es w')"
  by (induction ids) (auto split: option.split list.split)

lemma decide_findings_stable:
  fixes w w' :: "'a world_scheme"
  shows "es \<noteq> [] \<Longrightarrow> fst (decide_findings E es fs w) = fst (decide_findings E es fs w')"
proof (induction fs arbitrary: w w')
  case (Cons f fs)
  let ?w = "\<lambda>w. snd (evaluate_finding E f w)"
  let ?v = "\<lambda>w. snd (finding_decision_time (fi_events f) es (?w w))"
  have "fst (decide_findings E es fs (?v w)) = fst (decide_findings E es fs (?v w'))"
    using Cons by blast
  moreover have "fst (finding_decision_time (fi_events f) es (?w w)) = fst (finding_decision_time (fi_events f) es (?w w'))"
    using Cons by (blast intro: decision_time_stable)
  ultimately show ?case
    using evaluate_finding_stable [where E = E and f = f and w = w and w' = w'] by (simp add: Let_def case_prod_beta)
qed simp

text \<open>A sequence without events has no findings, so the clock of \<open>_finding_decision_time\<close> is not read.\<close>

lemma no_events [simp]:
  "detect_injection_chain [] fs w = ([], w)" "exfiltration_findings xs [] fs w = ([], w)"
  "detect_code_injection F [] fs w = ([], w)"
proof -
  have "locate [] f = None" for f
    by (simp add: locate_def event_by_id_def event_positions_def split: list.split)
  moreover have "each (\<lambda>x w. ([], w)) ys w = ([], w)" for ys :: "finding list" and w :: "'b world_scheme"
    by (induction ys) simp_all
  ultimately show "detect_injection_chain [] fs w = ([], w)" "exfiltration_findings xs [] fs w = ([], w)"
    by (simp_all add: detect_injection_chain_def exfiltration_findings_def)
qed (simp add: detect_code_injection_def)

text \<open>The replay in terms of the findings alone.\<close>

definition replay_result ::
  "(int \<Rightarrow> string) \<Rightarrow> policy_engine \<Rightarrow> runtime_event list \<Rightarrow> runtime_event list \<Rightarrow>
   'a world_scheme \<Rightarrow> session_trace" where
  "replay_result F E external es w =
     (let fs = fst (fst (replay_events E es w));
          cs = map (label_finding ''chain'') (fst (detect_injection_chain es fs w));
          xs = map (label_finding ''exfil'') (fst (exfiltration_findings external es (fs @ cs) w));
          ds = map (label_finding ''code_inj'') (fst (detect_code_injection F es ((fs @ cs) @ xs) w))
      in \<lparr>st_session = (case es of [] \<Rightarrow> ''empty'' | e # _ \<Rightarrow> ev_session e), st_events = es,
          st_findings = ((fs @ cs) @ xs) @ ds,
          st_decisions = snd (fst (replay_events E es w)) @ fst (decide_findings E es (cs @ xs @ ds) w)\<rparr>)"

lemma labelled_stable:
  fixes w w' :: "'a world_scheme"
  shows "map (label_finding k) (fst (detect_injection_chain es fs w)) = map (label_finding k) (fst (detect_injection_chain es fs w'))"
  "map (label_finding k) (fst (exfiltration_findings x es fs w)) = map (label_finding k) (fst (exfiltration_findings x es fs w'))"
  "map (label_finding k) (fst (detect_code_injection F es fs w)) = map (label_finding k) (fst (detect_code_injection F es fs w'))"
  by (rule label_same, rule chain.same_content exfiltration.same_content code.same_content)+

lemma decide_labelled_stable:
  fixes w w' :: "'a world_scheme"
  assumes "fs = [] \<or> es \<noteq> []"
  shows "fst (decide_findings E es fs w) = fst (decide_findings E es fs w')"
  using assms by (cases "es = []") (simp_all add: decide_findings_stable)

lemma replay_result_stable:
  fixes w w' :: "'a world_scheme"
  shows "replay_result F E x es w = replay_result F E x es w'"
proof -
  have fs: "fst (replay_events E es w) = fst (replay_events E es w')" by (rule replay_events_stable)
  note same = labelled_stable [where es = es and w = w and w' = w']
  show ?thesis
  proof (cases "es = []")
    case False
    then show ?thesis
      unfolding replay_result_def Let_def fs same
      using decide_findings_stable [OF False, where E = E and w = w and w' = w'] by simp
  qed (simp add: replay_result_def)
qed

lemma replay_trace_result:
  fixes w :: "'a world_scheme"
  shows "fst (replay_trace N F E file w) =
   (case external_events N (read_events_jsonl file) of
      Inl e \<Rightarrow> Inl e
    | Inr external \<Rightarrow> Inr (replay_result F (case E of None \<Rightarrow> empty_engine | Some E \<Rightarrow> E) external (read_events_jsonl file) w))"
proof -
  define es where "es = read_events_jsonl file"
  define P where "P = (case E of None \<Rightarrow> empty_engine | Some E \<Rightarrow> E)"
  have decide: "fst (decide_findings P es (cs @ xs @ ds) v) = fst (decide_findings P es (cs @ xs @ ds) w)"
    if "es = [] \<Longrightarrow> cs @ xs @ ds = []" for cs xs ds and v :: "'a world_scheme"
    using that by (metis decide_labelled_stable)
  show ?thesis
  proof (cases "external_events N es")
    case (Inr x)
    obtain fs ds0 w1 where r: "replay_events P es w = ((fs, ds0), w1)" by (metis surj_pair)
    obtain c0 w2 where c: "detect_injection_chain es fs w1 = (c0, w2)" by (metis surj_pair)
    define cs where "cs = map (label_finding ''chain'') c0"
    obtain x0 w3 where x: "exfiltration_findings x es (fs @ cs) w2 = (x0, w3)" by (metis surj_pair)
    define xs where "xs = map (label_finding ''exfil'') x0"
    obtain d0 w4 where d: "detect_code_injection F es ((fs @ cs) @ xs) w3 = (d0, w4)" by (metis surj_pair)
    define ds where "ds = map (label_finding ''code_inj'') d0"
    have "cs = map (label_finding ''chain'') (fst (detect_injection_chain es fs w))"
      "xs = map (label_finding ''exfil'') (fst (exfiltration_findings x es (fs @ cs) w))"
      "ds = map (label_finding ''code_inj'') (fst (detect_code_injection F es ((fs @ cs) @ xs) w))"
      using labelled_stable(1) [of _ es fs w1 w] labelled_stable(2) [of _ x es "fs @ cs" w2 w]
        labelled_stable(3) [of _ F es "(fs @ cs) @ xs" w3 w]
      unfolding c x d fst_conv by (metis cs_def, metis xs_def, metis ds_def)
    note here = this
    have "fst (decide_findings P es (cs @ xs @ ds) v) = fst (decide_findings P es (cs @ xs @ ds) w)" for v :: "'a world_scheme"
      by (rule decide) (use c x d in \<open>auto simp: cs_def xs_def ds_def\<close>)
    note decided = this
    have "replay_result F P x es w =
        \<lparr>st_session = (case es of [] \<Rightarrow> ''empty'' | e # _ \<Rightarrow> ev_session e), st_events = es,
         st_findings = ((fs @ cs) @ xs) @ ds, st_decisions = ds0 @ fst (decide_findings P es (cs @ xs @ ds) w)\<rparr>"
      unfolding replay_result_def Let_def r fst_conv snd_conv here [symmetric] ..
    moreover obtain ms w5 where m: "decide_findings P es (cs @ xs @ ds) w4 = (ms, w5)" by (metis surj_pair)
    ultimately show ?thesis
      using decided [of w4]
      unfolding replay_trace_def Let_def es_def [symmetric] P_def [symmetric] detect_exfiltration_eq
      by (simp only: r c x d m Inr prod.case sum.case map_prod_simp id_apply cs_def [symmetric] xs_def [symmetric]
          ds_def [symmetric] fst_conv)
  qed (simp add: replay_trace_def detect_exfiltration_eq Let_def case_prod_beta flip: es_def)
qed

text \<open>C21. Replaying a trace gives the same result whatever the clock shows and whatever random numbers are
  drawn: findings, decisions, their identifiers and their times depend on the recorded events and the
  policies alone. An error, an unparsable destination, is repeated as well.\<close>

theorem replay_deterministic:
  fixes w w' :: "'a world_scheme"
  shows "fst (replay_trace N F E file w) = fst (replay_trace N F E file w')"
  unfolding replay_trace_result using replay_result_stable by (auto split: sum.split)

end
