(* ===== verification/Reconstruct.thy ===== *)
theory Reconstruct
  imports Replay Adjudication "HOL-Library.Multiset"
begin

text \<open>
  \<open>src/zeroadr/reconstruction/\<close>: \<open>session.py\<close> rebuilds the context of a session from a replayed
  trace or from the store, \<open>process_tree.py\<close> and \<open>correlation.py\<close> add the view of the endpoint
  sensor. The dictionaries with fixed keys that the code returns are records; a model that is
  dumped with \<open>model_dump(mode="json")\<close> is that model, and a time that is printed with
  \<open>isoformat()\<close> that time. Dictionaries with free keys are association lists: those that a loop
  fills by assignment are looked up from the end, so that the last assignment counts.
\<close>

definition either :: "json \<Rightarrow> json \<Rightarrow> json" where
  "either a b = (if truthy a then a else b)"

text \<open>\<open>for item in items: d[key(item)] = item\<close>; items without a key are passed over.\<close>

definition last_by :: "('x \<Rightarrow> 'k option) \<Rightarrow> 'x list \<Rightarrow> 'k \<Rightarrow> 'x option" where
  "last_by key items k = find (\<lambda>x. key x = Some k) (rev items)"

section \<open>The endpoint's process tree\<close>

record process_node =
  pn_key :: string
  pn_session :: string
  pn_host :: string
  pn_pid :: json
  pn_ppid :: json
  pn_process :: json
  pn_start_time :: json
  pn_executable :: json
  pn_cwd :: json
  pn_user :: json
  pn_events :: "string list"

record process_tree =
  pt_nodes :: "process_node list"
  pt_edges :: "(string \<times> string) list"

definition args :: "runtime_event \<Rightarrow> jdict" where
  "args event = (case ev_arguments event of None \<Rightarrow> [] | Some d \<Rightarrow> d)"

definition process_key :: "runtime_event \<Rightarrow> string" where
  "process_key event =
     (let pid = dget (args event) ''pid''; host_id = dget (args event) ''host_id'';
          process_start_time = dget (args event) ''process_start_time'' in
      if host_id \<noteq> JNull \<and> pid \<noteq> JNull \<and> process_start_time \<noteq> JNull
      then py_str host_id @ '':'' @ py_str pid @ '':'' @ py_str process_start_time
      else ev_session event @ '':'' @ py_str pid)"

definition host_of :: "runtime_event \<Rightarrow> string" where
  "host_of event = py_str (either (dget (args event) ''host_id'') (JStr []))"

definition new_node :: "runtime_event \<Rightarrow> process_node" where
  "new_node event =
     (let d = args event in
      \<lparr>pn_key = process_key event, pn_session = ev_session event, pn_host = host_of event,
       pn_pid = dget d ''pid'', pn_ppid = dget d ''ppid'', pn_process = dget d ''process'',
       pn_start_time = dget d ''process_start_time'', pn_executable = dget d ''executable'',
       pn_cwd = dget d ''cwd'', pn_user = dget d ''user'', pn_events = []\<rparr>)"

text \<open>\<open>nodes_by_key.setdefault(key, ...)["event_ids"].append(event.event_id)\<close>.\<close>

fun note_event :: "runtime_event \<Rightarrow> process_node list \<Rightarrow> process_node list" where
  "note_event event [] = [(new_node event)\<lparr>pn_events := [ev_id event]\<rparr>]"
| "note_event event (n # ns) =
     (if pn_key n = process_key event then n\<lparr>pn_events := pn_events n @ [ev_id event]\<rparr> # ns
      else n # note_event event ns)"

definition pid_slot :: "runtime_event \<Rightarrow> json \<Rightarrow> string \<times> string \<times> string" where
  "pid_slot event pid = (ev_session event, host_of event, py_str pid)"

definition pid_index :: "runtime_event list \<Rightarrow> string \<times> string \<times> string \<Rightarrow> string option" where
  "pid_index events slot =
     map_option process_key (last_by (\<lambda>e. Some (pid_slot e (dget (args e) ''pid''))) events slot)"

fun tree_edges ::
  "(string \<times> string \<times> string \<Rightarrow> string option) \<Rightarrow> runtime_event list \<Rightarrow> (string \<times> string) list \<Rightarrow>
   (string \<times> string) list" where
  "tree_edges index [] edges = edges"
| "tree_edges index (event # events) edges =
     tree_edges index events
       (let child_pid = dget (args event) ''pid''; parent_pid = dget (args event) ''ppid'' in
        if child_pid = JNull \<or> parent_pid = JNull then edges
        else case index (pid_slot event parent_pid) of
               None \<Rightarrow> edges
             | Some parent_key \<Rightarrow>
                 if parent_key = process_key event then edges
                 else if (parent_key, process_key event) \<in> set edges then edges
                 else edges @ [(parent_key, process_key event)])"

definition build_process_tree :: "runtime_event list \<Rightarrow> process_tree" where
  "build_process_tree events =
     (let endpoint_events = filter (\<lambda>e. ev_source e = EndpointSensor \<and> ev_arguments e \<noteq> None) events;
          with_pid = filter (\<lambda>e. dget (args e) ''pid'' \<noteq> JNull) endpoint_events
      in \<lparr>pt_nodes = sort_key pn_key (fold note_event with_pid []),
          pt_edges = sort (tree_edges (pid_index with_pid) endpoint_events [])\<rparr>)"

section \<open>Correlation with the endpoint\<close>

record correlation =
  co_runtime :: string
  co_endpoint :: string
  co_reasons :: "string list"

text \<open>The first non-empty text at one of the keys; the same loop serves the summary.\<close>

definition ANY_TARGET_KEYS :: "string list" where
  "ANY_TARGET_KEYS =
     [''path'', ''file'', ''filename'', ''command'', ''cmd'', ''url'', ''uri'', ''endpoint'',
      ''domain'', ''host'', ''webhook'', ''recipient'', ''to'']"

fun first_nonempty :: "string list \<Rightarrow> jdict \<Rightarrow> string option" where
  "first_nonempty [] d = None"
| "first_nonempty (k # ks) d =
     (case dget d k of JStr (c # s) \<Rightarrow> Some (c # s) | _ \<Rightarrow> first_nonempty ks d)"

definition any_target :: "runtime_event \<Rightarrow> string option" where
  "any_target event = first_nonempty ANY_TARGET_KEYS (args event)"

definition correlation_reasons :: "runtime_event \<Rightarrow> runtime_event \<Rightarrow> string list" where
  "correlation_reasons runtime_event endpoint_event =
     (let reasons = ''same_session'' #
            (if ev_request runtime_event \<noteq> None \<and> ev_request runtime_event = ev_request endpoint_event
             then [''same_request''] else [])
            @ (if any_target runtime_event \<noteq> None \<and> any_target runtime_event = any_target endpoint_event
               then [''same_target''] else [])
      in if length reasons > 1 then reasons else [])"

definition correlate_one :: "runtime_event \<Rightarrow> runtime_event \<Rightarrow> correlation list \<Rightarrow> correlation list" where
  "correlate_one runtime_event endpoint_event correlations =
     (if ev_session runtime_event \<noteq> ev_session endpoint_event then correlations
      else let reasons = correlation_reasons runtime_event endpoint_event in
           if reasons = [] then correlations
           else if (ev_id runtime_event, ev_id endpoint_event) \<in>
                     set (map (\<lambda>c. (co_runtime c, co_endpoint c)) correlations) then correlations
           else correlations @ [\<lparr>co_runtime = ev_id runtime_event, co_endpoint = ev_id endpoint_event,
                                 co_reasons = reasons\<rparr>])"

definition correlate_endpoint_events :: "runtime_event list \<Rightarrow> correlation list" where
  "correlate_endpoint_events events =
     (let runtime_events = filter (\<lambda>e. ev_source e \<noteq> EndpointSensor) events;
          endpoint_events = filter (\<lambda>e. ev_source e = EndpointSensor) events
      in sort_key (\<lambda>c. (co_runtime c, co_endpoint c))
           (fold (\<lambda>r. fold (correlate_one r) endpoint_events) runtime_events []))"

section \<open>The timeline\<close>

record timeline_event =
  te_id :: string
  te_type :: event_type
  te_time :: int
  te_tool :: "string option"
  te_capability :: "string option"
  te_target :: string

record timeline_decision =
  td_id :: string
  td_policy :: "string option"
  td_action :: policy_action
  td_reason :: string
  td_findings :: "string list"

record finding_ref =
  fr_id :: string
  fr_rule :: string
  fr_severity :: severity
  fr_target :: string

record adjudication_ref =
  aj_id :: string
  aj_stage :: gate_stage
  aj_mode :: gate_mode
  aj_status :: analysis_status
  aj_verdict :: "verdict option"
  aj_confidence :: "rat option"
  aj_proposed :: policy_action
  aj_final :: policy_action

record timeline_item =
  ti_request :: "request_id option"
  ti_tool :: "string option"
  ti_capability :: "string option"
  ti_requested :: timeline_event
  ti_completed :: "timeline_event option"
  ti_policy :: "timeline_event option"
  ti_decision :: "timeline_decision option"
  ti_findings :: "finding_ref list"
  ti_adjudication :: "adjudication_ref option"
  ti_gate :: "tool_result_gate_record option"

definition request_key :: "request_id option \<Rightarrow> string option" where
  "request_key request_id =
     map_option (\<lambda>r. case r of RStr s \<Rightarrow> s | RInt i \<Rightarrow> int_str i) request_id"

definition event_target :: "runtime_event \<Rightarrow> string" where
  "event_target event =
     (case first_str [''path'', ''file'', ''filename'', ''command'', ''cmd'', ''url'', ''uri'', ''endpoint''] (args event) of
        Some s \<Rightarrow> s
      | None \<Rightarrow> str_or (ev_tool event) ''unknown'')"

definition timeline_event_of :: "runtime_event \<Rightarrow> timeline_event" where
  "timeline_event_of event =
     \<lparr>te_id = ev_id event, te_type = ev_type event, te_time = ev_time event, te_tool = ev_tool event,
      te_capability = ev_capability event, te_target = event_target event\<rparr>"

definition timeline_decision_of :: "policy_decision \<Rightarrow> timeline_decision" where
  "timeline_decision_of d =
     \<lparr>td_id = pd_id d, td_policy = pd_policy d, td_action = pd_action d, td_reason = pd_reason d,
      td_findings = pd_findings d\<rparr>"

definition finding_ref_of :: "finding \<Rightarrow> finding_ref" where
  "finding_ref_of f = \<lparr>fr_id = fi_id f, fr_rule = fi_rule f, fr_severity = fi_severity f, fr_target = fi_target f\<rparr>"

text \<open>What the two dictionaries hold for a key: a finding is listed once for every mention.\<close>

definition findings_by_event :: "finding list \<Rightarrow> string \<Rightarrow> finding list" where
  "findings_by_event findings i =
     concat (map (\<lambda>f. map (\<lambda>_. f) (filter (\<lambda>j. j = i) (fi_events f))) findings)"

definition event_level_decisions :: "policy_decision list \<Rightarrow> string \<Rightarrow> policy_decision option" where
  "event_level_decisions decisions i =
     (case filter (\<lambda>d. pd_event d = i) decisions of
        [] \<Rightarrow> None
      | d # ds \<Rightarrow>
          (case find (\<lambda>d. pd_id d = ''decision_'' @ i) (d # ds) of Some x \<Rightarrow> Some x | None \<Rightarrow> Some d))"

definition terminal_by_request :: "runtime_event list \<Rightarrow> string \<Rightarrow> runtime_event option" where
  "terminal_by_request events k =
     last_by (\<lambda>e. request_key (ev_request e)) (filter (\<lambda>e. ev_type e \<in> {ToolCallCompleted, ToolCallFailed}) events) k"

definition policy_event_by_request :: "runtime_event list \<Rightarrow> string \<Rightarrow> runtime_event option" where
  "policy_event_by_request events k =
     last_by (\<lambda>e. request_key (ev_request e)) (filter (\<lambda>e. ev_type e = PolicyEvaluated) events) k"

definition timeline_item_of ::
  "runtime_event list \<Rightarrow> finding list \<Rightarrow> policy_decision list \<Rightarrow> runtime_event \<Rightarrow> timeline_item" where
  "timeline_item_of events findings decisions event =
     (let request_key = str_or (request_key (ev_request event)) [];
          terminal = terminal_by_request events request_key;
          policy_event = policy_event_by_request events request_key;
          event_findings = findings_by_event findings (ev_id event) @
            (case terminal of None \<Rightarrow> [] | Some t \<Rightarrow> findings_by_event findings (ev_id t))
      in \<lparr>ti_request = ev_request event, ti_tool = ev_tool event, ti_capability = ev_capability event,
          ti_requested = timeline_event_of event, ti_completed = map_option timeline_event_of terminal,
          ti_policy = map_option timeline_event_of policy_event,
          ti_decision = map_option timeline_decision_of (event_level_decisions decisions (ev_id event)),
          ti_findings = map finding_ref_of event_findings, ti_adjudication = None, ti_gate = None\<rparr>)"

definition build_timeline ::
  "runtime_event list \<Rightarrow> finding list \<Rightarrow> policy_decision list \<Rightarrow> timeline_item list" where
  "build_timeline events findings decisions =
     map (timeline_item_of events findings decisions) (filter (\<lambda>e. ev_type e = ToolCallRequested) events)"

section \<open>Risk and metadata\<close>

record risk_summary =
  rs_total :: nat
  rs_severity :: "severity \<Rightarrow> nat"
  rs_decisions :: "policy_action \<Rightarrow> nat"
  rs_pending :: "nat option"

definition tally :: "('x \<Rightarrow> 'k) \<Rightarrow> 'x list \<Rightarrow> 'k \<Rightarrow> nat" where
  "tally key items = fold (\<lambda>x counts. counts(key x := counts (key x) + 1)) items (\<lambda>_. 0)"

definition risk_summary_of :: "finding list \<Rightarrow> policy_decision list \<Rightarrow> risk_summary" where
  "risk_summary_of findings decisions =
     \<lparr>rs_total = length findings, rs_severity = tally fi_severity findings,
      rs_decisions = tally pd_action decisions, rs_pending = None\<rparr>"

record context_metadata =
  md_clients :: "jdict list"
  md_workspaces :: "jdict list"
  md_prompts :: "jdict list"

definition compact_str_dict :: "jdict \<Rightarrow> jdict" where
  "compact_str_dict values = filter (\<lambda>(k, v). case v of JStr s \<Rightarrow> s \<noteq> [] | _ \<Rightarrow> False) values"

definition section_of :: "string \<Rightarrow> jdict \<Rightarrow> jdict" where
  "section_of k raw = (case dget raw k of JObj d \<Rightarrow> d | _ \<Rightarrow> raw)"

definition client_metadata :: "jdict \<Rightarrow> jdict" where
  "client_metadata raw =
     (let values = section_of ''client'' raw in
      compact_str_dict
        [(''name'', either (dget values ''name'') (dget values ''client_name'')),
         (''version'', either (dget values ''version'') (dget values ''client_version'')),
         (''session_id'', either (dget values ''session_id'') (dget values ''client_session_id''))])"

definition workspace_metadata :: "jdict \<Rightarrow> jdict" where
  "workspace_metadata raw =
     (let values = section_of ''workspace'' raw in
      compact_str_dict
        [(''root'', either (dget values ''root'') (dget values ''workspace_root'')),
         (''name'', either (dget values ''name'') (dget values ''workspace_name''))])"

definition prompt_metadata :: "jdict \<Rightarrow> jdict" where
  "prompt_metadata raw =
     (case dget raw ''prompt'' of
        JObj prompt \<Rightarrow>
          (''present'', JBool True) #
          compact_str_dict [(''source'', dget prompt ''source''), (''sha256'', dget prompt ''sha256'')]
      | prompt \<Rightarrow>
          if (case prompt of JStr (_ # _) \<Rightarrow> True | _ \<Rightarrow> False) \<or> dget raw ''prompt_present'' = JBool True
          then [(''present'', JBool True)] else [])"

text \<open>\<open>repr(sorted(item.items()))\<close>; the keys of a dictionary differ, so they alone decide the order.\<close>

definition dict_repr :: "jdict \<Rightarrow> string" where
  "dict_repr item = py_repr (JList (map (\<lambda>(k, v). JTuple [JStr k, v]) (sort_key fst item)))"

definition unique_dicts :: "jdict list \<Rightarrow> jdict list" where
  "unique_dicts items =
     map (\<lambda>k. the (last_by (\<lambda>i. Some (dict_repr i)) items k)) (sort (remdups (map dict_repr items)))"

definition context_metadata_of :: "runtime_event list \<Rightarrow> context_metadata" where
  "context_metadata_of events =
     \<lparr>md_clients = unique_dicts (filter (\<lambda>d. d \<noteq> []) (map (\<lambda>e. client_metadata (ev_raw e)) events)),
      md_workspaces = unique_dicts (filter (\<lambda>d. d \<noteq> []) (map (\<lambda>e. workspace_metadata (ev_raw e)) events)),
      md_prompts = unique_dicts (filter (\<lambda>d. d \<noteq> []) (map (\<lambda>e. prompt_metadata (ev_raw e)) events))\<rparr>"

section \<open>The context\<close>

definition redact_prompt_text :: "jdict \<Rightarrow> jdict" where
  "redact_prompt_text raw =
     (case dget raw ''prompt'' of
        JObj prompt \<Rightarrow>
          (case dget prompt ''text'' of
             JStr _ \<Rightarrow> dset ''prompt'' (JObj (dset ''text'' (JStr REDACTED) prompt)) raw
           | _ \<Rightarrow> raw)
      | _ \<Rightarrow> raw)"

definition event_dict :: "runtime_event \<Rightarrow> runtime_event" where
  "event_dict event = (let redacted = redact_event event in redacted\<lparr>ev_raw := redact_prompt_text (ev_raw redacted)\<rparr>)"

record session_context =
  cx_session :: string
  cx_events :: "runtime_event list"
  cx_findings :: "finding list"
  cx_decisions :: "policy_decision list"
  cx_adjudications :: "llm_adjudication list"
  cx_gates :: "tool_result_gate_record list"
  cx_timeline :: "timeline_item list"
  cx_risk :: risk_summary
  cx_metadata :: context_metadata
  cx_tree :: process_tree
  cx_correlations :: "correlation list"

definition reconstruct_session_trace :: "session_trace \<Rightarrow> session_context" where
  "reconstruct_session_trace trace =
     (let events = sort_key (\<lambda>e. (ev_time e, ev_ingest e, ev_id e)) (st_events trace);
          findings = sort_key fi_id (st_findings trace);
          decisions = sort_key (\<lambda>d. (pd_created d, pd_id d)) (st_decisions trace)
      in \<lparr>cx_session = st_session trace, cx_events = map event_dict events, cx_findings = findings,
          cx_decisions = decisions, cx_adjudications = [], cx_gates = [],
          cx_timeline = build_timeline events findings decisions, cx_risk = risk_summary_of findings decisions,
          cx_metadata = context_metadata_of events, cx_tree = build_process_tree events,
          cx_correlations = correlate_endpoint_events events\<rparr>)"

definition reconstruct_from_trace ::
  "net_lib \<Rightarrow> (int \<Rightarrow> string) \<Rightarrow> runtime_event list option \<Rightarrow> 'a world_scheme \<Rightarrow> (exn + session_context) \<times> 'a world_scheme" where
  "reconstruct_from_trace N fixed1 path w =
     (case replay_trace N fixed1 None path w of
        (Inl e, w) \<Rightarrow> (Inl e, w)
      | (Inr trace, w) \<Rightarrow> (Inr (reconstruct_session_trace trace), w))"

definition adjudication_ref_of :: "llm_adjudication \<Rightarrow> adjudication_ref" where
  "adjudication_ref_of a =
     \<lparr>aj_id = ad_id a, aj_stage = ad_stage a, aj_mode = ad_mode a, aj_status = ad_status a,
      aj_verdict = map_option jr_verdict (ad_result a), aj_confidence = map_option jr_confidence (ad_result a),
      aj_proposed = ad_proposed a, aj_final = ad_final a\<rparr>"

definition attach_records ::
  "llm_adjudication list \<Rightarrow> tool_result_gate_record list \<Rightarrow> timeline_item \<Rightarrow> timeline_item" where
  "attach_records adjudications gate_records item =
     (let by_event = last_by (\<lambda>a. Some (ad_event a)) adjudications;
          completed_event_id = map_option te_id (ti_completed item);
          adjudication = (case completed_event_id of
              None \<Rightarrow> by_event (te_id (ti_requested item))
            | Some i \<Rightarrow> (case by_event i of None \<Rightarrow> by_event (te_id (ti_requested item)) | Some a \<Rightarrow> Some a));
          item = item\<lparr>ti_adjudication := map_option adjudication_ref_of adjudication\<rparr>
      in case completed_event_id of
           None \<Rightarrow> item
         | Some i \<Rightarrow> item\<lparr>ti_gate := last_by (\<lambda>r. Some (tg_event r)) gate_records i\<rparr>)"

definition reconstruct_from_sqlite :: "string \<Rightarrow> store \<Rightarrow> session_context" where
  "reconstruct_from_sqlite session_id d =
     (let trace = \<lparr>st_session = session_id, st_events = events_for_session session_id d,
                   st_findings = findings_for_session session_id d,
                   st_decisions = policy_decisions_for_session session_id d\<rparr>;
          context = reconstruct_session_trace trace;
          adjudications = llm_adjudications_for_session session_id d;
          gate_records = tool_result_gate_records_for_session session_id d
      in context\<lparr>cx_adjudications := adjudications, cx_gates := gate_records,
           cx_timeline := map (attach_records adjudications gate_records) (cx_timeline context),
           cx_risk := (cx_risk context)\<lparr>rs_pending := Some (pending_approval_count (Some session_id) d)\<rparr>\<rparr>)"

section \<open>Order of the input\<close>

lemma sort_by_unique_key:
  assumes "mset xs = mset ys" "distinct (map ident xs)" "\<And>x y. f x = f y \<Longrightarrow> ident x = ident y"
  shows "sort_key f xs = sort_key f ys"
proof -
  have "inj_on ident (set xs)" using assms(2) by (simp add: distinct_map)
  then have "inj_on f (set xs)" by (intro inj_onI) (blast dest: assms(3) inj_onD)
  then show ?thesis by (rule sort_key_inj_key_eq [rotated]) (simp_all add: assms(1))
qed

text \<open>C22. The context of a session does not depend on the order in which the trace lists its events,
  findings and decisions, as long as each kind has distinct identifiers: two traces with the same
  elements are reconstructed alike.\<close>

theorem reconstruct_order_independent:
  assumes "st_session t = st_session t'"
    and "mset (st_events t) = mset (st_events t')" "distinct (map ev_id (st_events t))"
    and "mset (st_findings t) = mset (st_findings t')" "distinct (map fi_id (st_findings t))"
    and "mset (st_decisions t) = mset (st_decisions t')" "distinct (map pd_id (st_decisions t))"
  shows "reconstruct_session_trace t = reconstruct_session_trace t'"
proof -
  have "sort_key (\<lambda>e. (ev_time e, ev_ingest e, ev_id e)) (st_events t) =
      sort_key (\<lambda>e. (ev_time e, ev_ingest e, ev_id e)) (st_events t')"
    "sort_key fi_id (st_findings t) = sort_key fi_id (st_findings t')"
    "sort_key (\<lambda>d. (pd_created d, pd_id d)) (st_decisions t) = sort_key (\<lambda>d. (pd_created d, pd_id d)) (st_decisions t')"
    by (rule sort_by_unique_key [OF assms(2,3)] sort_by_unique_key [OF assms(4,5)] sort_by_unique_key [OF assms(6,7)],
        simp)+
  then show ?thesis unfolding reconstruct_session_trace_def by (simp only: assms(1))
qed

section \<open>Counts\<close>

lemma tally_count: "tally key xs k = length (filter (\<lambda>x. key x = k) xs)"
proof -
  have "fold (\<lambda>x counts. counts(key x := counts (key x) + 1)) xs c k = c k + length (filter (\<lambda>x. key x = k) xs)" for c
    by (induction xs arbitrary: c) auto
  then show ?thesis by (simp add: tally_def)
qed

lemma length_filter_mset: "length (filter P xs) = size (filter_mset P (mset xs))"
  by (metis mset_filter size_mset)

lemma count_sorted: "length (filter P (sort_key f xs)) = length (filter P xs)"
  by (simp add: length_filter_mset)

text \<open>The risk summary counts what the trace holds: one count per severity and per action, and
  the counts of the severities add up to the number of findings.\<close>

theorem risk_summary_counts:
  "rs_severity (cx_risk (reconstruct_session_trace t)) s = length (filter (\<lambda>f. fi_severity f = s) (st_findings t))
   \<and> rs_decisions (cx_risk (reconstruct_session_trace t)) a = length (filter (\<lambda>d. pd_action d = a) (st_decisions t))
   \<and> rs_total (cx_risk (reconstruct_session_trace t)) =
       (\<Sum>s \<leftarrow> [Low, Medium, High, Critical]. rs_severity (cx_risk (reconstruct_session_trace t)) s)"
proof -
  have "length fs = (\<Sum>s \<leftarrow> [Low, Medium, High, Critical]. length (filter (\<lambda>f. fi_severity f = s) fs))" for fs
    by (induction fs) (auto split: severity.split, (metis severity.exhaust)+)
  then show ?thesis
    by (simp add: reconstruct_session_trace_def risk_summary_of_def tally_count count_sorted Let_def)
qed

section \<open>Redaction\<close>

lemma prompt_keys_open: "\<not> is_sensitive_key ''prompt''" "\<not> is_sensitive_key ''text''"
  by code_simp+

lemma sealed_redact_prompt:
  assumes "sealed (JObj raw)"
  shows "sealed (JObj (redact_prompt_text raw))"
proof (cases "\<exists>p s. dget raw ''prompt'' = JObj p \<and> dget p ''text'' = JStr s")
  case True
  then obtain p s where p: "dget raw ''prompt'' = JObj p" "dget p ''text'' = JStr s" by blast
  have "sealed (JObj p)" using sealed_dget [OF assms prompt_keys_open(1)] by (simp add: p)
  then have "sealed (JObj (dset ''text'' (JStr REDACTED) p))"
    by (intro sealed_dset prompt_keys_open) simp_all
  then show ?thesis
    unfolding redact_prompt_text_def p json.case by (rule sealed_dset [OF assms prompt_keys_open(1)])
next
  case False
  then have "redact_prompt_text raw = raw"
    by (auto simp: redact_prompt_text_def split: json.split)
  with assms show ?thesis by simp
qed

lemma redact_prompt_text_gone:
  "dget (redact_prompt_text raw) ''prompt'' = JObj p \<Longrightarrow> dget p ''text'' = JStr s \<Longrightarrow> s = REDACTED"
  by (auto simp: redact_prompt_text_def dget_dset split: json.splits)

text \<open>The events of a context are sealed, and where the raw message carries a prompt as a
  dictionary its text is gone.\<close>

theorem context_events_sealed:
  assumes "e \<in> set (cx_events (reconstruct_session_trace t))"
  shows "sealed_event e \<and>
    (\<forall>p s. dget (ev_raw e) ''prompt'' = JObj p \<and> dget p ''text'' = JStr s \<longrightarrow> s = REDACTED)"
proof -
  obtain e' where e: "e = event_dict e'"
    using assms by (auto simp: reconstruct_session_trace_def Let_def)
  have "sealed_event e"
    using sealed_redact_event [of e'] sealed_redact_prompt
    by (simp add: e event_dict_def sealed_event_def Let_def del: sealed.simps)
  moreover have "ev_raw e = redact_prompt_text (ev_raw (redact_event e'))"
    by (simp add: e event_dict_def Let_def)
  ultimately show ?thesis using redact_prompt_text_gone by metis
qed

section \<open>The process tree\<close>

lemma new_node_key [simp]: "pn_key (new_node e) = process_key e"
  by (simp add: new_node_def Let_def)

lemma note_event_keys:
  "pn_key ` set (note_event e ns) = insert (process_key e) (pn_key ` set ns)"
  "distinct (map pn_key ns) \<Longrightarrow> distinct (map pn_key (note_event e ns))"
proof (induction ns)
  case (Cons n ns)
  {
    case 1
    show ?case using Cons.IH(1) by auto
  next
    case 2
    then show ?case using Cons.IH by (auto simp: image_iff)
  }
qed auto

lemma note_event_ids:
  "mset (concat (map pn_events (note_event e ns))) = add_mset (ev_id e) (mset (concat (map pn_events ns)))"
  by (induction ns) auto

lemma fold_note_event:
  "pn_key ` set (fold note_event es ns) = process_key ` set es \<union> pn_key ` set ns"
  "distinct (map pn_key ns) \<Longrightarrow> distinct (map pn_key (fold note_event es ns))"
  "mset (concat (map pn_events (fold note_event es ns))) = mset (map ev_id es) + mset (concat (map pn_events ns))"
  by (induction es arbitrary: ns) (simp_all add: note_event_keys note_event_ids del: concat.simps)

lemma pid_index_node: "pid_index es slot = Some k \<Longrightarrow> k \<in> process_key ` set es"
  by (auto simp: pid_index_def last_by_def find_Some_iff) (metis image_eqI length_rev nth_mem set_rev)

definition edges_ok :: "string set \<Rightarrow> (string \<times> string) list \<Rightarrow> bool" where
  "edges_ok ks edges = (distinct edges \<and> (\<forall>(p, c) \<in> set edges. p \<noteq> c \<and> p \<in> ks \<and> c \<in> ks))"

lemma edges_ok_snoc:
  "edges_ok ks es \<Longrightarrow> p \<noteq> c \<Longrightarrow> p \<in> ks \<Longrightarrow> c \<in> ks \<Longrightarrow> (p, c) \<notin> set es \<Longrightarrow> edges_ok ks (es @ [(p, c)])"
  by (auto simp: edges_ok_def)

lemma tree_edges_ok:
  assumes "\<And>slot k. index slot = Some k \<Longrightarrow> k \<in> ks"
    and "\<forall>e \<in> set es. dget (args e) ''pid'' \<noteq> JNull \<longrightarrow> process_key e \<in> ks"
    and "edges_ok ks edges"
  shows "edges_ok ks (tree_edges index es edges)"
  using assms(2,3)
  by (induction es arbitrary: edges) (auto simp: Let_def intro: edges_ok_snoc dest: assms(1) split: option.split)

text \<open>C23. The process tree is a graph over the processes that the sensor saw: nodes are sorted and have
  distinct keys, every event with a process id is listed at exactly one node, edges are sorted,
  distinct, never loops, and both their ends are nodes.\<close>

theorem process_tree_well_formed:
  "sorted (map pn_key (pt_nodes (build_process_tree es)))
   \<and> distinct (map pn_key (pt_nodes (build_process_tree es)))
   \<and> mset (concat (map pn_events (pt_nodes (build_process_tree es)))) =
       mset (map ev_id (filter (\<lambda>e. ev_source e = EndpointSensor \<and> dget (args e) ''pid'' \<noteq> JNull) es))
   \<and> sorted (pt_edges (build_process_tree es)) \<and> distinct (pt_edges (build_process_tree es))
   \<and> set (pt_edges (build_process_tree es)) \<subseteq>
       {(p, c). p \<noteq> c \<and> p \<in> pn_key ` set (pt_nodes (build_process_tree es))
                 \<and> c \<in> pn_key ` set (pt_nodes (build_process_tree es))}"
proof -
  let ?ep = "filter (\<lambda>e. ev_source e = EndpointSensor \<and> ev_arguments e \<noteq> None) es"
  define ps where "ps = filter (\<lambda>e. dget (args e) ''pid'' \<noteq> JNull) ?ep"
  have seen: "ps = filter (\<lambda>e. ev_source e = EndpointSensor \<and> dget (args e) ''pid'' \<noteq> JNull) es"
    unfolding ps_def filter_filter by (rule filter_cong) (auto simp: args_def split: option.splits)
  have nodes: "pt_nodes (build_process_tree es) = sort_key pn_key (fold note_event ps [])"
    and edges: "pt_edges (build_process_tree es) = sort (tree_edges (pid_index ps) ?ep [])"
    unfolding build_process_tree_def Let_def ps_def by (simp_all only: process_tree.select_convs)
  have keys: "pn_key ` set (pt_nodes (build_process_tree es)) = process_key ` set ps"
    by (simp add: nodes fold_note_event(1))
  have "edges_ok (process_key ` set ps) (tree_edges (pid_index ps) ?ep [])"
    by (rule tree_edges_ok) (auto simp: edges_ok_def ps_def dest: pid_index_node)
  then have graph: "distinct (pt_edges (build_process_tree es))"
    "\<forall>(p, c) \<in> set (pt_edges (build_process_tree es)). p \<noteq> c \<and> p \<in> process_key ` set ps \<and> c \<in> process_key ` set ps"
    by (auto simp: edges edges_ok_def)
  have ids: "mset (concat (map pn_events (pt_nodes (build_process_tree es)))) = mset (map ev_id ps)"
    using fold_note_event(3) [of ps "[]"] by (simp add: nodes mset_concat flip: sum_mset_sum_list)
  have dist: "distinct (map pn_key (pt_nodes (build_process_tree es)))"
    using fold_note_event(2) [of "[]" ps] by (simp add: nodes distinct_map)
  show ?thesis
    using graph ids dist unfolding keys seen by (auto simp: nodes edges)
qed

section \<open>Examples\<close>

definition shell_event :: "string \<Rightarrow> string \<Rightarrow> runtime_event" where
  "shell_event i command =
     \<lparr>ev_id = i, ev_type = ToolCallRequested, ev_time = 0, ev_ingest = 0, ev_source = Hook, ev_session = ''s'',
      ev_request = Some (RStr i), ev_server = None, ev_tool = Some ''bash'', ev_capability = Some ''shell.exec'',
      ev_context = None, ev_arguments = Some [(''command'', JStr command)], ev_result = JNull, ev_error = None,
      ev_raw = [(''prompt'', JObj [(''text'', JStr ''hello'')])]\<rparr>"

definition trace_of :: "runtime_event list \<Rightarrow> session_trace" where
  "trace_of es = \<lparr>st_session = ''s'', st_events = es, st_findings = [], st_decisions = []\<rparr>"

theorem reconstruct_order_independent_witness:
  "reconstruct_session_trace (trace_of [shell_event ''a'' ''ls'', shell_event ''b'' ''pwd'']) =
   reconstruct_session_trace (trace_of [shell_event ''b'' ''pwd'', shell_event ''a'' ''ls''])"
  by (rule reconstruct_order_independent) (simp_all add: trace_of_def shell_event_def)

theorem context_events_sealed_witness:
  "sealed_event (event_dict (shell_event ''a'' ''ls''))"
  using context_events_sealed [of "event_dict (shell_event ''a'' ''ls'')" "trace_of [shell_event ''a'' ''ls'']"]
  by (simp add: reconstruct_session_trace_def trace_of_def Let_def)

text \<open>The targets of the timeline are taken from the events before redaction: a secret in a command
  that the listed event hides is shown beside it.\<close>

lemma timeline_shows_secret:
  "map (dget (args (hd (cx_events (reconstruct_session_trace (trace_of [shell_event ''a'' ''API_KEY=k''])))))) [''command''] =
     [JStr ''API_KEY=[REDACTED]'']
   \<and> map (te_target \<circ> ti_requested) (cx_timeline (reconstruct_session_trace (trace_of [shell_event ''a'' ''API_KEY=k'']))) =
     [''API_KEY=k'']"
proof -
  have red: "redact_string ''API_KEY=k'' = ''API_KEY=[REDACTED]''" by code_simp
  have key: "\<not> is_sensitive_key ''command''" by code_simp
  show ?thesis
    by (simp add: reconstruct_session_trace_def trace_of_def event_dict_def redact_event_def redact_dict_def
        args_def shell_event_def red key build_timeline_def timeline_item_of_def timeline_event_of_def
        event_target_def Let_def)
qed

end
