(* ===== verification/Reports.thy ===== *)
theory Reports
  imports Reconstruct
begin

text \<open>
  The views of a reconstructed context: \<open>evidence.py\<close> selects one finding and what belongs to it,
  \<open>summary.py\<close> lists what the session touched, \<open>agent_bom.py\<close> arranges the summary as an
  inventory. All are functions of \<open>session_context\<close>.
\<close>

section \<open>Evidence\<close>

record evidence =
  ed_session :: string
  ed_finding :: "finding option"
  ed_events :: "runtime_event list"
  ed_timeline :: "timeline_item list"
  ed_decisions :: "policy_decision list"
  ed_risk :: risk_summary

fun severity_rank :: "severity \<Rightarrow> nat" where
  "severity_rank Critical = 0"
| "severity_rank High = 1"
| "severity_rank Medium = 2"
| "severity_rank Low = 3"

definition finding_sort_key :: "finding \<Rightarrow> nat \<times> string" where
  "finding_sort_key f = (severity_rank (fi_severity f), fi_id f)"

definition select_finding :: "string option \<Rightarrow> string option \<Rightarrow> finding list \<Rightarrow> finding option" where
  "select_finding finding_id rule_id findings =
     (let candidates = (case finding_id of None \<Rightarrow> findings | Some i \<Rightarrow> filter (\<lambda>f. fi_id f = i) findings);
          candidates = (case rule_id of None \<Rightarrow> candidates | Some r \<Rightarrow> filter (\<lambda>f. fi_rule f = r) candidates)
      in case sort_key finding_sort_key candidates of [] \<Rightarrow> None | f # _ \<Rightarrow> Some f)"

definition timeline_intersects :: "string set \<Rightarrow> string set \<Rightarrow> timeline_item \<Rightarrow> bool" where
  "timeline_intersects event_ids finding_ids item =
     (te_id (ti_requested item) \<in> event_ids
      \<or> pred_option (\<lambda>e. te_id e \<in> event_ids) (ti_completed item) \<and> ti_completed item \<noteq> None
      \<or> pred_option (\<lambda>e. te_id e \<in> event_ids) (ti_policy item) \<and> ti_policy item \<noteq> None
      \<or> (\<exists>r \<in> set (ti_findings item). fr_id r \<in> finding_ids))"

definition evidence_from_context ::
  "string option \<Rightarrow> string option \<Rightarrow> session_context \<Rightarrow> evidence" where
  "evidence_from_context finding_id rule_id cx =
     (case select_finding finding_id rule_id (cx_findings cx) of
        None \<Rightarrow> \<lparr>ed_session = cx_session cx, ed_finding = None, ed_events = [], ed_timeline = [], ed_decisions = [],
                ed_risk = cx_risk cx\<rparr>
      | Some f \<Rightarrow>
          (let event_ids = set (fi_events f); finding_ids = {fi_id f} in
           \<lparr>ed_session = cx_session cx, ed_finding = Some f,
            ed_events = filter (\<lambda>e. ev_id e \<in> event_ids) (cx_events cx),
            ed_timeline = filter (timeline_intersects event_ids finding_ids) (cx_timeline cx),
            ed_decisions = filter (\<lambda>d. pd_event d \<in> event_ids \<or> (\<exists>i \<in> set (pd_findings d). i \<in> finding_ids))
              (cx_decisions cx),
            ed_risk = cx_risk cx\<rparr>))"

definition evidence_from_trace ::
  "net_lib \<Rightarrow> (int \<Rightarrow> string) \<Rightarrow> string option \<Rightarrow> string option \<Rightarrow> runtime_event list option \<Rightarrow>
   'a world_scheme \<Rightarrow> (exn + evidence) \<times> 'a world_scheme" where
  "evidence_from_trace N fixed1 finding_id rule_id path w =
     (case reconstruct_from_trace N fixed1 path w of
        (Inl e, w) \<Rightarrow> (Inl e, w)
      | (Inr cx, w) \<Rightarrow> (Inr (evidence_from_context finding_id rule_id cx), w))"

section \<open>Summary\<close>

record summary =
  sm_session :: string
  sm_source_types :: "string list"
  sm_servers :: "string list"
  sm_tools :: "string list"
  sm_capabilities :: "string list"
  sm_targets :: "string list"
  sm_sensitive_targets :: "string list"
  sm_external_targets :: "string list"
  sm_finding_rules :: "string list"
  sm_risk :: risk_summary
  sm_clients :: "string list"
  sm_workspaces :: "string list"
  sm_prompts_present :: bool
  sm_endpoint_events :: nat
  sm_processes :: nat

text \<open>Missing values and empty texts are left out.\<close>

definition sorted_unique :: "string option list \<Rightarrow> string list" where
  "sorted_unique values = sort (remdups (filter (\<lambda>s. s \<noteq> []) (List.map_filter (\<lambda>v. v) values)))"

definition as_text :: "json \<Rightarrow> string option" where
  "as_text v = (case v of JStr s \<Rightarrow> Some s | _ \<Rightarrow> None)"

definition collect_targets :: "runtime_event list \<Rightarrow> finding list \<Rightarrow> timeline_item list \<Rightarrow> string list" where
  "collect_targets events findings timeline =
     sorted_unique
       (map any_target events @ map (\<lambda>f. Some (fi_target f)) findings
        @ concat (map (\<lambda>item. [Some (te_target (ti_requested item)), map_option te_target (ti_completed item)]) timeline))"

definition collect_external_targets :: "runtime_event list \<Rightarrow> finding list \<Rightarrow> string list" where
  "collect_external_targets events findings =
     sorted_unique
       (map any_target (filter (\<lambda>e. case ev_capability e of None \<Rightarrow> False | Some c \<Rightarrow> c \<in> EXTERNAL_CAPABILITIES) events)
        @ map (\<lambda>f. Some (fi_target f)) (filter (\<lambda>f. fi_rule f = ''external-data-exfiltration'') findings))"

definition metadata_names :: "jdict list \<Rightarrow> string list" where
  "metadata_names items = sorted_unique (map (\<lambda>d. as_text (dget d ''name'')) items)"

definition metadata_workspaces :: "jdict list \<Rightarrow> string list" where
  "metadata_workspaces items = sorted_unique (map (\<lambda>d. as_text (either (dget d ''root'') (dget d ''name''))) items)"

definition summary_from_context :: "session_context \<Rightarrow> summary" where
  "summary_from_context cx =
     (let events = cx_events cx; findings = cx_findings cx; metadata = cx_metadata cx in
      \<lparr>sm_session = cx_session cx,
       sm_source_types = sorted_unique (map (\<lambda>e. Some (source_type_str (ev_source e))) events),
       sm_servers = sorted_unique (map ev_server events),
       sm_tools = sorted_unique (map ev_tool events),
       sm_capabilities = sorted_unique (map ev_capability events),
       sm_targets = collect_targets events findings (cx_timeline cx),
       sm_sensitive_targets =
         sorted_unique (map (\<lambda>f. Some (fi_target f)) (filter (\<lambda>f. fi_rule f = ''sensitive-file-access'') findings)),
       sm_external_targets = collect_external_targets events findings,
       sm_finding_rules = sorted_unique (map (\<lambda>f. Some (fi_rule f)) findings),
       sm_risk = cx_risk cx,
       sm_clients = metadata_names (md_clients metadata),
       sm_workspaces = metadata_workspaces (md_workspaces metadata),
       sm_prompts_present = (md_prompts metadata \<noteq> []),
       sm_endpoint_events = length (filter (\<lambda>e. ev_source e = EndpointSensor) events),
       sm_processes = length (pt_nodes (cx_tree cx))\<rparr>)"

definition summary_from_trace ::
  "net_lib \<Rightarrow> (int \<Rightarrow> string) \<Rightarrow> runtime_event list option \<Rightarrow> 'a world_scheme \<Rightarrow> (exn + summary) \<times> 'a world_scheme" where
  "summary_from_trace N fixed1 path w =
     (case reconstruct_from_trace N fixed1 path w of
        (Inl e, w) \<Rightarrow> (Inl e, w)
      | (Inr cx, w) \<Rightarrow> (Inr (summary_from_context cx), w))"

definition summary_from_sqlite :: "string \<Rightarrow> store \<Rightarrow> summary" where
  "summary_from_sqlite session_id d = summary_from_context (reconstruct_from_sqlite session_id d)"

section \<open>Agent bill of materials\<close>

record bom_call =
  bc_request :: "request_id option"
  bc_tool :: "string option"
  bc_capability :: "string option"
  bc_target :: string
  bc_requested :: string
  bc_completed :: "string option"
  bc_decision :: "timeline_decision option"
  bc_findings :: "finding_ref list"

definition bom_tool_call :: "timeline_item \<Rightarrow> bom_call" where
  "bom_tool_call item =
     \<lparr>bc_request = ti_request item, bc_tool = ti_tool item, bc_capability = ti_capability item,
      bc_target = te_target (ti_requested item), bc_requested = te_id (ti_requested item),
      bc_completed = map_option te_id (ti_completed item), bc_decision = ti_decision item,
      bc_findings = ti_findings item\<rparr>"

text \<open>A finding without its session, a decision without its session and time.\<close>

record bom_finding =
  bf_ref :: finding_ref
  bf_confidence :: rat
  bf_events :: "string list"
  bf_capability :: string
  bf_title :: string
  bf_explanation :: string

definition bom_finding_of :: "finding \<Rightarrow> bom_finding" where
  "bom_finding_of f =
     \<lparr>bf_ref = finding_ref_of f, bf_confidence = fi_confidence f, bf_events = fi_events f,
      bf_capability = fi_capability f, bf_title = fi_title f, bf_explanation = fi_explanation f\<rparr>"

definition bom_decision_of :: "policy_decision \<Rightarrow> timeline_decision \<times> string" where
  "bom_decision_of d = (timeline_decision_of d, pd_event d)"

record inventory =
  iv_source_types :: "string list"
  iv_servers :: "string list"
  iv_tools :: "string list"
  iv_capabilities :: "string list"
  iv_targets :: "string list"
  iv_sensitive_targets :: "string list"
  iv_external_targets :: "string list"
  iv_endpoint_events :: nat
  iv_processes :: nat

record agent_bom =
  bm_version :: string
  bm_session :: string
  bm_generated_from :: string
  bm_inventory :: inventory
  bm_tree :: process_tree
  bm_correlations :: "correlation list"
  bm_context :: context_metadata
  bm_calls :: "bom_call list"
  bm_risk :: risk_summary
  bm_rules :: "string list"
  bm_findings :: "bom_finding list"
  bm_decisions :: "(timeline_decision \<times> string) list"

definition bom_from_context :: "string \<Rightarrow> session_context \<Rightarrow> agent_bom" where
  "bom_from_context generated_from cx =
     (let summary = summary_from_context cx in
      \<lparr>bm_version = ''0.1'', bm_session = cx_session cx, bm_generated_from = generated_from,
       bm_inventory =
         \<lparr>iv_source_types = sm_source_types summary, iv_servers = sm_servers summary, iv_tools = sm_tools summary,
          iv_capabilities = sm_capabilities summary, iv_targets = sm_targets summary,
          iv_sensitive_targets = sm_sensitive_targets summary, iv_external_targets = sm_external_targets summary,
          iv_endpoint_events = sm_endpoint_events summary, iv_processes = sm_processes summary\<rparr>,
       bm_tree = cx_tree cx, bm_correlations = cx_correlations cx, bm_context = cx_metadata cx,
       bm_calls = map bom_tool_call (cx_timeline cx), bm_risk = sm_risk summary, bm_rules = sm_finding_rules summary,
       bm_findings = map bom_finding_of (cx_findings cx), bm_decisions = map bom_decision_of (cx_decisions cx)\<rparr>)"

definition bom_from_trace ::
  "net_lib \<Rightarrow> (int \<Rightarrow> string) \<Rightarrow> runtime_event list option \<Rightarrow> 'a world_scheme \<Rightarrow> (exn + agent_bom) \<times> 'a world_scheme" where
  "bom_from_trace N fixed1 path w =
     (case reconstruct_from_trace N fixed1 path w of
        (Inl e, w) \<Rightarrow> (Inl e, w)
      | (Inr cx, w) \<Rightarrow> (Inr (bom_from_context ''trace'' cx), w))"

definition bom_from_sqlite :: "string \<Rightarrow> store \<Rightarrow> agent_bom" where
  "bom_from_sqlite session_id d = bom_from_context ''sqlite'' (reconstruct_from_sqlite session_id d)"

section \<open>What the views promise\<close>

lemma set_sorted_unique: "set (sorted_unique vs) = {s. s \<noteq> [] \<and> Some s \<in> set vs}"
  by (auto simp: sorted_unique_def List.map_filter_def) force

lemma sorted_unique_sorted: "sorted (sorted_unique vs)" "distinct (sorted_unique vs)"
  by (simp_all add: sorted_unique_def)

text \<open>The sensitive and the external targets of a summary are among its targets.\<close>

lemma special_targets_listed:
  "set (sm_sensitive_targets (summary_from_context cx)) \<union> set (sm_external_targets (summary_from_context cx))
     \<subseteq> set (sm_targets (summary_from_context cx))"
  by (auto simp: summary_from_context_def Let_def collect_targets_def collect_external_targets_def set_sorted_unique)

lemma hd_sort_key_least:
  assumes "sort_key k xs = y # ys"
  shows "y \<in> set xs" "x \<in> set xs \<Longrightarrow> k y \<le> k x"
proof -
  have s: "set xs = set (y # ys)" using assms by (metis set_sort)
  show "y \<in> set xs" by (simp add: s)
  have "sorted (map k (y # ys))" by (metis assms sorted_sort_key)
  then show "x \<in> set xs \<Longrightarrow> k y \<le> k x" unfolding s by auto
qed

text \<open>The evidence is about the worst finding that fits the request: it is one of the findings with
  the wanted id and rule, none of these is more severe, and of the equally severe ones it has the
  least id; the events shown are exactly those it names. There is no finding only if none fits.\<close>

theorem evidence_of_worst_finding:
  "case ed_finding (evidence_from_context i r cx) of
     None \<Rightarrow> (\<nexists>f. f \<in> set (cx_findings cx) \<and> i \<in> {None, Some (fi_id f)} \<and> r \<in> {None, Some (fi_rule f)})
   | Some f \<Rightarrow>
       f \<in> set (cx_findings cx) \<and> i \<in> {None, Some (fi_id f)} \<and> r \<in> {None, Some (fi_rule f)}
       \<and> set (ed_events (evidence_from_context i r cx)) = {e \<in> set (cx_events cx). ev_id e \<in> set (fi_events f)}
       \<and> {g \<in> set (cx_findings cx). i \<in> {None, Some (fi_id g)} \<and> r \<in> {None, Some (fi_rule g)}}
           \<subseteq> {g. severity_rank (fi_severity f) < severity_rank (fi_severity g)
                 \<or> fi_severity f = fi_severity g \<and> fi_id f \<le> fi_id g}"
proof -
  let ?fits = "\<lambda>f. i \<in> {None, Some (fi_id f)} \<and> r \<in> {None, Some (fi_rule f)}"
  define cs where "cs = filter ?fits (cx_findings cx)"
  have cs: "(case r of None \<Rightarrow> c | Some r \<Rightarrow> filter (\<lambda>f. fi_rule f = r) c) = cs"
    if "c = (case i of None \<Rightarrow> cx_findings cx | Some i \<Rightarrow> filter (\<lambda>f. fi_id f = i) (cx_findings cx))" for c
    unfolding cs_def that by (cases i; cases r) (auto intro!: filter_cong)
  have sel: "select_finding i r (cx_findings cx) = (case sort_key finding_sort_key cs of [] \<Rightarrow> None | f # _ \<Rightarrow> Some f)"
    unfolding select_finding_def Let_def cs [OF refl] ..
  show ?thesis
  proof (cases "sort_key finding_sort_key cs")
    case Nil
    then have "cs = []" by (metis length_0_conv length_sort)
    with Nil sel show ?thesis by (auto simp: evidence_from_context_def cs_def filter_empty_conv)
  next
    case (Cons f fs)
    note least = hd_sort_key_least [OF Cons]
    have rank: "severity_rank a = severity_rank b \<Longrightarrow> a = b" for a b by (cases a; cases b) auto
    have "ed_finding (evidence_from_context i r cx) = Some f"
      "ed_events (evidence_from_context i r cx) = filter (\<lambda>e. ev_id e \<in> set (fi_events f)) (cx_events cx)"
      by (simp_all add: evidence_from_context_def sel Cons Let_def)
    moreover have "f \<in> set (cx_findings cx)" "?fits f" using least(1) by (auto simp: cs_def)
    moreover have "severity_rank (fi_severity f) < severity_rank (fi_severity g)
        \<or> fi_severity f = fi_severity g \<and> fi_id f \<le> fi_id g"
      if "g \<in> set (cx_findings cx)" "?fits g" for g
      using least(2) [of g] that rank by (auto simp: cs_def finding_sort_key_def less_eq_prod_def)
    ultimately show ?thesis by auto
  qed
qed

end
