(* ===== verification/LlmConfig.thy ===== *)
theory LlmConfig
  imports PyUrl Triage
begin

text \<open>
  \<open>src/zeroadr/llm/config.py\<close> and \<open>api/llm_settings.py\<close>: the configuration of the language model comes from
  arguments, the environment and a private file, and is shown and changed through the API. The file is
  what inspecting and reading it gives; the typing of its fields by the schema library and the reading
  of a float from a text are parameters.
\<close>

section \<open>The file\<close>

record file_config =
  fc_base_url :: string
  fc_model :: string
  fc_api_key :: "string option"
  fc_language :: analysis_language
  fc_timeout :: rat
  fc_max_tokens :: int
  fc_gate_model :: "string option"
  fc_gate_timeout :: rat
  fc_gate_max_tokens :: int

text \<open>A file: its permission bits, and what reading it as JSON gives.\<close>

record config_file =
  cf_mode :: "exn + nat"
  cf_value :: "exn + json"

record config_lib =
  cl_bracketed :: "string \<Rightarrow> bool"
  cl_fields :: "json \<Rightarrow> exn + file_config"
  cl_dump :: "file_config \<Rightarrow> jdict"
  cl_float :: "string \<Rightarrow> exn + rat"

datatype config_error = LLMConfigurationError string string | ConfigRaised exn

definition DEFAULT_LLM_BASE_URL :: string where "DEFAULT_LLM_BASE_URL = ''https://api.openai.com/v1''"
definition DEFAULT_LLM_TIMEOUT :: rat where "DEFAULT_LLM_TIMEOUT = 5"
definition DEFAULT_LLM_MAX_OUTPUT_TOKENS :: int where "DEFAULT_LLM_MAX_OUTPUT_TOKENS = 1200"
definition DEFAULT_LLM_GATE_TIMEOUT :: rat where "DEFAULT_LLM_GATE_TIMEOUT = 8"
definition DEFAULT_LLM_GATE_MAX_OUTPUT_TOKENS :: int where "DEFAULT_LLM_GATE_MAX_OUTPUT_TOKENS = 256"

definition value_error :: "exn + 'x" where
  "value_error = Inl (PyError ''ValueError'')"

definition validated_base_url :: "config_lib \<Rightarrow> string \<Rightarrow> exn + string" where
  "validated_base_url L v =
     (let normalized = rstrip_if (\<lambda>c. c = CHR ''/'') (strip v) in
      case urlsplit (cl_bracketed L) normalized of
        Inl e \<Rightarrow> Inl e
      | Inr u \<Rightarrow>
          if ur_scheme u \<notin> {''http'', ''https''} \<or> ur_netloc u = [] then value_error
          else if CHR ''@'' \<in> set (ur_netloc u) then value_error
          else Inr normalized)"

definition blank_to_none :: "string option \<Rightarrow> string option" where
  "blank_to_none v = (case v of None \<Rightarrow> None | Some s \<Rightarrow> if strip s = [] then None else Some (strip s))"

text \<open>\<open>LLMFileConfig.model_validate\<close>: typing by the library, then the validators of the class, whose
  \<open>ValueError\<close> the library reports as a \<open>ValidationError\<close>.\<close>

definition model_validate :: "config_lib \<Rightarrow> json \<Rightarrow> exn + file_config" where
  "model_validate L v =
     (case cl_fields L v of
        Inl e \<Rightarrow> Inl e
      | Inr c \<Rightarrow>
          (case validated_base_url L (fc_base_url c) of
             Inl _ \<Rightarrow> Inl (PyError ''ValidationError'')
           | Inr base_url \<Rightarrow>
               if strip (fc_model c) = [] then Inl (PyError ''ValidationError'')
               else Inr (c\<lparr>fc_base_url := base_url, fc_model := strip (fc_model c),
                           fc_api_key := blank_to_none (fc_api_key c), fc_gate_model := blank_to_none (fc_gate_model c)\<rparr>)))"

definition config_problem :: "string \<Rightarrow> string \<Rightarrow> config_error + 'x" where
  "config_problem code message = Inl (LLMConfigurationError code message)"

text \<open>\<open>mode & 0o077\<close>: any right of the group or of others.\<close>

definition shared_mode :: "nat \<Rightarrow> bool" where
  "shared_mode mode = (mode mod 64 \<noteq> 0)"

definition load_llm_file_config :: "config_lib \<Rightarrow> config_file option \<Rightarrow> config_error + file_config option" where
  "load_llm_file_config L file =
     (case file of
        None \<Rightarrow> Inr None
      | Some f \<Rightarrow>
          (case cf_mode f of
             Inl _ \<Rightarrow> config_problem ''config_read_error'' ''Unable to inspect LLM config file.''
           | Inr mode \<Rightarrow>
               if shared_mode mode
               then config_problem ''insecure_config_permissions'' ''LLM config file permissions must be 0600.''
               else case (case cf_value f of Inl e \<Rightarrow> Inl e | Inr raw \<Rightarrow> model_validate L raw) of
                 Inr c \<Rightarrow> Inr (Some c)
               | Inl (PyError c) \<Rightarrow>
                   if c \<in> {''OSError'', ''JSONDecodeError'', ''ValidationError'', ''TypeError''}
                   then config_problem ''invalid_config_file'' ''LLM config file is invalid.''
                   else Inl (ConfigRaised (PyError c))
               | Inl e \<Rightarrow> Inl (ConfigRaised e)))"

text \<open>How writing the file can go: the directory cannot be made, the temporary file cannot be written,
  the rights of the replaced file cannot be set, or all is well.\<close>

datatype save_outcome = MkdirFails | WriteFails | ChmodFails | Written

definition private_file :: "config_lib \<Rightarrow> file_config \<Rightarrow> config_file" where
  "private_file L c = \<lparr>cf_mode = Inr 384, cf_value = Inr (JObj (cl_dump L c))\<rparr>"

text \<open>The configuration may come as a mapping that is still to be validated.\<close>

definition save_llm_file_config ::
  "config_lib \<Rightarrow> save_outcome \<Rightarrow> file_config + json \<Rightarrow> config_file option \<Rightarrow>
   (config_error + file_config) \<times> config_file option" where
  "save_llm_file_config L how config file =
     (case (case config of Inl c \<Rightarrow> Inr c | Inr v \<Rightarrow> model_validate L v) of
        Inl (PyError c) \<Rightarrow>
          (if c = ''ValidationError'' then config_problem ''invalid_config'' ''LLM configuration is invalid.''
           else Inl (ConfigRaised (PyError c)), file)
      | Inl e \<Rightarrow> (Inl (ConfigRaised e), file)
      | Inr c \<Rightarrow>
          (case how of
             MkdirFails \<Rightarrow> (Inl (ConfigRaised (PyError ''OSError'')), file)
           | WriteFails \<Rightarrow> (config_problem ''config_write_error'' ''Unable to save LLM config file.'', file)
           | ChmodFails \<Rightarrow> (config_problem ''config_write_error'' ''Unable to save LLM config file.'', Some (private_file L c))
           | Written \<Rightarrow> (Inr c, Some (private_file L c))))"

section \<open>Resolution\<close>

type_synonym environ = "string \<Rightarrow> string option"

fun first_value :: "string option list \<Rightarrow> string option" where
  "first_value [] = None"
| "first_value (None # vs) = first_value vs"
| "first_value (Some v # vs) = (if strip v = [] then first_value vs else Some (strip v))"

definition read_language :: "string \<Rightarrow> analysis_language option" where
  "read_language v = (if v = ''zh'' then Some Zh else if v = ''en'' then Some En else None)"

fun language_str :: "analysis_language \<Rightarrow> string" where
  "language_str Zh = ''zh''"
| "language_str En = ''en''"

fun language_value :: "string option list \<Rightarrow> config_error + analysis_language" where
  "language_value [] = Inr Zh"
| "language_value (None # vs) = language_value vs"
| "language_value (Some v # vs) =
     (case read_language v of
        Some l \<Rightarrow> Inr l
      | None \<Rightarrow> config_problem ''invalid_language'' ''LLM language must be zh or en.'')"

text \<open>A candidate for a number: text from the environment or a number.\<close>

datatype 'n setting = Unset | Text string | Number 'n

definition text_setting :: "string option \<Rightarrow> 'n setting" where
  "text_setting v = (case v of None \<Rightarrow> Unset | Some s \<Rightarrow> Text s)"

definition number_setting :: "'n option \<Rightarrow> 'n setting" where
  "number_setting v = (case v of None \<Rightarrow> Unset | Some n \<Rightarrow> Number n)"

text \<open>\<open>_positive_float\<close> and \<open>_positive_int\<close> differ in how a text is read.\<close>

fun positive_number ::
  "(string \<Rightarrow> exn + 'n::{zero, linorder}) \<Rightarrow> 'n \<Rightarrow> string \<Rightarrow> string \<Rightarrow> 'n setting list \<Rightarrow> config_error + 'n" where
  "positive_number read dflt code label [] = Inr dflt"
| "positive_number read dflt code label (v # vs) =
     (let problem = config_problem code (label @ '' must be positive.'') in
      case v of
        Unset \<Rightarrow> positive_number read dflt code label vs
      | Number n \<Rightarrow> if n \<le> 0 then problem else Inr n
      | Text t \<Rightarrow>
          if t = [] then positive_number read dflt code label vs
          else case read t of
            Inr n \<Rightarrow> if n \<le> 0 then problem else Inr n
          | Inl (PyError c) \<Rightarrow> if c \<in> {''TypeError'', ''ValueError''} then problem else Inl (ConfigRaised (PyError c))
          | Inl e \<Rightarrow> Inl (ConfigRaised e))"

definition positive_float ::
  "config_lib \<Rightarrow> rat setting list \<Rightarrow> rat \<Rightarrow> string \<Rightarrow> string \<Rightarrow> config_error + rat" where
  "positive_float L vs dflt code label = positive_number (cl_float L) dflt code label vs"

definition positive_int :: "int setting list \<Rightarrow> int \<Rightarrow> string \<Rightarrow> string \<Rightarrow> config_error + int" where
  "positive_int vs dflt code label = positive_number py_int dflt code label vs"

record llm_arguments =
  la_base_url :: "string option"
  la_model :: "string option"
  la_language :: "string option"
  la_timeout :: "rat option"
  la_max_tokens :: "int option"

definition no_arguments :: llm_arguments where
  "no_arguments = \<lparr>la_base_url = None, la_model = None, la_language = None, la_timeout = None, la_max_tokens = None\<rparr>"

text \<open>An attribute of the file's configuration, if there is one.\<close>

definition of_file :: "file_config option \<Rightarrow> (file_config \<Rightarrow> 'x option) \<Rightarrow> 'x option" where
  "of_file saved f = (case saved of None \<Rightarrow> None | Some c \<Rightarrow> f c)"

definition resolve_loaded ::
  "config_lib \<Rightarrow> llm_arguments \<Rightarrow> environ \<Rightarrow> file_config option \<Rightarrow> config_error + llm_config" where
  "resolve_loaded L A env saved =
     (let base_url = first_value [la_base_url A, env ''ZEROADR_LLM_BASE_URL'', env ''OPENAI_BASE_URL'',
            of_file saved (Some \<circ> fc_base_url), Some DEFAULT_LLM_BASE_URL];
          model = first_value [la_model A, env ''ZEROADR_LLM_MODEL'', env ''OPENAI_MODEL'', of_file saved (Some \<circ> fc_model)];
          api_key = first_value [env ''ZEROADR_LLM_API_KEY'', env ''OPENAI_API_KEY'', of_file saved fc_api_key] in
      case language_value [la_language A, env ''ZEROADR_LLM_LANGUAGE'', of_file saved (Some \<circ> language_str \<circ> fc_language)] of
        Inl e \<Rightarrow> Inl e
      | Inr language \<Rightarrow>
      (case positive_float L [number_setting (la_timeout A), text_setting (env ''ZEROADR_LLM_TIMEOUT''),
              number_setting (of_file saved (Some \<circ> fc_timeout))] DEFAULT_LLM_TIMEOUT ''invalid_timeout'' ''LLM timeout'' of
        Inl e \<Rightarrow> Inl e
      | Inr timeout \<Rightarrow>
      (case positive_int [number_setting (la_max_tokens A), text_setting (env ''ZEROADR_LLM_MAX_OUTPUT_TOKENS''),
              number_setting (of_file saved (Some \<circ> fc_max_tokens))]
              DEFAULT_LLM_MAX_OUTPUT_TOKENS ''invalid_max_output_tokens'' ''LLM max output tokens'' of
        Inl e \<Rightarrow> Inl e
      | Inr max_tokens \<Rightarrow>
      (case model of
        None \<Rightarrow> config_problem ''missing_model'' ''LLM model is required via --model, ZEROADR_LLM_MODEL, or OPENAI_MODEL.''
      | Some m \<Rightarrow>
      (case api_key of
        None \<Rightarrow> config_problem ''missing_api_key'' ''LLM API key is required via ZEROADR_LLM_API_KEY or OPENAI_API_KEY.''
      | Some k \<Rightarrow>
      (case validated_base_url L (str_or base_url []) of
        Inl e \<Rightarrow> Inl (ConfigRaised e)
      | Inr u \<Rightarrow>
          Inr \<lparr>lc_base_url = u, lc_api_key = k, lc_model = m, lc_language = language, lc_timeout = timeout,
               lc_max_tokens = max_tokens\<rparr>))))))"

definition resolve_llm_config ::
  "config_lib \<Rightarrow> llm_arguments \<Rightarrow> environ \<Rightarrow> config_file option \<Rightarrow> config_error + llm_config" where
  "resolve_llm_config L A env file =
     (case load_llm_file_config L file of Inl e \<Rightarrow> Inl e | Inr saved \<Rightarrow> resolve_loaded L A env saved)"

text \<open>The gate takes endpoint and key from the general configuration; the file is read a second time.\<close>

definition resolve_llm_gate_config ::
  "config_lib \<Rightarrow> environ \<Rightarrow> config_file option \<Rightarrow> config_file option \<Rightarrow> config_error + openai_config" where
  "resolve_llm_gate_config L env file file_again =
     (case resolve_llm_config L no_arguments env file of
        Inl e \<Rightarrow> Inl e
      | Inr base \<Rightarrow>
     (case load_llm_file_config L file_again of
        Inl e \<Rightarrow> Inl e
      | Inr saved \<Rightarrow>
     (case positive_float L [text_setting (env ''ZEROADR_LLM_GATE_TIMEOUT''),
             number_setting (of_file saved (Some \<circ> fc_gate_timeout))]
             DEFAULT_LLM_GATE_TIMEOUT ''invalid_gate_timeout'' ''LLM Gate timeout'' of
        Inl e \<Rightarrow> Inl e
      | Inr timeout \<Rightarrow>
     (case positive_int [text_setting (env ''ZEROADR_LLM_GATE_MAX_OUTPUT_TOKENS''),
             number_setting (of_file saved (Some \<circ> fc_gate_max_tokens))]
             DEFAULT_LLM_GATE_MAX_OUTPUT_TOKENS ''invalid_gate_max_output_tokens'' ''LLM Gate max output tokens'' of
        Inl e \<Rightarrow> Inl e
      | Inr max_tokens \<Rightarrow>
          Inr \<lparr>oa_base_url = lc_base_url base, oa_api_key = lc_api_key base,
               oa_model = str_or (first_value [env ''ZEROADR_LLM_GATE_MODEL'', of_file saved fc_gate_model, Some (lc_model base)]) [],
               oa_timeout = timeout, oa_max_tokens = max_tokens\<rparr>))))"

section \<open>The settings of the API\<close>

text \<open>A value and the place it comes from.\<close>

fun effective_value :: "('n setting \<times> string) list \<Rightarrow> 'n setting \<times> string" where
  "effective_value [] = (Unset, ''unset'')"
| "effective_value ((Unset, source) # vs) = effective_value vs"
| "effective_value ((Text s, source) # vs) = (if strip s = [] then effective_value vs else (Text (strip s), source))"
| "effective_value ((Number n, source) # vs) = (Number n, source)"

definition effective_text :: "(string option \<times> string) list \<Rightarrow> string option \<times> string" where
  "effective_text vs =
     (case effective_value (map (\<lambda>(v, source). (text_setting v :: unit setting, source)) vs) of
        (Text s, source) \<Rightarrow> (Some s, source)
      | (_, source) \<Rightarrow> (None, source))"

definition setting_number :: "(string \<Rightarrow> exn + 'n) \<Rightarrow> 'n \<Rightarrow> 'n setting \<Rightarrow> exn + 'n" where
  "setting_number read dflt v = (case v of Unset \<Rightarrow> Inr dflt | Text s \<Rightarrow> read s | Number n \<Rightarrow> Inr n)"

text \<open>\<open>values.get(name) or fallback\<close>, then \<open>float\<close> or \<open>int\<close>.\<close>

definition env_number :: "(string \<Rightarrow> exn + 'n) \<Rightarrow> string option \<Rightarrow> 'n \<Rightarrow> exn + 'n" where
  "env_number read v fallback =
     (case v of Some s \<Rightarrow> if s = [] then Inr fallback else read s | None \<Rightarrow> Inr fallback)"

definition mask_secret :: "string option \<Rightarrow> string option" where
  "mask_secret v =
     (case v of
        None \<Rightarrow> None
      | Some s \<Rightarrow> if s = [] then None else Some (replicate 8 (code_point 8226) @ (if 4 \<le> length s then last_n 4 s else s)))"

record shown_config =
  sh_base_url :: string
  sh_model :: string
  sh_language :: string
  sh_timeout :: rat
  sh_max_tokens :: int
  sh_gate_model :: string
  sh_gate_timeout :: rat
  sh_gate_max_tokens :: int

record config_view =
  vw_saved :: shown_config
  vw_effective :: shown_config
  vw_sources :: "(string \<times> string) list"
  vw_key_configured :: bool
  vw_key_saved :: bool
  vw_key_masked :: "string option"
  vw_override :: bool

definition saved_shown :: "file_config option \<Rightarrow> shown_config" where
  "saved_shown saved =
     (case saved of
        None \<Rightarrow> \<lparr>sh_base_url = DEFAULT_LLM_BASE_URL, sh_model = [], sh_language = ''zh'', sh_timeout = DEFAULT_LLM_TIMEOUT,
                 sh_max_tokens = DEFAULT_LLM_MAX_OUTPUT_TOKENS, sh_gate_model = [], sh_gate_timeout = 8,
                 sh_gate_max_tokens = 256\<rparr>
      | Some c \<Rightarrow> \<lparr>sh_base_url = fc_base_url c, sh_model = fc_model c, sh_language = language_str (fc_language c),
                   sh_timeout = fc_timeout c, sh_max_tokens = fc_max_tokens c, sh_gate_model = str_or (fc_gate_model c) [],
                   sh_gate_timeout = fc_gate_timeout c, sh_gate_max_tokens = fc_gate_max_tokens c\<rparr>)"

definition key_candidates :: "environ \<Rightarrow> file_config option \<Rightarrow> (string option \<times> string) list" where
  "key_candidates env saved =
     [(env ''ZEROADR_LLM_API_KEY'', ''ZEROADR_LLM_API_KEY''), (env ''OPENAI_API_KEY'', ''OPENAI_API_KEY''),
      (of_file saved fc_api_key, ''file''), (None, ''unset'')]"

text \<open>The part of the view that does not look at the key.\<close>

definition effective_shown ::
  "config_lib \<Rightarrow> environ \<Rightarrow> file_config option \<Rightarrow> exn + shown_config \<times> (string \<times> string) list" where
  "effective_shown L env saved =
     (let (base_url, base_url_source) = effective_text
            [(env ''ZEROADR_LLM_BASE_URL'', ''ZEROADR_LLM_BASE_URL''), (env ''OPENAI_BASE_URL'', ''OPENAI_BASE_URL''),
             (of_file saved (Some \<circ> fc_base_url), ''file''), (Some DEFAULT_LLM_BASE_URL, ''default'')];
          (model, model_source) = effective_text
            [(env ''ZEROADR_LLM_MODEL'', ''ZEROADR_LLM_MODEL''), (env ''OPENAI_MODEL'', ''OPENAI_MODEL''),
             (of_file saved (Some \<circ> fc_model), ''file''), (None, ''unset'')];
          (language, language_source) = effective_text
            [(env ''ZEROADR_LLM_LANGUAGE'', ''ZEROADR_LLM_LANGUAGE''),
             (of_file saved (Some \<circ> language_str \<circ> fc_language), ''file''), (Some ''zh'', ''default'')];
          (timeout, timeout_source) = effective_value
            [(text_setting (env ''ZEROADR_LLM_TIMEOUT''), ''ZEROADR_LLM_TIMEOUT''),
             (number_setting (of_file saved (Some \<circ> fc_timeout)), ''file''), (Number DEFAULT_LLM_TIMEOUT, ''default'')];
          (max_tokens, max_tokens_source) = effective_value
            [(text_setting (env ''ZEROADR_LLM_MAX_OUTPUT_TOKENS''), ''ZEROADR_LLM_MAX_OUTPUT_TOKENS''),
             (number_setting (of_file saved (Some \<circ> fc_max_tokens)), ''file''),
             (Number DEFAULT_LLM_MAX_OUTPUT_TOKENS, ''default'')];
          gate_model = str_or (env ''ZEROADR_LLM_GATE_MODEL'') (str_or (of_file saved fc_gate_model) (str_or model [])) in
      case setting_number (cl_float L) DEFAULT_LLM_TIMEOUT timeout of Inl e \<Rightarrow> Inl e | Inr timeout \<Rightarrow>
      (case setting_number py_int DEFAULT_LLM_MAX_OUTPUT_TOKENS max_tokens of Inl e \<Rightarrow> Inl e | Inr max_tokens \<Rightarrow>
      (case env_number (cl_float L) (env ''ZEROADR_LLM_GATE_TIMEOUT'') (sh_gate_timeout (saved_shown saved)) of
         Inl e \<Rightarrow> Inl e
       | Inr gate_timeout \<Rightarrow>
      (case env_number py_int (env ''ZEROADR_LLM_GATE_MAX_OUTPUT_TOKENS'') (sh_gate_max_tokens (saved_shown saved)) of
         Inl e \<Rightarrow> Inl e
       | Inr gate_max_tokens \<Rightarrow>
           Inr (\<lparr>sh_base_url = str_or base_url [], sh_model = str_or model [], sh_language = str_or language [],
                 sh_timeout = timeout, sh_max_tokens = max_tokens, sh_gate_model = gate_model,
                 sh_gate_timeout = gate_timeout, sh_gate_max_tokens = gate_max_tokens\<rparr>,
                [(''base_url'', base_url_source), (''model'', model_source), (''language'', language_source),
                 (''timeout'', timeout_source), (''max_output_tokens'', max_tokens_source)])))))"

definition build_llm_config_view :: "config_lib \<Rightarrow> environ \<Rightarrow> config_file option \<Rightarrow> config_error + config_view" where
  "build_llm_config_view L env file =
     (case load_llm_file_config L file of
        Inl e \<Rightarrow> Inl e
      | Inr saved \<Rightarrow>
          (let (api_key, api_key_source) = effective_text (key_candidates env saved); saved_key = of_file saved fc_api_key in
           case effective_shown L env saved of
             Inl e \<Rightarrow> Inl (ConfigRaised e)
           | Inr (shown, sources) \<Rightarrow>
               Inr \<lparr>vw_saved = saved_shown saved, vw_effective = shown,
                    vw_sources = sources @ [(''api_key'', api_key_source)],
                    vw_key_configured = (str_or api_key [] \<noteq> []), vw_key_saved = (str_or saved_key [] \<noteq> []),
                    vw_key_masked = mask_secret (if str_or saved_key [] \<noteq> [] then saved_key else api_key),
                    vw_override = list_ex (\<lambda>(_, source). source \<notin> {''file'', ''default'', ''unset''})
                      (sources @ [(''api_key'', api_key_source)])\<rparr>))"

definition CONFIG_FIELDS :: "string list" where
  "CONFIG_FIELDS =
     [''schema_version'', ''base_url'', ''model'', ''api_key'', ''language'', ''timeout'', ''max_output_tokens'',
      ''gate_model'', ''gate_timeout'', ''gate_max_output_tokens'', ''clear_api_key'']"

definition default_settings :: jdict where
  "default_settings =
     [(''schema_version'', JStr ''0.1''), (''base_url'', JStr DEFAULT_LLM_BASE_URL), (''model'', JStr []), (''api_key'', JNull),
      (''language'', JStr ''zh''), (''timeout'', decimal_json 5), (''max_output_tokens'', JInt DEFAULT_LLM_MAX_OUTPUT_TOKENS)]"

definition PLAIN_FIELDS :: "string list" where
  "PLAIN_FIELDS =
     [''schema_version'', ''base_url'', ''model'', ''language'', ''timeout'', ''max_output_tokens'',
      ''gate_model'', ''gate_timeout'', ''gate_max_output_tokens'']"

definition copy_field :: "jdict \<Rightarrow> string \<Rightarrow> jdict \<Rightarrow> jdict" where
  "copy_field payload field existing =
     (case map_of payload field of None \<Rightarrow> existing | Some v \<Rightarrow> dset field v existing)"

definition merge_settings :: "jdict \<Rightarrow> jdict \<Rightarrow> jdict" where
  "merge_settings payload existing =
     (let existing = fold (copy_field payload) PLAIN_FIELDS existing in
      if dget payload ''clear_api_key'' = JBool True then dset ''api_key'' JNull existing
      else case dget payload ''api_key'' of
        JStr k \<Rightarrow> if strip k = [] then existing else dset ''api_key'' (JStr k) existing
      | _ \<Rightarrow> existing)"

definition update_llm_config ::
  "config_lib \<Rightarrow> environ \<Rightarrow> save_outcome \<Rightarrow> jdict \<Rightarrow> config_file option \<Rightarrow>
   (config_error + config_view) \<times> config_file option" where
  "update_llm_config L env how payload file =
     (if \<not> set (map fst payload) \<subseteq> set CONFIG_FIELDS
      then (config_problem ''invalid_config'' ''LLM configuration contains unknown fields.'', file)
      else case load_llm_file_config L file of
        Inl e \<Rightarrow> (Inl e, file)
      | Inr saved \<Rightarrow>
          (let existing = (case saved of None \<Rightarrow> default_settings | Some c \<Rightarrow> cl_dump L c) in
           case model_validate L (JObj (merge_settings payload existing)) of
             Inl e \<Rightarrow> (Inl (ConfigRaised e), file)
           | Inr c \<Rightarrow>
               (case save_llm_file_config L how (Inl c) file of
                  (Inl e, file) \<Rightarrow> (Inl e, file)
                | (Inr _, file) \<Rightarrow> (build_llm_config_view L env file, file))))"

record connection_result =
  cn_target :: string
  cn_model :: string
  cn_latency_ms :: int
  cn_request :: "string option"

text \<open>\<open>test_llm_config\<close>: the gate is tested with an adjudication, the triage with a connection test. What
  the provider raises passes through.\<close>

definition test_llm_config ::
  "config_lib \<Rightarrow> http_post \<Rightarrow> schema \<Rightarrow> transport \<Rightarrow> environ \<Rightarrow> config_file option \<Rightarrow> string \<Rightarrow> 'a triage_state_scheme \<Rightarrow>
   (config_error + connection_result) \<times> 'a triage_state_scheme" where
  "test_llm_config L post S T env file target s =
     (if target \<notin> {''triage'', ''gate''}
      then (config_problem ''invalid_test_target'' ''LLM connection test target must be triage or gate.'', s)
      else if target = ''gate''
      then case resolve_llm_gate_config L env file file of
        Inl e \<Rightarrow> (Inl e, s)
      | Inr gate \<Rightarrow>
          (case openai_adjudicate post S gate
                  [(''policy_id'', JStr ''connection-test''),
                   (''event'', JObj [(''event_id'', JStr ''event_connection_test''), (''event_type'', JStr ''tool.call.requested''),
                      (''capability'', JStr ''connection.test'')]),
                   (''findings'', JList [])] [''event_connection_test''] s of
             (Inl e, s) \<Rightarrow> (Inl (ConfigRaised e), s)
           | (Inr a, s) \<Rightarrow>
               (Inr \<lparr>cn_target = ''gate'', cn_model = oa_model gate, cn_latency_ms = pa_latency_ms a,
                     cn_request = pa_request a\<rparr>, s))
      else case resolve_llm_config L no_arguments env file of
        Inl e \<Rightarrow> (Inl e, s)
      | Inr config \<Rightarrow>
          (case check_connection T (default_provider config) (lc_model config) (lc_max_tokens config) s of
             (Inl e, s) \<Rightarrow> (Inl (ConfigRaised e), s)
           | (Inr (request_id, latency), s) \<Rightarrow>
               (Inr \<lparr>cn_target = ''triage'', cn_model = lc_model config, cn_latency_ms = latency, cn_request = request_id\<rparr>, s)))"

section \<open>What a resolved configuration holds\<close>

lemma first_value_tight: "first_value vs = Some v \<Longrightarrow> v \<noteq> [] \<and> (\<exists>w \<in> set vs. \<exists>x. w = Some x \<and> v = strip x)"
  by (induction vs rule: first_value.induct) (auto split: if_splits)

lemma first_value_none: "first_value vs = None \<longleftrightarrow> (\<forall>x. Some x \<in> set vs \<longrightarrow> strip x = [])"
  by (induction vs rule: first_value.induct) auto

lemma positive_number_positive: "positive_number rd dflt code label vs = Inr n \<Longrightarrow> 0 < dflt \<Longrightarrow> 0 < n"
  by (induction vs) (auto simp: config_problem_def Let_def split: setting.splits if_splits sum.splits exn.splits)

lemma positive_settings:
  "positive_float L vs x code label = Inr r \<Longrightarrow> 0 < x \<Longrightarrow> 0 < r"
  "positive_int ws y code label = Inr i \<Longrightarrow> 0 < y \<Longrightarrow> 0 < i"
  by (auto simp: positive_float_def positive_int_def dest: positive_number_positive)

lemma default_settings_positive: "0 < DEFAULT_LLM_TIMEOUT" "0 < DEFAULT_LLM_MAX_OUTPUT_TOKENS"
  by (simp_all add: DEFAULT_LLM_TIMEOUT_def DEFAULT_LLM_MAX_OUTPUT_TOKENS_def)

text \<open>A usable endpoint: HTTP or HTTPS, with a host and without a user or password.\<close>

definition good_endpoint :: "config_lib \<Rightarrow> string \<Rightarrow> bool" where
  "good_endpoint L u =
     (case urlsplit (cl_bracketed L) u of
        Inl _ \<Rightarrow> False
      | Inr p \<Rightarrow> ur_scheme p \<in> {''http'', ''https''} \<and> ur_netloc p \<noteq> [] \<and> CHR ''@'' \<notin> set (ur_netloc p))"

lemma validated_base_url_good: "validated_base_url L v = Inr u \<Longrightarrow> good_endpoint L u"
  by (auto simp: validated_base_url_def good_endpoint_def value_error_def Let_def split: sum.splits if_splits)

definition good_config :: "config_lib \<Rightarrow> llm_config \<Rightarrow> bool" where
  "good_config L C =
     (good_endpoint L (lc_base_url C) \<and> lc_api_key C \<noteq> [] \<and> lc_model C \<noteq> [] \<and> 0 < lc_timeout C \<and> 0 < lc_max_tokens C)"

lemma resolve_loaded_good:
  assumes "resolve_loaded L A env saved = Inr C"
  shows "good_config L C"
    and "first_value [env ''ZEROADR_LLM_API_KEY'', env ''OPENAI_API_KEY'', of_file saved fc_api_key] = Some (lc_api_key C)"
    and "first_value [la_model A, env ''ZEROADR_LLM_MODEL'', env ''OPENAI_MODEL'', of_file saved (Some \<circ> fc_model)] = Some (lc_model C)"
  using assms
  by (auto simp: resolve_loaded_def good_config_def config_problem_def Let_def default_settings_positive
      simp del: first_value.simps
      dest: first_value_tight validated_base_url_good positive_settings(1) [OF _ default_settings_positive(1)]
        positive_settings(2) [OF _ default_settings_positive(2)] split: sum.splits option.splits)


section \<open>A shared file is refused\<close>

text \<open>A configuration file on which group or others have any right is neither used, shown nor changed:
  every operation reports the rights, even if the environment holds a complete configuration.\<close>

theorem shared_file_is_refused:
  assumes "cf_mode f = Inr mode" and "shared_mode mode" and "set (map fst payload) \<subseteq> set CONFIG_FIELDS"
  shows "let problem = LLMConfigurationError ''insecure_config_permissions'' ''LLM config file permissions must be 0600.'' in
    resolve_llm_config L A env (Some f) = Inl problem
    \<and> resolve_llm_gate_config L env (Some f) (Some f) = Inl problem
    \<and> build_llm_config_view L env (Some f) = Inl problem
    \<and> update_llm_config L env how payload (Some f) = (Inl problem, Some f)"
  using assms
  by (simp add: load_llm_file_config_def resolve_llm_config_def resolve_llm_gate_config_def build_llm_config_view_def
      update_llm_config_def config_problem_def Let_def)

section \<open>Saving and loading\<close>

lemma strip_strip: "strip (strip s) = strip s"
proof -
  have r: "rstrip_if p (rstrip_if p t) = rstrip_if p t" for p t
    by (simp add: rstrip_if_def dropWhile_idem)
  have l: "lstrip (rstrip_if is_space t) = rstrip_if is_space t" if "lstrip t = t" for t
  proof (cases "rstrip_if is_space t")
    case (Cons c cs)
    have "\<exists>u. t = rstrip_if is_space t @ u"
      unfolding rstrip_if_def by (metis rev_append rev_rev_ident takeWhile_dropWhile_id)
    then obtain u where "t = c # cs @ u" using Cons by auto
    with that have "\<not> is_space c" by (auto simp: lstrip_def split: if_splits) (metis dropWhile_eq_Cons_conv list.sel(1))
    then show ?thesis by (simp add: Cons lstrip_def)
  qed (simp add: lstrip_def)
  have "lstrip (lstrip s) = lstrip s" by (simp add: lstrip_def dropWhile_idem)
  from l [OF this] show ?thesis by (simp add: strip_def r)
qed

text \<open>What the validators of the class let through, and leave as it is.\<close>

definition normal_config :: "config_lib \<Rightarrow> file_config \<Rightarrow> bool" where
  "normal_config L c =
     (good_endpoint L (fc_base_url c) \<and> rstrip_if (\<lambda>x. x = CHR ''/'') (fc_base_url c) = fc_base_url c
      \<and> fc_model c \<noteq> [] \<and> strip (fc_model c) = fc_model c
      \<and> blank_to_none (fc_api_key c) = fc_api_key c \<and> blank_to_none (fc_gate_model c) = fc_gate_model c)"

lemma blank_to_none_idem: "blank_to_none (blank_to_none v) = blank_to_none v"
  by (auto simp: blank_to_none_def strip_strip split: option.splits)

lemma model_validate_normal:
  assumes "model_validate L v = Inr c"
  shows "normal_config L c"
proof -
  from assms obtain c0 u where c0: "cl_fields L v = Inr c0" "validated_base_url L (fc_base_url c0) = Inr u" "strip (fc_model c0) \<noteq> []"
      "c = c0\<lparr>fc_base_url := u, fc_model := strip (fc_model c0), fc_api_key := blank_to_none (fc_api_key c0),
              fc_gate_model := blank_to_none (fc_gate_model c0)\<rparr>"
    by (auto simp: model_validate_def split: sum.splits if_splits)
  have "u = rstrip_if (\<lambda>x. x = CHR ''/'') (strip (fc_base_url c0))"
    using c0(2) by (auto simp: validated_base_url_def value_error_def Let_def split: sum.splits if_splits)
  then have "rstrip_if (\<lambda>x. x = CHR ''/'') u = u" by (simp add: rstrip_if_def dropWhile_idem)
  with c0 validated_base_url_good [OF c0(2)] show ?thesis
    by (simp add: normal_config_def strip_strip blank_to_none_idem)
qed

lemma model_validate_fixed:
  assumes "normal_config L c" "strip (fc_base_url c) = fc_base_url c" "cl_fields L v = Inr c"
  shows "model_validate L v = Inr c"
proof -
  have "validated_base_url L (fc_base_url c) = Inr (fc_base_url c)"
    using assms(1,2) by (auto simp: validated_base_url_def normal_config_def good_endpoint_def value_error_def Let_def split: sum.splits)
  with assms show ?thesis by (simp add: model_validate_def normal_config_def)
qed


section \<open>The key stays hidden\<close>

lemma of_file_update [simp]:
  "of_file (Some (c\<lparr>fc_api_key := k\<rparr>)) (Some \<circ> fc_base_url) = of_file (Some c) (Some \<circ> fc_base_url)"
  "of_file (Some (c\<lparr>fc_api_key := k\<rparr>)) (Some \<circ> fc_model) = of_file (Some c) (Some \<circ> fc_model)"
  "of_file (Some (c\<lparr>fc_api_key := k\<rparr>)) (Some \<circ> language_str \<circ> fc_language) = of_file (Some c) (Some \<circ> language_str \<circ> fc_language)"
  "of_file (Some (c\<lparr>fc_api_key := k\<rparr>)) (Some \<circ> fc_timeout) = of_file (Some c) (Some \<circ> fc_timeout)"
  "of_file (Some (c\<lparr>fc_api_key := k\<rparr>)) (Some \<circ> fc_max_tokens) = of_file (Some c) (Some \<circ> fc_max_tokens)"
  "of_file (Some (c\<lparr>fc_api_key := k\<rparr>)) fc_gate_model = of_file (Some c) fc_gate_model"
  "of_file (Some (c\<lparr>fc_api_key := k\<rparr>)) fc_api_key = k"
  by (simp_all add: of_file_def)

lemma saved_shown_update [simp]: "saved_shown (Some (c\<lparr>fc_api_key := k\<rparr>)) = saved_shown (Some c)"
  by (simp add: saved_shown_def)

lemma effective_shown_update: "effective_shown L env (Some (c\<lparr>fc_api_key := k\<rparr>)) = effective_shown L env (Some c)"
  by (simp only: effective_shown_def of_file_update saved_shown_update)

lemma effective_key:
  "strip k \<noteq> [] \<Longrightarrow> \<exists>b. \<forall>a. strip a \<noteq> [] \<longrightarrow>
     effective_text (key_candidates env (Some (c\<lparr>fc_api_key := Some a\<rparr>)))
       = (case b of None \<Rightarrow> (Some (strip a), ''file'') | Some (x, source) \<Rightarrow> (Some x, source)) \<and> (\<forall>x source. b = Some (x, source) \<longrightarrow> x \<noteq> [])"
proof (cases "case env ''ZEROADR_LLM_API_KEY'' of None \<Rightarrow> [] | Some x \<Rightarrow> strip x")
  case (Cons y ys)
  then obtain x where "env ''ZEROADR_LLM_API_KEY'' = Some x" "strip x = y # ys" by (auto split: option.splits)
  then show ?thesis
    by (intro exI [of _ "Some (strip x, ''ZEROADR_LLM_API_KEY'')"])
      (simp add: effective_text_def key_candidates_def text_setting_def)
next
  case Nil
  show ?thesis
  proof (cases "case env ''OPENAI_API_KEY'' of None \<Rightarrow> [] | Some x \<Rightarrow> strip x")
    case (Cons y ys)
    then obtain x where "env ''OPENAI_API_KEY'' = Some x" "strip x = y # ys" by (auto split: option.splits)
    with Nil show ?thesis
      by (intro exI [of _ "Some (strip x, ''OPENAI_API_KEY'')"])
        (auto simp: effective_text_def key_candidates_def text_setting_def split: option.splits)
  next
    case n: Nil
    with Nil show ?thesis
      by (intro exI [of _ None]) (auto simp: effective_text_def key_candidates_def text_setting_def split: option.splits)
  qed
qed

text \<open>The view of the configuration depends on a saved key only through its last four characters: two
  files that differ in keys of at least four characters with the same ending look the same.\<close>

theorem view_hides_key:
  assumes "load_llm_file_config L file1 = Inr (Some (c\<lparr>fc_api_key := Some k1\<rparr>))"
    and "load_llm_file_config L file2 = Inr (Some (c\<lparr>fc_api_key := Some k2\<rparr>))"
    and "strip k1 \<noteq> []" and "strip k2 \<noteq> []" and "4 \<le> length k1" and "4 \<le> length k2" and "last_n 4 k1 = last_n 4 k2"
  shows "build_llm_config_view L env file1 = build_llm_config_view L env file2"
proof -
  obtain b where b: "\<And>a. strip a \<noteq> [] \<Longrightarrow>
     effective_text (key_candidates env (Some (c\<lparr>fc_api_key := Some a\<rparr>)))
       = (case b of None \<Rightarrow> (Some (strip a), ''file'') | Some (x, source) \<Rightarrow> (Some x, source))"
      "\<And>x source. b = Some (x, source) \<Longrightarrow> x \<noteq> []"
    using effective_key [OF assms(3)] assms(3) by blast
  have k: "k1 \<noteq> []" "k2 \<noteq> []" using assms(5,6) by auto
  have m: "mask_secret (Some k1) = mask_secret (Some k2)" using assms(5-7) k by (simp add: mask_secret_def)
  show ?thesis
    using b(1) [OF assms(3)] b(1) [OF assms(4)] b(2) k m assms(3,4)
    by (cases b) (auto simp: build_llm_config_view_def assms(1,2) effective_shown_update str_or_def Let_def split: sum.splits)
qed

text \<open>A key of at most four characters is shown whole.\<close>

lemma short_key_is_shown:
  assumes "load_llm_file_config L file = Inr (Some c)" "fc_api_key c = Some k" "k \<noteq> []" "length k \<le> 4"
    and "build_llm_config_view L env file = Inr v"
  shows "vw_key_masked v = Some (replicate 8 (code_point 8226) @ k)"
  using assms
  by (auto simp: build_llm_config_view_def of_file_def str_or_def mask_secret_def last_n_def Let_def
      split: sum.splits prod.splits)

text \<open>Without a new key and without the wish to clear it the saved key stays.\<close>

lemma copy_field_other: "field \<noteq> k \<Longrightarrow> dget (copy_field payload field d) k = dget d k"
  by (auto simp: copy_field_def dget_def map_of_dset split: option.splits)

lemma merge_keeps_key:
  assumes "dget payload ''clear_api_key'' \<noteq> JBool True"
    and "case dget payload ''api_key'' of JStr k \<Rightarrow> strip k = [] | _ \<Rightarrow> True"
  shows "dget (merge_settings payload existing) ''api_key'' = dget existing ''api_key''"
  using assms by (auto simp: merge_settings_def PLAIN_FIELDS_def copy_field_other split: json.splits)

section \<open>A concrete configuration\<close>

definition saved0 :: file_config where
  "saved0 = \<lparr>fc_base_url = ''https://h/v1'', fc_model = ''m'', fc_api_key = Some ''secret99'', fc_language = En, fc_timeout = 5,
     fc_max_tokens = 10, fc_gate_model = None, fc_gate_timeout = 8, fc_gate_max_tokens = 20\<rparr>"

definition lib_of :: "file_config \<Rightarrow> config_lib" where
  "lib_of c = \<lparr>cl_bracketed = (\<lambda>_. False), cl_fields = (\<lambda>v. case v of JStr k \<Rightarrow> Inr (c\<lparr>fc_api_key := Some k\<rparr>) | _ \<Rightarrow> Inr c),
     cl_dump = (\<lambda>_. []), cl_float = (\<lambda>_. value_error)\<rparr>"

definition file_with :: "json \<Rightarrow> config_file option" where
  "file_with v = Some \<lparr>cf_mode = Inr 384, cf_value = Inr v\<rparr>"

lemma lib_of_simps: "cl_fields (lib_of c) (JObj d) = Inr c" "cl_fields (lib_of c) (JStr k) = Inr (c\<lparr>fc_api_key := Some k\<rparr>)"
  "cl_dump (lib_of c) x = []"
  by (simp_all add: lib_of_def)

lemma saved0_fields:
  "fc_base_url saved0 = ''https://h/v1''" "fc_model saved0 = ''m''" "fc_api_key saved0 = Some ''secret99''"
  "fc_gate_model saved0 = None"
  by (simp_all add: saved0_def)

lemma saved0_valid:
  "model_validate (lib_of saved0) (JObj []) = Inr saved0"
  "strip k = k \<Longrightarrow> k \<noteq> [] \<Longrightarrow> model_validate (lib_of saved0) (JStr k) = Inr (saved0\<lparr>fc_api_key := Some k\<rparr>)"
proof -
  have u: "validated_base_url (lib_of saved0) ''https://h/v1'' = Inr ''https://h/v1''" by code_simp
  have b: "blank_to_none (Some ''secret99'') = Some ''secret99''" "strip ''m'' = ''m''" by code_simp+
  have n: "blank_to_none None = None" by (simp add: blank_to_none_def)
  have same: "saved0\<lparr>fc_base_url := ''https://h/v1'', fc_model := ''m'', fc_api_key := x, fc_gate_model := None\<rparr> = saved0\<lparr>fc_api_key := x\<rparr>" for x
    by (simp add: saved0_def)
  have "saved0\<lparr>fc_api_key := Some ''secret99''\<rparr> = saved0" by (simp add: saved0_def)
  with same show "model_validate (lib_of saved0) (JObj []) = Inr saved0"
    by (simp add: model_validate_def lib_of_simps saved0_fields u b n)
  show "model_validate (lib_of saved0) (JStr k) = Inr (saved0\<lparr>fc_api_key := Some k\<rparr>)" if k: "strip k = k" "k \<noteq> []"
  proof -
    have "blank_to_none (Some k) = Some k" using k by (simp add: blank_to_none_def)
    then show ?thesis using same by (simp add: model_validate_def lib_of_simps saved0_fields u b n)
  qed
qed

lemma saved0_loaded:
  "load_llm_file_config (lib_of saved0) (file_with (JObj [])) = Inr (Some saved0)"
  "strip k = k \<Longrightarrow> k \<noteq> [] \<Longrightarrow>
    load_llm_file_config (lib_of saved0) (file_with (JStr k)) = Inr (Some (saved0\<lparr>fc_api_key := Some k\<rparr>))"
  by (simp_all add: load_llm_file_config_def file_with_def shared_mode_def saved0_valid)

lemma saved0_resolved:
  "\<exists>C. resolve_llm_config (lib_of saved0) no_arguments (\<lambda>_. None) (file_with (JObj [])) = Inr C"
proof -
  have "\<not> isl (resolve_loaded (lib_of saved0) no_arguments (\<lambda>_. None) (Some saved0))" by code_simp
  then show ?thesis
    by (cases "resolve_loaded (lib_of saved0) no_arguments (\<lambda>_. None) (Some saved0)")
      (simp_all add: resolve_llm_config_def saved0_loaded)
qed



theorem view_hides_key_witness:
  "build_llm_config_view (lib_of saved0) (\<lambda>_. None) (file_with (JStr ''aaaa9999''))
     = build_llm_config_view (lib_of saved0) (\<lambda>_. None) (file_with (JStr ''b9999''))"
proof -
  have "strip ''aaaa9999'' = ''aaaa9999''" "strip ''b9999'' = ''b9999''" by code_simp+
  then show ?thesis
    using view_hides_key [OF saved0_loaded(2) saved0_loaded(2), of "''aaaa9999''" "''b9999''"] by (simp add: last_n_def)
qed

text \<open>An endpoint of another scheme in the environment is no configuration error but a bare
  \<open>ValueError\<close>, whatever the file holds: callers that catch configuration errors do not expect it.\<close>

theorem bad_endpoint_escapes:
  assumes "load_llm_file_config L file = Inr (Some c)" and "0 < fc_timeout c" and "0 < fc_max_tokens c"
    and "strip (fc_model c) \<noteq> []" and "fc_api_key c = Some k" and "strip k \<noteq> []"
  shows "resolve_llm_config L no_arguments ((\<lambda>_. None)(''OPENAI_BASE_URL'' := Some ''ftp:/x'')) file = Inl (ConfigRaised (PyError ''ValueError''))"
proof -
  have "strip ''ftp:/x'' = ''ftp:/x''" by code_simp
  moreover have "urlsplit b ''ftp:/x'' = Inr \<lparr>ur_scheme = ''ftp'', ur_netloc = [], ur_path = ''/x'', ur_query = [], ur_fragment = []\<rparr>" for b
    by (simp add: urlsplit_def split_scheme_def partition_at_def ascii_letter_def scheme_char_def ord_def lower_def lower_char_def
        split_authority_def good_authority_def dec_digit_def)
  ultimately show ?thesis
    using assms
    by (cases "fc_language c")
      (simp_all add: resolve_llm_config_def resolve_loaded_def no_arguments_def of_file_def positive_float_def positive_int_def
        number_setting_def text_setting_def read_language_def validated_base_url_def value_error_def str_or_def rstrip_if_def)
qed

theorem bad_endpoint_escapes_witness:
  "resolve_llm_config (lib_of saved0) no_arguments ((\<lambda>_. None)(''OPENAI_BASE_URL'' := Some ''ftp:/x'')) (file_with (JObj []))
     = Inl (ConfigRaised (PyError ''ValueError''))"
proof -
  have "strip (fc_model saved0) = ''m''" "strip ''secret99'' = ''secret99''" by code_simp+
  then show ?thesis
    using bad_endpoint_escapes [OF saved0_loaded(1)] by (simp add: saved0_def)
qed

end
