(* ===== verification/Calibration.thy ===== *)
theory Calibration
  imports Framing LlmModels Storage Service
begin

text \<open>
  \<open>src/zeroadr/llm/calibration.py\<close>: metrics over the stored adjudications, their evaluation against labels of
  people, the template for such labels, and the readiness of the gate. \<open>r4\<close> is the rounding of a float to
  four digits. A file is what reading it gives.
\<close>

section \<open>Numbers\<close>

datatype calibration_error = GateCalibrationError string string | CalibrationRaised exn

definition calibration_problem :: "string \<Rightarrow> string \<Rightarrow> calibration_error + 'x" where
  "calibration_problem code message = Inl (GateCalibrationError code message)"

definition DEFAULT_CONFIDENCE_THRESHOLD :: rat where "DEFAULT_CONFIDENCE_THRESHOLD = 85 / 100"

definition DEFAULT_THRESHOLD_CANDIDATES :: "rat list" where
  "DEFAULT_THRESHOLD_CANDIDATES = [5 / 10, 6 / 10, 7 / 10, 8 / 10, 85 / 100, 9 / 10, 95 / 100]"

definition validated_threshold :: "rat \<Rightarrow> calibration_error + rat" where
  "validated_threshold v =
     (if v < 0 \<or> 1 < v then calibration_problem ''invalid_threshold'' ''Confidence threshold must be 0 to 1.'' else Inr v)"

definition counts :: "string list \<Rightarrow> (string \<times> nat) list" where
  "counts vs = map (\<lambda>v. (v, count_list vs v)) (sort (remdups vs))"

definition ratio :: "(rat \<Rightarrow> rat) \<Rightarrow> nat \<Rightarrow> nat \<Rightarrow> rat" where
  "ratio r4 numerator denominator = (if denominator = 0 then 0 else r4 (of_nat numerator / of_nat denominator))"

definition average :: "(rat \<Rightarrow> rat) \<Rightarrow> rat list \<Rightarrow> rat" where
  "average r4 vs = (if vs = [] then 0 else r4 (sum_list vs / of_nat (length vs)))"

definition percentile :: "rat list \<Rightarrow> rat \<Rightarrow> rat" where
  "percentile vs quantile =
     (if vs = [] then 0
      else let ordered = sort vs; position = of_nat (length ordered - 1) * quantile; lower = nat \<lfloor>position\<rfloor>;
               upper = min (lower + 1) (length ordered - 1); fraction = position - of_nat lower in
           ordered ! lower + (ordered ! upper - ordered ! lower) * fraction)"

section \<open>Metrics\<close>

fun gate_mode_str :: "gate_mode \<Rightarrow> string" where
  "gate_mode_str Shadow = ''shadow''"
| "gate_mode_str Enforce = ''enforce''"

record confidence_metrics =
  cm_count :: nat
  cm_average :: rat
  cm_p50 :: rat
  cm_p95 :: rat
  cm_above :: nat
  cm_below :: nat

record gate_metrics =
  gm_session :: "string option"
  gm_threshold :: rat
  gm_total :: nat
  gm_completed :: nat
  gm_failed :: nat
  gm_completion_rate :: rat
  gm_fallback_count :: nat
  gm_fallback_rate :: rat
  gm_modes :: "(string \<times> nat) list"
  gm_models :: "(string \<times> nat) list"
  gm_verdicts :: "(string \<times> nat) list"
  gm_failures :: "(string \<times> nat) list"
  gm_proposed :: "(string \<times> nat) list"
  gm_final :: "(string \<times> nat) list"
  gm_changes :: nat
  gm_confidence :: confidence_metrics
  gm_p50_ms :: int
  gm_p95_ms :: int
  gm_max_ms :: int

definition count_if :: "('x \<Rightarrow> bool) \<Rightarrow> 'x list \<Rightarrow> nat" where
  "count_if P xs = length (filter P xs)"

definition build_gate_metrics ::
  "(rat \<Rightarrow> rat) \<Rightarrow> store \<Rightarrow> string option \<Rightarrow> rat \<Rightarrow> calibration_error + gate_metrics" where
  "build_gate_metrics r4 d session_id confidence_threshold =
     (case validated_threshold confidence_threshold of
        Inl e \<Rightarrow> Inl e
      | Inr threshold \<Rightarrow>
          (let rows = llm_adjudications session_id d;
               completed = filter (\<lambda>r. ad_status r = Completed \<and> ad_result r \<noteq> None) rows;
               results = List.map_filter ad_result completed;
               values = map jr_confidence results;
               latencies = map ad_latency_ms rows; latencies_rat = map of_int latencies;
               fallback = count_if (\<lambda>r. ad_final r = RequireApproval) rows in
           Inr \<lparr>gm_session = session_id, gm_threshold = threshold, gm_total = length rows,
                gm_completed = length completed, gm_failed = length rows - length completed,
                gm_completion_rate = ratio r4 (length completed) (length rows),
                gm_fallback_count = fallback, gm_fallback_rate = ratio r4 fallback (length rows),
                gm_modes = counts (map (gate_mode_str \<circ> ad_mode) rows), gm_models = counts (map ad_model rows),
                gm_verdicts = counts (map (verdict_str \<circ> jr_verdict) results),
                gm_failures = counts (map (\<lambda>r. str_or (ad_error_code r) ''unknown'') (filter (\<lambda>r. ad_status r = Failed) rows)),
                gm_proposed = counts (map (action_str \<circ> ad_proposed) rows),
                gm_final = counts (map (action_str \<circ> ad_final) rows),
                gm_changes = count_if (\<lambda>r. ad_proposed r \<noteq> ad_final r) rows,
                gm_confidence =
                  \<lparr>cm_count = length values, cm_average = average r4 values, cm_p50 = percentile values (1 / 2),
                   cm_p95 = percentile values (95 / 100), cm_above = count_if (\<lambda>v. threshold \<le> v) values,
                   cm_below = count_if (\<lambda>v. v < threshold) values\<rparr>,
                gm_p50_ms = py_round (percentile latencies_rat (1 / 2)),
                gm_p95_ms = py_round (percentile latencies_rat (95 / 100)),
                gm_max_ms = (if latencies = [] then 0 else Max (set latencies))\<rparr>))"

section \<open>Labels\<close>

type_synonym labels = "(string \<times> verdict) list"

text \<open>The expected verdict of a label: a list or an object cannot be looked up in a set.\<close>

definition expected_verdict :: "json \<Rightarrow> exn + verdict option" where
  "expected_verdict v =
     (case v of
        JStr s \<Rightarrow> Inr (if s = ''likely_true_positive'' then Some LikelyTruePositive
                       else if s = ''likely_false_positive'' then Some LikelyFalsePositive else None)
      | JList _ \<Rightarrow> Inl (PyError ''TypeError'')
      | JObj _ \<Rightarrow> Inl (PyError ''TypeError'')
      | _ \<Rightarrow> Inr None)"

definition at_line :: "string \<Rightarrow> nat \<Rightarrow> string" where
  "at_line what n = what @ '' at line '' @ nat_str n @ ''.''"

definition read_label :: "decoder \<Rightarrow> nat \<Rightarrow> string \<Rightarrow> labels \<Rightarrow> calibration_error + string \<times> verdict" where
  "read_label D n line found =
     (case loads D line of
        Inl (PyError c) \<Rightarrow>
          if c = ''JSONDecodeError'' then calibration_problem ''invalid_label'' (at_line ''Invalid label JSON'' n)
          else Inl (CalibrationRaised (PyError c))
      | Inl e \<Rightarrow> Inl (CalibrationRaised e)
      | Inr (JObj d) \<Rightarrow>
          (case dget d ''adjudication_id'' of
             JStr i \<Rightarrow>
               if strip i = [] then calibration_problem ''invalid_label'' (at_line ''Missing adjudication_id'' n)
               else (case expected_verdict (dget d ''expected_verdict'') of
                 Inl e \<Rightarrow> Inl (CalibrationRaised e)
               | Inr None \<Rightarrow> calibration_problem ''invalid_label'' (at_line ''Invalid expected_verdict'' n)
               | Inr (Some v) \<Rightarrow>
                   if i \<in> fst ` set found
                   then calibration_problem ''duplicate_label''
                     (''Duplicate adjudication_id at line '' @ nat_str n @ '': '' @ i)
                   else Inr (i, v))
           | _ \<Rightarrow> calibration_problem ''invalid_label'' (at_line ''Missing adjudication_id'' n))
      | Inr _ \<Rightarrow> calibration_problem ''invalid_label'' (at_line ''Invalid label'' n))"

fun read_label_lines :: "decoder \<Rightarrow> nat \<Rightarrow> string list \<Rightarrow> labels \<Rightarrow> calibration_error + labels" where
  "read_label_lines D n [] found = Inr found"
| "read_label_lines D n (line # lines) found =
     (if strip line = [] then read_label_lines D (Suc n) lines found
      else case read_label D n line found of
        Inl e \<Rightarrow> Inl e
      | Inr kv \<Rightarrow> read_label_lines D (Suc n) lines (found @ [kv]))"

text \<open>\<open>_read_labels\<close>; \<open>name\<close> is the path as text.\<close>

definition read_labels :: "decoder \<Rightarrow> string \<Rightarrow> exn + string \<Rightarrow> calibration_error + labels" where
  "read_labels D name file =
     (case file of
        Inl (PyError c) \<Rightarrow>
          if c = ''OSError'' then calibration_problem ''labels_unreadable'' (''Unable to read labels: '' @ name)
          else Inl (CalibrationRaised (PyError c))
      | Inl e \<Rightarrow> Inl (CalibrationRaised e)
      | Inr content \<Rightarrow> read_label_lines D 1 (splitlines content) [])"

section \<open>Evaluation\<close>

record confusion =
  co_tp :: nat
  co_tn :: nat
  co_fp :: nat
  co_fn :: nat
  co_review :: nat

datatype cell = TruePositive | TrueNegative | FalsePositive | FalseNegative | Review

definition cell_of :: "rat \<Rightarrow> llm_adjudication_result option \<Rightarrow> verdict \<Rightarrow> cell" where
  "cell_of threshold result expected =
     (case result of
        None \<Rightarrow> Review
      | Some r \<Rightarrow>
          if jr_verdict r = Uncertain \<or> jr_confidence r < threshold then Review
          else let predicted = (jr_verdict r = LikelyTruePositive); positive = (expected = LikelyTruePositive) in
               if predicted \<and> positive then TruePositive
               else if \<not> predicted \<and> \<not> positive then TrueNegative
               else if predicted then FalsePositive else FalseNegative)"

fun tally :: "cell \<Rightarrow> confusion \<Rightarrow> confusion" where
  "tally TruePositive c = c\<lparr>co_tp := Suc (co_tp c)\<rparr>"
| "tally TrueNegative c = c\<lparr>co_tn := Suc (co_tn c)\<rparr>"
| "tally FalsePositive c = c\<lparr>co_fp := Suc (co_fp c)\<rparr>"
| "tally FalseNegative c = c\<lparr>co_fn := Suc (co_fn c)\<rparr>"
| "tally Review c = c\<lparr>co_review := Suc (co_review c)\<rparr>"

type_synonym labelled = "(llm_adjudication \<times> verdict) list"

definition confusion_of :: "labelled \<Rightarrow> rat \<Rightarrow> confusion" where
  "confusion_of rows threshold =
     fold (\<lambda>(a, expected). tally (cell_of threshold (ad_result a) expected)) rows
       \<lparr>co_tp = 0, co_tn = 0, co_fp = 0, co_fn = 0, co_review = 0\<rparr>"

record threshold_report =
  th_confusion :: confusion
  th_review_rate :: rat
  th_coverage :: rat
  th_precision :: rat
  th_recall :: rat
  th_fp_rate :: rat
  th_fn_rate :: rat

definition evaluate_threshold :: "(rat \<Rightarrow> rat) \<Rightarrow> labelled \<Rightarrow> rat \<Rightarrow> threshold_report" where
  "evaluate_threshold r4 rows threshold =
     (let c = confusion_of rows threshold; decided = co_tp c + co_tn c + co_fp c + co_fn c in
      \<lparr>th_confusion = c, th_review_rate = ratio r4 (co_review c) (length rows), th_coverage = ratio r4 decided (length rows),
       th_precision = ratio r4 (co_tp c) (co_tp c + co_fp c), th_recall = ratio r4 (co_tp c) (co_tp c + co_fn c),
       th_fp_rate = ratio r4 (co_fp c) (co_fp c + co_tn c), th_fn_rate = ratio r4 (co_fn c) (co_fn c + co_tp c)\<rparr>)"

record evaluation =
  el_path :: string
  el_labeled :: nat
  el_matched :: nat
  el_missing :: "string list"
  el_threshold :: rat
  el_selected :: threshold_report
  el_matrix :: "(rat \<times> threshold_report) list"

definition matched_labels :: "labels \<Rightarrow> (string \<times> llm_adjudication) list \<Rightarrow> labelled" where
  "matched_labels labels by_id = List.map_filter (\<lambda>(i, v). map_option (\<lambda>a. (a, v)) (map_of by_id i)) labels"

definition evaluate_gate_labels ::
  "(rat \<Rightarrow> rat) \<Rightarrow> decoder \<Rightarrow> store \<Rightarrow> string \<Rightarrow> exn + string \<Rightarrow> rat \<Rightarrow> calibration_error + evaluation" where
  "evaluate_gate_labels r4 D d name file threshold =
     (case validated_threshold threshold of Inl e \<Rightarrow> Inl e | Inr selected \<Rightarrow>
     (case read_labels D name file of Inl e \<Rightarrow> Inl e | Inr labels \<Rightarrow>
       (let adjudications = rev (map (\<lambda>a. (ad_id a, a)) (llm_adjudications None d));
            matched = matched_labels labels adjudications;
            thresholds = sort (remdups (selected # DEFAULT_THRESHOLD_CANDIDATES)) in
        Inr \<lparr>el_path = name, el_labeled = length labels, el_matched = length matched,
             el_missing = sort (filter (\<lambda>i. i \<notin> fst ` set adjudications) (map fst labels)),
             el_threshold = selected, el_selected = evaluate_threshold r4 matched selected,
             el_matrix = map (\<lambda>t. (t, evaluate_threshold r4 matched t)) thresholds\<rparr>)))"

section \<open>Files of labels\<close>

definition label_lines :: "jdict list \<Rightarrow> string" where
  "label_lines records = concat (map (\<lambda>r. json_text False '', '' '': '' (sort_keys (JObj r)) @ [CHR 10]) records)"

fun status_text :: "analysis_status \<Rightarrow> string" where
  "status_text Completed = ''completed''"
| "status_text Failed = ''failed''"

definition observed :: "(llm_adjudication_result \<Rightarrow> json) \<Rightarrow> llm_adjudication \<Rightarrow> json" where
  "observed f a = (case ad_result a of None \<Rightarrow> JNull | Some r \<Rightarrow> f r)"

definition label_template :: "llm_adjudication \<Rightarrow> jdict" where
  "label_template a =
     [(''adjudication_id'', JStr (ad_id a)), (''expected_verdict'', JNull), (''session_id'', JStr (ad_session a)),
      (''policy_id'', JStr (ad_policy a)), (''mode'', JStr (gate_mode_str (ad_mode a))), (''model'', JStr (ad_model a)),
      (''status'', JStr (status_text (ad_status a))),
      (''observed_verdict'', observed (JStr \<circ> verdict_str \<circ> jr_verdict) a),
      (''observed_confidence'', observed (decimal_json \<circ> jr_confidence) a),
      (''observed_reason'', observed (JStr \<circ> jr_reason) a),
      (''error_code'', json_opt (ad_error_code a)), (''latency_ms'', JInt (ad_latency_ms a)),
      (''proposed_action'', JStr (action_str (ad_proposed a))), (''final_action'', JStr (action_str (ad_final a)))]"

text \<open>The content of the written file and the number of its records.\<close>

definition export_gate_label_template :: "store \<Rightarrow> string option \<Rightarrow> string \<times> nat" where
  "export_gate_label_template d session_id =
     (let rows = llm_adjudications session_id d in (label_lines (map label_template rows), length rows))"

section \<open>Readiness and comparison\<close>

record check =
  ck_passed :: bool
  ck_actual :: rat
  ck_target :: rat

definition check_of :: "bool \<Rightarrow> rat \<Rightarrow> rat \<Rightarrow> check" where
  "check_of passed actual target = \<lparr>ck_passed = passed, ck_actual = actual, ck_target = target\<rparr>"

record readiness_limits =
  rl_min_labeled :: int
  rl_min_completion :: rat
  rl_max_invalid :: rat
  rl_max_p95_ms :: int
  rl_max_fn :: rat
  rl_max_fp :: rat
  rl_max_review :: rat

definition default_limits :: readiness_limits where
  "default_limits = \<lparr>rl_min_labeled = 40, rl_min_completion = 95 / 100, rl_max_invalid = 1 / 100, rl_max_p95_ms = 8000,
     rl_max_fn = 2 / 100, rl_max_fp = 5 / 100, rl_max_review = 10 / 100\<rparr>"

record readiness =
  rn_ready :: bool
  rn_checks :: "(string \<times> check) list"
  rn_metrics :: gate_metrics
  rn_evaluation :: evaluation

definition readiness_checks :: "(rat \<Rightarrow> rat) \<Rightarrow> readiness_limits \<Rightarrow> gate_metrics \<Rightarrow> evaluation \<Rightarrow> (string \<times> check) list" where
  "readiness_checks r4 R metrics evaluation =
     (let invalid = (case map_of (gm_failures metrics) ''invalid_model_output'' of None \<Rightarrow> 0 | Some n \<Rightarrow> n);
          invalid_rate = ratio r4 invalid (gm_total metrics); selected = el_selected evaluation in
      [(''minimum_labeled_count'',
          check_of (rl_min_labeled R \<le> int (el_matched evaluation)) (of_nat (el_matched evaluation)) (of_int (rl_min_labeled R))),
       (''completion_rate'',
          check_of (rl_min_completion R \<le> gm_completion_rate metrics) (gm_completion_rate metrics) (rl_min_completion R)),
       (''invalid_output_rate'', check_of (invalid_rate \<le> rl_max_invalid R) invalid_rate (rl_max_invalid R)),
       (''p95_latency_ms'',
          check_of (gm_p95_ms metrics < rl_max_p95_ms R) (of_int (gm_p95_ms metrics)) (of_int (rl_max_p95_ms R))),
       (''false_negative_rate'', check_of (th_fn_rate selected \<le> rl_max_fn R) (th_fn_rate selected) (rl_max_fn R)),
       (''false_positive_rate'', check_of (th_fp_rate selected \<le> rl_max_fp R) (th_fp_rate selected) (rl_max_fp R)),
       (''review_rate'', check_of (th_review_rate selected \<le> rl_max_review R) (th_review_rate selected) (rl_max_review R))])"

definition build_gate_readiness ::
  "(rat \<Rightarrow> rat) \<Rightarrow> decoder \<Rightarrow> store \<Rightarrow> string \<Rightarrow> exn + string \<Rightarrow> rat \<Rightarrow> readiness_limits \<Rightarrow> calibration_error + readiness" where
  "build_gate_readiness r4 D d name file threshold R =
     (case build_gate_metrics r4 d None threshold of Inl e \<Rightarrow> Inl e | Inr metrics \<Rightarrow>
     (case evaluate_gate_labels r4 D d name file threshold of Inl e \<Rightarrow> Inl e | Inr evaluation \<Rightarrow>
       (let checks = readiness_checks r4 R metrics evaluation in
        Inr \<lparr>rn_ready = list_all (\<lambda>(_, c). ck_passed c) checks, rn_checks = checks, rn_metrics = metrics,
             rn_evaluation = evaluation\<rparr>)))"

record run_summary =
  ru_db :: string
  ru_labels :: string
  ru_versions :: "(string \<times> nat) list"
  ru_total_rows :: nat
  ru_completion :: rat
  ru_p95_ms :: int
  ru_fp :: rat
  ru_fn :: rat
  ru_review :: rat
  ru_coverage :: rat

definition gate_run_summary ::
  "(rat \<Rightarrow> rat) \<Rightarrow> decoder \<Rightarrow> string \<times> store \<Rightarrow> string \<times> (exn + string) \<Rightarrow> rat \<Rightarrow> calibration_error + run_summary" where
  "gate_run_summary r4 D db labels threshold =
     (case build_gate_metrics r4 (snd db) None threshold of Inl e \<Rightarrow> Inl e | Inr metrics \<Rightarrow>
     (case evaluate_gate_labels r4 D (snd db) (fst labels) (snd labels) threshold of Inl e \<Rightarrow> Inl e | Inr evaluation \<Rightarrow>
       (let selected = el_selected evaluation in
        Inr \<lparr>ru_db = fst db, ru_labels = fst labels,
             ru_versions = counts (map ad_prompt_version (llm_adjudications None (snd db))), ru_total_rows = gm_total metrics,
             ru_completion = gm_completion_rate metrics, ru_p95_ms = gm_p95_ms metrics, ru_fp = th_fp_rate selected,
             ru_fn = th_fn_rate selected, ru_review = th_review_rate selected, ru_coverage = th_coverage selected\<rparr>)))"

record run_delta =
  dl_completion :: rat
  dl_p95_ms :: int
  dl_fp :: rat
  dl_fn :: rat
  dl_review :: rat

definition delta :: "(rat \<Rightarrow> rat) \<Rightarrow> run_summary \<Rightarrow> run_summary \<Rightarrow> (run_summary \<Rightarrow> rat) \<Rightarrow> rat" where
  "delta r4 candidate baseline field = r4 (field candidate - field baseline)"

definition compare_gate_runs ::
  "(rat \<Rightarrow> rat) \<Rightarrow> decoder \<Rightarrow> string \<times> store \<Rightarrow> string \<times> (exn + string) \<Rightarrow> string \<times> store \<Rightarrow> string \<times> (exn + string) \<Rightarrow>
   rat \<Rightarrow> calibration_error + run_summary \<times> run_summary \<times> run_delta" where
  "compare_gate_runs r4 D baseline_db baseline_labels candidate_db candidate_labels threshold =
     (case gate_run_summary r4 D baseline_db baseline_labels threshold of Inl e \<Rightarrow> Inl e | Inr baseline \<Rightarrow>
     (case gate_run_summary r4 D candidate_db candidate_labels threshold of Inl e \<Rightarrow> Inl e | Inr candidate \<Rightarrow>
        Inr (baseline, candidate,
             \<lparr>dl_completion = delta r4 candidate baseline ru_completion,
              dl_p95_ms = ru_p95_ms candidate - ru_p95_ms baseline, dl_fp = delta r4 candidate baseline ru_fp,
              dl_fn = delta r4 candidate baseline ru_fn, dl_review = delta r4 candidate baseline ru_review\<rparr>)))"

section \<open>Dogfood\<close>

text \<open>\<open>src/zeroadr/llm/dogfood.py\<close>: labelled cases are sent through the decision service under policies
  whose gates only observe. The typing of a case by the schema library is a parameter.\<close>

record dogfood_case =
  dg_case :: string
  dg_expected :: verdict
  dg_path :: string
  dg_scenario :: string
  dg_context :: security_context

definition validated_case :: "dogfood_case \<Rightarrow> exn + dogfood_case" where
  "validated_case c =
     (let path = strip (dg_path c) in
      if strip (dg_case c) = [] \<or> path = [] \<or> strip (dg_scenario c) = []
         \<or> \<not> suffix ''/.env'' (replace_char (CHR 92) (CHR ''/'') path)
      then Inl (PyError ''ValidationError'')
      else Inr (c\<lparr>dg_case := strip (dg_case c), dg_path := path, dg_scenario := strip (dg_scenario c)\<rparr>))"

fun read_cases :: "(string \<Rightarrow> exn + dogfood_case) \<Rightarrow> nat \<Rightarrow> string list \<Rightarrow> dogfood_case list \<Rightarrow> calibration_error + dogfood_case list" where
  "read_cases typed n [] cases = Inr cases"
| "read_cases typed n (line # lines) cases =
     (if strip line = [] then read_cases typed (Suc n) lines cases
      else case (case typed line of Inl e \<Rightarrow> Inl e | Inr c \<Rightarrow> validated_case c) of
        Inl (PyError e) \<Rightarrow>
          if e \<in> {''ValidationError'', ''ValueError''}
          then calibration_problem ''invalid_dogfood_case'' (at_line ''Invalid dogfood case'' n)
          else Inl (CalibrationRaised (PyError e))
      | Inl e \<Rightarrow> Inl (CalibrationRaised e)
      | Inr c \<Rightarrow>
          if dg_case c \<in> dg_case ` set cases
          then calibration_problem ''duplicate_dogfood_case''
            (''Duplicate dogfood case at line '' @ nat_str n @ '': '' @ dg_case c)
          else read_cases typed (Suc n) lines (cases @ [c]))"

definition load_dogfood_cases ::
  "(string \<Rightarrow> exn + dogfood_case) \<Rightarrow> string \<Rightarrow> exn + string \<Rightarrow> calibration_error + dogfood_case list" where
  "load_dogfood_cases typed name file =
     (case file of
        Inl (PyError c) \<Rightarrow>
          if c = ''OSError'' then calibration_problem ''cases_unreadable'' (''Unable to read cases: '' @ name)
          else Inl (CalibrationRaised (PyError c))
      | Inl e \<Rightarrow> Inl (CalibrationRaised e)
      | Inr content \<Rightarrow> read_cases typed 1 (splitlines content) [])"

definition gate_configs :: "policy_engine \<Rightarrow> jdict list" where
  "gate_configs E =
     List.map_filter (\<lambda>p. case dget (pol_fields p) ''llm_adjudication'' of JObj d \<Rightarrow> Some d | _ \<Rightarrow> None) (pe_policies E)"

definition only_shadow :: "policy_engine \<Rightarrow> bool" where
  "only_shadow E =
     (gate_configs E \<noteq> [] \<and> list_all (\<lambda>d. dget_or d ''mode'' (JStr ''shadow'') = JStr ''shadow'') (gate_configs E))"

definition dogfood_event :: "nat \<Rightarrow> dogfood_case \<Rightarrow> 'a sys_scheme \<Rightarrow> runtime_event \<times> 'a sys_scheme" where
  "dogfood_event index c s =
     new_event ToolCallRequested Hook (''dogfood_'' @ dg_case c) (Some (RInt (int index))) (Some ''dogfood'')
       (Some ''read_file'') (Some ''filesystem.read'') (Some (dg_context c))
       (Some [(''path'', JStr (dg_path c)), (''scenario_summary'', JStr (dg_scenario c))]) JNull None [] s"

fun run_cases ::
  "validators \<Rightarrow> 'a sys_scheme service \<Rightarrow> nat \<Rightarrow> dogfood_case list \<Rightarrow> 'a sys_scheme \<Rightarrow>
   (exn + (dogfood_case \<times> runtime_decision) list) \<times> 'a sys_scheme" where
  "run_cases V S index [] s = (Inr [], s)"
| "run_cases V S index (c # cs) s =
     (case dogfood_event index c s of (event, s) \<Rightarrow>
      (case service_evaluate V S event s of
         (Inl e, s) \<Rightarrow> (Inl e, s)
       | (Inr outcome, s) \<Rightarrow>
           (case run_cases V S (Suc index) cs s of
              (Inl e, s) \<Rightarrow> (Inl e, s)
            | (Inr later, s) \<Rightarrow> (Inr ((c, outcome) # later), s))))"

definition dogfood_label :: "dogfood_case \<times> llm_adjudication \<Rightarrow> jdict" where
  "dogfood_label ca =
     (case ca of (c, a) \<Rightarrow>
        [(''adjudication_id'', JStr (ad_id a)), (''expected_verdict'', JStr (verdict_str (dg_expected c))),
         (''case_id'', JStr (dg_case c)), (''observed_verdict'', observed (JStr \<circ> verdict_str \<circ> jr_verdict) a),
         (''observed_confidence'', observed (decimal_json \<circ> jr_confidence) a),
         (''status'', JStr (status_text (ad_status a))), (''error_code'', json_opt (ad_error_code a))])"

record dogfood_report =
  dr_read :: nat
  dr_labels :: string
  dr_completed :: nat
  dr_failed :: nat
  dr_not_adjudicated :: nat
  dr_final :: "(string \<times> nat) list"

definition dogfood_report_of :: "(dogfood_case \<times> runtime_decision) list \<Rightarrow> dogfood_report" where
  "dogfood_report_of outcomes =
     (let adjudicated = List.map_filter (\<lambda>(c, o'). map_option (Pair c) (rd_adjudication o')) outcomes in
      \<lparr>dr_read = length outcomes, dr_labels = label_lines (map dogfood_label adjudicated),
       dr_completed = count_if (\<lambda>(c, a). ad_status a = Completed) adjudicated,
       dr_failed = count_if (\<lambda>(c, a). ad_status a = Failed) adjudicated,
       dr_not_adjudicated = length outcomes - length adjudicated,
       dr_final = counts (map (action_str \<circ> ad_final \<circ> snd) adjudicated)\<rparr>)"

definition run_gate_dogfood ::
  "validators \<Rightarrow> (string \<Rightarrow> exn + dogfood_case) \<Rightarrow> string \<Rightarrow> exn + string \<Rightarrow> exn + policy_engine \<Rightarrow> 'a sys_scheme adjudicator \<Rightarrow>
   bool \<Rightarrow> int option \<Rightarrow> 'a sys_scheme \<Rightarrow> (calibration_error + dogfood_report) \<times> 'a sys_scheme" where
  "run_gate_dogfood V typed name file policy adjudicator trace limit s =
     (case policy of
        Inl e \<Rightarrow> (Inl (CalibrationRaised e), s)
      | Inr E \<Rightarrow>
          if \<not> only_shadow E
          then (calibration_problem ''dogfood_requires_shadow''
                  ''Dogfood requires a policy containing only shadow LLM adjudication rules.'', s)
          else case load_dogfood_cases typed name file of
            Inl e \<Rightarrow> (Inl e, s)
          | Inr cases \<Rightarrow>
              if (case limit of None \<Rightarrow> False | Some n \<Rightarrow> n \<le> 0)
              then (calibration_problem ''invalid_limit'' ''Dogfood limit must be positive.'', s)
              else case run_cases V \<lparr>sv_source = Hook, sv_engine = E, sv_trace = trace, sv_store = True,
                                    sv_adjudicator = Some adjudicator\<rparr> 1
                          (case limit of None \<Rightarrow> cases | Some n \<Rightarrow> take (nat n) cases) s of
                (Inl e, s) \<Rightarrow> (Inl (CalibrationRaised e), s)
              | (Inr outcomes, s) \<Rightarrow> (Inr (dogfood_report_of outcomes), s))"

section \<open>The tables account for every label\<close>

definition table_total :: "confusion \<Rightarrow> nat" where
  "table_total c = co_tp c + co_tn c + co_fp c + co_fn c + co_review c"

lemma tally_total: "table_total (tally x c) = Suc (table_total c)"
  by (cases x) (simp_all add: table_total_def)

lemma fold_tally_total: "table_total (fold (\<lambda>x. tally (f x)) rows c) = length rows + table_total c"
  by (induction rows arbitrary: c) (simp_all add: tally_total)

lemma confusion_total: "table_total (confusion_of rows t) = length rows"
  using fold_tally_total [of "\<lambda>(a, expected). cell_of t (ad_result a) expected" rows]
  by (simp add: confusion_of_def case_prod_unfold table_total_def)

lemma matched_and_missing:
  "length (matched_labels labels by_id) + length (filter (\<lambda>i. i \<notin> fst ` set by_id) (map fst labels)) = length labels"
proof (induction labels)
  case (Cons kv labels)
  have "fst kv \<in> fst ` set by_id \<longleftrightarrow> map_of by_id (fst kv) \<noteq> None"
    by (simp add: map_of_eq_None_iff)
  with Cons show ?case
    by (cases kv) (auto simp: matched_labels_def map_filter_simps split: option.splits)
qed (simp add: matched_labels_def map_filter_simps)

text \<open>An evaluation accounts for every label: it was either matched with a stored adjudication or is
  listed as missing, and at every threshold of the matrix, in ascending order and with the selected one
  among them, the five cells of the table add up to the matched labels.\<close>

theorem evaluation_accounts_for_labels:
  assumes "evaluate_gate_labels r4 D d name file threshold = Inr e"
  shows "el_matched e + length (el_missing e) = el_labeled e
    \<and> sorted (map fst (el_matrix e)) \<and> distinct (map fst (el_matrix e))
    \<and> (el_threshold e, el_selected e) \<in> set (el_matrix e)
    \<and> list_all (\<lambda>(t, r). table_total (th_confusion r) = el_matched e) (el_matrix e)"
proof -
  from assms obtain labels where th: "validated_threshold threshold = Inr threshold" and l: "read_labels D name file = Inr labels"
    by (auto simp: evaluate_gate_labels_def validated_threshold_def calibration_problem_def split: sum.splits if_splits)
  let ?ad = "rev (map (\<lambda>a. (ad_id a, a)) (llm_adjudications None d))"
  have sum: "th_confusion (evaluate_threshold r4 m t) = confusion_of m t" for m t
    by (simp add: evaluate_threshold_def Let_def)
  have "threshold \<in> set (sort (remdups (threshold # DEFAULT_THRESHOLD_CANDIDATES)))" by simp
  with assms th l matched_and_missing [of labels ?ad] show ?thesis
    by (auto simp: evaluate_gate_labels_def Let_def comp_def list_all_iff sum confusion_total simp del: remdups.simps)
qed

section \<open>A higher threshold only defers\<close>

lemma cell_defers: "t \<le> t' \<Longrightarrow> cell_of t' r v = cell_of t r v \<or> cell_of t' r v = Review"
  by (auto simp: cell_of_def Let_def split: option.splits)

definition defers :: "confusion \<Rightarrow> confusion \<Rightarrow> bool" where
  "defers c c' = (co_tp c' \<le> co_tp c \<and> co_tn c' \<le> co_tn c \<and> co_fp c' \<le> co_fp c \<and> co_fn c' \<le> co_fn c \<and> co_review c \<le> co_review c')"

lemma defers_tally: "defers c c' \<Longrightarrow> x' = x \<or> x' = Review \<Longrightarrow> defers (tally x c) (tally x' c')"
  by (cases x) (auto simp: defers_def)

lemma fold_defers:
  "(\<And>x. x \<in> set xs \<Longrightarrow> g x = f x \<or> g x = Review) \<Longrightarrow> defers c c' \<Longrightarrow> defers (fold (\<lambda>x. tally (f x)) xs c) (fold (\<lambda>x. tally (g x)) xs c')"
  by (induction xs arbitrary: c c') (simp_all add: defers_tally)

lemma raising_defers: "t \<le> t' \<Longrightarrow> defers (confusion_of rows t) (confusion_of rows t')"
  unfolding confusion_of_def case_prod_unfold
  by (rule fold_defers) (simp_all add: cell_defers, simp add: defers_def)

text \<open>C36. The table at a threshold tells what the enforcing gate of that confidence does: it asks a person
  exactly in the cell of reviews, takes the action for true positives where the table counts a predicted
  positive, and the one for false positives where it counts a predicted negative. A higher threshold
  moves labels into the cell of reviews and nowhere else.\<close>

theorem calibration_predicts_gate:
  assumes "ap_mode g = Enforce" and "ap_min_confidence g \<le> t'"
  shows "resolve_adjudication_action base g result False =
      (case cell_of (ap_min_confidence g) result expected of
         Review \<Rightarrow> RequireApproval
       | TruePositive \<Rightarrow> ap_true_positive g | FalsePositive \<Rightarrow> ap_true_positive g
       | TrueNegative \<Rightarrow> ap_false_positive g | FalseNegative \<Rightarrow> ap_false_positive g)
    \<and> defers (confusion_of rows (ap_min_confidence g)) (confusion_of rows t')"
proof -
  have "jr_verdict r \<noteq> LikelyTruePositive \<Longrightarrow> jr_verdict r \<noteq> Uncertain \<Longrightarrow> jr_verdict r = LikelyFalsePositive" for r :: llm_adjudication_result
    by (cases "jr_verdict r") simp_all
  with assms(1) show ?thesis
    by (auto simp: resolve_adjudication_action_def cell_of_def Let_def raising_defers [OF assms(2)] split: option.splits)
qed

definition gate0 :: llm_adjudication_policy where
  "gate0 = \<lparr>ap_mode = Enforce, ap_min_confidence = 1 / 2, ap_true_positive = Block, ap_false_positive = Allow\<rparr>"

theorem calibration_predicts_gate_witness:
  "resolve_adjudication_action Alert gate0 None False = RequireApproval
     \<and> defers (confusion_of [] (1 / 2)) (confusion_of [] (3 / 4))"
  using calibration_predicts_gate [of gate0 "3 / 4" Alert None LikelyTruePositive "[]"]
  by (simp add: gate0_def cell_of_def)

theorem evaluation_accounts_for_labels_witness:
  "\<exists>e. evaluate_gate_labels (\<lambda>x. x) \<lparr>dc_float = (\<lambda>_. JNull), dc_depth = 5\<rparr> empty_store ''l'' (Inr '' '') (3 / 4) = Inr e
     \<and> el_matched e = 0 \<and> el_labeled e = 0 \<and> length (el_matrix e) = 8"
proof -
  let ?r = "evaluate_gate_labels (\<lambda>x. x) \<lparr>dc_float = (\<lambda>_. JNull), dc_depth = 5\<rparr> empty_store ''l'' (Inr '' '') (3 / 4)"
  have l: "read_labels D n (Inr '' '') = Inr []" for D n
    by (simp add: read_labels_def splitlines_def is_linebreak_def ord_def strip_def rstrip_if_def lstrip_def is_space_def)
  obtain e where e: "?r = Inr e" "el_labeled e = 0" "map fst (el_matrix e) = sort (remdups (3 / 4 # DEFAULT_THRESHOLD_CANDIDATES))"
    by (auto simp: evaluate_gate_labels_def validated_threshold_def l Let_def comp_def simp del: remdups.simps)
  then have "length (el_matrix e) = length (sort (remdups ((3 / 4 :: rat) # DEFAULT_THRESHOLD_CANDIDATES)))"
    by (metis length_map)
  then have "length (el_matrix e) = 8" by (simp add: DEFAULT_THRESHOLD_CANDIDATES_def)
  with e evaluation_accounts_for_labels [OF e(1)] show ?thesis by auto
qed

section \<open>A dogfood run only observes\<close>

text \<open>What the schema library promises of a gate: it is an object, and its mode is the one it names, or
  \<open>shadow\<close>.\<close>

definition reads_mode :: "validators \<Rightarrow> bool" where
  "reads_mode V =
     (\<forall>v g. val_adjudication V v = Inr g \<longrightarrow>
        (\<exists>d. v = JObj d \<and> (dget_or d ''mode'' (JStr ''shadow'') = JStr ''shadow'' \<longrightarrow> ap_mode g = Shadow)))"

lemma shadow_gate:
  assumes "reads_mode V" and "adjudication_in V ps e fs = Inr (Some g)"
    and "\<And>p d. p \<in> set ps \<Longrightarrow> dget (pol_fields p) ''llm_adjudication'' = JObj d \<Longrightarrow> dget_or d ''mode'' (JStr ''shadow'') = JStr ''shadow''"
  shows "ap_mode g = Shadow"
  using assms(2,3)
proof (induction ps)
  case (Cons p ps)
  show ?case
  proof (cases "event_policy_matches (pol_match p) e fs")
    case True
    with Cons.prems(1) have v: "val_adjudication V (dget (pol_fields p) ''llm_adjudication'') = Inr g"
      by (auto simp: validate_opt_def split: if_splits sum.splits)
    with assms(1) obtain d where "dget (pol_fields p) ''llm_adjudication'' = JObj d"
        "dget_or d ''mode'' (JStr ''shadow'') = JStr ''shadow'' \<longrightarrow> ap_mode g = Shadow"
      unfolding reads_mode_def by blast
    with Cons.prems(2) [of p d] show ?thesis by simp
  next
    case False
    then have "adjudication_in V ps e fs = Inr (Some g)" using Cons.prems(1) by simp
    moreover have "p' \<in> set ps \<Longrightarrow> dget (pol_fields p') ''llm_adjudication'' = JObj d \<Longrightarrow> dget_or d ''mode'' (JStr ''shadow'') = JStr ''shadow''" for p' d
      using Cons.prems(2) [of p' d] by simp
    ultimately show ?thesis by (rule Cons.IH)
  qed
qed simp

lemma only_shadow_gate:
  assumes "reads_mode V" "only_shadow E" "llm_adjudication_for V E e fs = Inr (Some g)"
  shows "ap_mode g = Shadow"
proof (rule shadow_gate [OF assms(1) assms(3) [unfolded llm_adjudication_for_def]])
  fix p d
  assume "p \<in> set (pe_policies E)" "dget (pol_fields p) ''llm_adjudication'' = JObj d"
  then have "d \<in> set (gate_configs E)" by (force simp: gate_configs_def List.map_filter_def)
  with assms(2) show "dget_or d ''mode'' (JStr ''shadow'') = JStr ''shadow''"
    by (auto simp: only_shadow_def list_all_iff)
qed

definition observed_only :: "policy_engine \<Rightarrow> runtime_decision \<Rightarrow> bool" where
  "observed_only E rd =
     (pd_action (rd_decision rd) = base_action E (rd_event rd) (rd_findings rd)
      \<and> (case rd_adjudication rd of None \<Rightarrow> True
           | Some a \<Rightarrow> ad_mode a = Shadow \<and> ad_final a = base_action E (rd_event rd) (rd_findings rd)))"

lemma conclude_event: "conclude S e fs d ad s = (rd, s') \<Longrightarrow> rd_event rd = e"
  by (auto simp: conclude_def Let_def case_prod_beta)

lemma service_observes:
  assumes "reads_mode V" "only_shadow (sv_engine S)" "service_evaluate V S e s = (Inr rd, s')"
  shows "observed_only (sv_engine S) rd"
proof -
  from assms(3) obtain d s2 gate s3 where st: "assess S e s = (rd_findings rd, d, s2)"
    "llm_adjudication_for V (sv_engine S) e (rd_findings rd) = Inr gate"
    "gated_decision S gate e (rd_findings rd) d s2 = (Inr (rd_decision rd, rd_adjudication rd), s3)"
    "conclude S e (rd_findings rd) (rd_decision rd) (rd_adjudication rd) s3 = (rd, s')"
    by (rule service_evaluate_steps)
  have e: "rd_event rd = e" by (rule conclude_event [OF st(4)])
  show ?thesis
    using gated_decision_outcome [OF st(3)] assess_action [OF st(1)] only_shadow_gate [OF assms(1,2), of e "rd_findings rd"] st(2)
    by (auto simp: observed_only_def e resolve_adjudication_action_def split: option.splits)
qed

lemma run_cases_observe:
  assumes "reads_mode V" "only_shadow (sv_engine S)" "run_cases V S n cs s = (Inr outcomes, s')"
  shows "map fst outcomes = cs \<and> list_all (\<lambda>(c, rd). observed_only (sv_engine S) rd) outcomes"
  using assms(3)
proof (induction cs arbitrary: n s outcomes)
  case (Cons c cs)
  obtain e s1 where e: "dogfood_event n c s = (e, s1)" by (metis surj_pair)
  with Cons.prems obtain rd s2 later where "service_evaluate V S e s1 = (Inr rd, s2)"
      "run_cases V S (Suc n) cs s2 = (Inr later, s')" "outcomes = (c, rd) # later"
    by (auto split: prod.splits sum.splits)
  with Cons.IH service_observes [OF assms(1,2)] show ?case by fastforce
qed simp

lemma run_gate_dogfood_cases:
  assumes "run_gate_dogfood V typed name file policy adjudicator trace limit s = (Inr report, s')"
  shows "\<exists>E cases outcomes. policy = Inr E \<and> only_shadow E \<and> load_dogfood_cases typed name file = Inr cases
    \<and> run_cases V \<lparr>sv_source = Hook, sv_engine = E, sv_trace = trace, sv_store = True, sv_adjudicator = Some adjudicator\<rparr> 1
        (case limit of None \<Rightarrow> cases | Some n \<Rightarrow> take (nat n) cases) s = (Inr outcomes, s')
    \<and> report = dogfood_report_of outcomes"
  using assms
  by (auto simp: run_gate_dogfood_def calibration_problem_def split: sum.splits prod.splits if_splits)


definition shadow_engine :: policy_engine where
  "shadow_engine = empty_engine\<lparr>pe_policies :=
     [\<lparr>pol_fields = [(''llm_adjudication'', JObj [])], pol_match = [(''server_name'', JStr ''files'')]\<rparr>]\<rparr>"

definition no_validators :: validators where
  "no_validators =
     \<lparr>val_result_gate = (\<lambda>_. Inl (PyError ''ValidationError'')), val_semantic = (\<lambda>_. Inl (PyError ''ValidationError'')),
      val_guard = (\<lambda>_. Inl (PyError ''ValidationError'')), val_adjudication = (\<lambda>_. Inl (PyError ''ValidationError''))\<rparr>"

definition sys0 :: sys where
  "sys0 = \<lparr>w_ms = (\<lambda>n. n), w_rand = (\<lambda>n. n), w_ids = 0, w_wall = (\<lambda>n. 0), w_walls = 0, w_mono = (\<lambda>n. 0),
     w_monos = 0, sy_db = empty_store, sy_trace = []\<rparr>"

definition case0 :: dogfood_case where
  "case0 = \<lparr>dg_case = ''a'', dg_expected = LikelyFalsePositive, dg_path = ''/.env'', dg_scenario = ''s'',
     dg_context = \<lparr>sc_user_consent = ConsentUnknown, sc_task_alignment = AlignmentUnknown, sc_data_handling = HandlingUnknown,
       sc_injection_evidence = InjectionUnknown\<rparr>\<rparr>"

lemma shadow_engine_quiet:
  assumes "ev_server e = Some ''dogfood''"
  shows "\<exists>rd s'. service_evaluate V \<lparr>sv_source = Hook, sv_engine = shadow_engine, sv_trace = tr, sv_store = st,
    sv_adjudicator = aj\<rparr> e s = (Inr rd, s')"
proof -
  have "\<not> event_policy_matches [(''server_name'', JStr ''files'')] e fs" for fs
    using assms by (simp add: event_policy_matches_def dget_def matches_value_def)
  then have "llm_adjudication_for V shadow_engine e fs = Inr None" for fs
    by (simp add: llm_adjudication_for_def shadow_engine_def)
  then show ?thesis
    by (simp add: service_evaluate_def gated_decision_def case_prod_beta)
qed


end
