(* ===== verification/ApiServer.thy ===== *)
theory ApiServer
  imports LlmConfig Calibration
begin

text \<open>
  \<open>src/zeroadr/api/\<close>: the HTTP server over the store. \<open>do_GET\<close>, \<open>do_POST\<close> and \<open>do_PUT\<close> of \<open>server.py\<close> route a request
  to the views of \<open>readonly.py\<close>, \<open>approvals.py\<close>, \<open>agent_health.py\<close>, \<open>runtime_gate.py\<close>, \<open>tool_result_gate.py\<close>,
  \<open>llm_settings.py\<close> and \<open>console.py\<close>. A reply is its status and what its body holds, the dump of a record
  standing as the record. The second argument of a view is the store or the state it reads.
\<close>

section \<open>Requests and replies\<close>

record api_state = triage_state +
  sv_config :: "config_file option"

record http_request =
  rq_target :: string
  rq_content_type :: "string option"
  rq_content_length :: "string option"
  rq_body :: "nat list"

record console_asset =
  ca_name :: string
  ca_type :: string
  ca_body :: "nat list"

record approval_payload =
  ay_approval :: approval_request
  ay_event :: "runtime_event option"
  ay_findings :: "finding list"

record approvals_index =
  ax_approvals :: "approval_payload list"
  ax_pending :: nat
  ax_limit :: "int option"
  ax_offset :: int

record session_item =
  si_session :: string
  si_events :: nat
  si_findings :: nat
  si_decisions :: nat
  si_pending :: nat
  si_latest :: "(string \<times> int) option"
  si_risk :: risk_summary

record sessions_index =
  sx_db :: string
  sx_count :: nat
  sx_limit :: "int option"
  sx_offset :: int
  sx_sessions :: "session_item list"

record session_view =
  se_db :: string
  se_session :: string
  se_context :: session_context
  se_summary :: summary
  se_bom :: agent_bom

record compact_view =
  cp_db :: string
  cp_session :: string
  cp_summary :: summary
  cp_risk :: risk_summary
  cp_timeline :: "timeline_item list"
  cp_inventory :: inventory

record gate_counts =
  gc_total :: nat
  gc_groups :: "(string \<times> (string \<times> nat) list) list"
  gc_failures :: nat
  gc_marked :: nat
  gc_min_ms :: int
  gc_max_ms :: int
  gc_average_ms :: rat

datatype api_data =
    HealthData
  | AgentHealthData jdict
  | ConfigData config_view
  | ConnectionData connection_result
  | GateMetricsData gate_metrics
  | ToolGateMetrics gate_counts rat
  | RuntimeGateMetrics gate_counts
  | ApprovalsData approvals_index
  | ApprovalData approval_payload
  | ApprovalOnly approval_request
  | SessionsData sessions_index
  | SessionData session_view
  | CompactData compact_view
  | EvidenceData evidence
  | EventsData string "runtime_event list"
  | FindingsData string "finding list"
  | DecisionsData string "policy_decision list"
  | AdjudicationsData string "llm_adjudication list"
  | ToolGatesData string "tool_result_gate_record list"
  | RuntimeGatesData string "runtime_gate_record list"

text \<open>The message of an unexpected exception is the exception.\<close>

datatype reply =
    Json nat api_data
  | Asset nat console_asset
  | Problem nat string string
  | Internal nat string exn

record api_server =
  as_db_path :: string
  as_status_path :: "string option"
  as_trace :: bool
  as_max_age :: int
  as_management :: bool

record api_lib =
  ai_config :: config_lib
  ai_env :: environ
  ai_decoder :: decoder
  ai_r4 :: "rat \<Rightarrow> rat"
  ai_fromiso :: "string \<Rightarrow> exn + int"
  ai_status_file :: "string \<Rightarrow> (exn + json) option"
  ai_resource :: "string \<Rightarrow> nat list"
  ai_save :: save_outcome
  ai_post :: http_post
  ai_schema :: schema
  ai_transport :: transport

section \<open>Console and agent health\<close>

definition ASSET_TYPES :: "(string \<times> string) list" where
  "ASSET_TYPES =
     [(''console.html'', ''text/html; charset=utf-8''), (''console.css'', ''text/css; charset=utf-8''),
      (''console.js'', ''application/javascript; charset=utf-8'')]"

definition get_console_asset :: "(string \<Rightarrow> nat list) \<Rightarrow> string \<Rightarrow> console_asset option" where
  "get_console_asset resource asset_name =
     (let name = (if asset_name \<in> {'''', ''console.html''} then ''console.html'' else asset_name) in
      if sublist ''..'' name \<or> CHR ''/'' \<in> set name \<or> CHR 92 \<in> set name \<or> prefix ''.'' name \<or> name = [] then None
      else case map_of ASSET_TYPES name of
        None \<Rightarrow> None
      | Some t \<Rightarrow> Some \<lparr>ca_name = name, ca_type = t, ca_body = resource name\<rparr>)"

definition DEFAULT_AGENT_STATUS_FILE :: string where
  "DEFAULT_AGENT_STATUS_FILE = ''.zeroadr/endpoint-agent-status.json''"

definition resolve_agent_status_path :: "environ \<Rightarrow> string option \<Rightarrow> string" where
  "resolve_agent_status_path env explicit =
     (case explicit of
        Some p \<Rightarrow> p
      | None \<Rightarrow> str_or (env ''ZEROADR_AGENT_STATUS_FILE'') DEFAULT_AGENT_STATUS_FILE)"

section \<open>Approvals\<close>

definition read_status :: "string \<Rightarrow> approval_status option" where
  "read_status s = map_of (map (\<lambda>x. (status_str x, x)) [Pending, Approved, Denied, Expired]) s"

definition sqlite_int :: "int \<Rightarrow> bool" where
  "sqlite_int n = (- (2 ^ 63) \<le> n \<and> n < 2 ^ 63)"

text \<open>The query of the index: an unknown status matches no row, and a number of more than 64 bits is none
  for SQLite.\<close>

definition requests_with_status ::
  "string option \<Rightarrow> int option \<Rightarrow> int \<Rightarrow> store \<Rightarrow> exn + approval_request list" where
  "requests_with_status status limit offset d =
     (if (case limit of None \<Rightarrow> False | Some n \<Rightarrow> \<not> sqlite_int n \<or> \<not> sqlite_int offset) then Inl (PyError ''OverflowError'')
      else Inr (case status of
          None \<Rightarrow> list_approval_requests None None limit offset d
        | Some s \<Rightarrow>
            (case read_status s of None \<Rightarrow> [] | Some x \<Rightarrow> list_approval_requests (Some x) None limit offset d)))"

definition approval_payload_of :: "store \<Rightarrow> approval_request \<Rightarrow> approval_payload" where
  "approval_payload_of d request =
     \<lparr>ay_approval = request,
      ay_event = find (\<lambda>e. ev_id e = ap_event request) (events_for_session (ap_session request) d),
      ay_findings = map snd (fold (\<lambda>f. dset (fi_id f) f)
         (filter (\<lambda>f. fi_id f \<in> set (ap_findings request)) (findings_for_session (ap_session request) d)) [])\<rparr>"

text \<open>Stale requests are expired first, if an age is given.\<close>

definition expire_first :: "int option \<Rightarrow> 'a sys_scheme \<Rightarrow> exn option \<times> 'a sys_scheme" where
  "expire_first max_age s =
     (case max_age of
        None \<Rightarrow> (None, s)
      | Some age \<Rightarrow>
          (case expire_stale_pending_approvals age Hook False s of
             (Inr _, s) \<Rightarrow> (None, s)
           | (Inl _, s) \<Rightarrow> (Some (PyError ''KeyError''), s)))"

definition build_approvals_index ::
  "string option \<Rightarrow> int option \<Rightarrow> int \<Rightarrow> int option \<Rightarrow> 'a sys_scheme \<Rightarrow> (exn + approvals_index) \<times> 'a sys_scheme" where
  "build_approvals_index status limit offset max_age s =
     (case expire_first max_age s of
        (Some e, s) \<Rightarrow> (Inl e, s)
      | (None, s) \<Rightarrow>
          (map_sum id (\<lambda>requests.
             \<lparr>ax_approvals = map (approval_payload_of (sy_db s)) requests,
              ax_pending = pending_approval_count None (sy_db s), ax_limit = limit, ax_offset = offset\<rparr>)
             (requests_with_status status limit offset (sy_db s)), s))"

definition build_approval_detail ::
  "string \<Rightarrow> int option \<Rightarrow> 'a sys_scheme \<Rightarrow> (exn + approval_payload option) \<times> 'a sys_scheme" where
  "build_approval_detail approval_id max_age s =
     (case expire_first max_age s of
        (Some e, s) \<Rightarrow> (Inl e, s)
      | (None, s) \<Rightarrow> (Inr (map_option (approval_payload_of (sy_db s)) (get_approval_request approval_id (sy_db s))), s))"

text \<open>\<open>resolve_approval\<close>; both errors of the store reach the handler as its own exceptions.\<close>

definition resolve_approval ::
  "string \<Rightarrow> approval_status \<Rightarrow> string \<Rightarrow> string option \<Rightarrow> bool \<Rightarrow> int option \<Rightarrow> 'a sys_scheme \<Rightarrow>
   (store_error + approval_request) \<times> 'a sys_scheme" where
  "resolve_approval approval_id status resolved_by comment trace max_age s =
     (case expire_first max_age s of
        (Some e, s) \<Rightarrow> (Inl (KeyError approval_id), s)
      | (None, s) \<Rightarrow> resolve_approval_with_audit approval_id status resolved_by comment Hook trace s)"

section \<open>Sessions\<close>

definition slice_values :: "'x list \<Rightarrow> int option \<Rightarrow> int \<Rightarrow> 'x list" where
  "slice_values xs limit offset =
     (let rest = drop (nat (max 0 offset)) xs in
      case limit of None \<Rightarrow> rest | Some n \<Rightarrow> take (nat (max 0 n)) rest)"

definition session_item_of :: "store \<Rightarrow> string \<Rightarrow> session_item" where
  "session_item_of d session_id =
     (let events = events_for_session session_id d in
      \<lparr>si_session = session_id, si_events = length events, si_findings = length (findings_for_session session_id d),
       si_decisions = length (policy_decisions_for_session session_id d),
       si_pending = pending_approval_count (Some session_id) d,
       si_latest = (if events = [] then None else Some (ev_id (last events), ev_time (last events))),
       si_risk = cx_risk (reconstruct_from_sqlite session_id d)\<rparr>)"

definition build_api_index :: "string \<Rightarrow> int option \<Rightarrow> int \<Rightarrow> store \<Rightarrow> sessions_index" where
  "build_api_index db_path limit offset d =
     \<lparr>sx_db = db_path, sx_count = length (list_sessions d), sx_limit = limit, sx_offset = offset,
      sx_sessions = map (session_item_of d) (slice_values (list_sessions d) limit offset)\<rparr>"

definition inventory_from_summary :: "summary \<Rightarrow> inventory" where
  "inventory_from_summary m =
     \<lparr>iv_source_types = sm_source_types m, iv_servers = sm_servers m, iv_tools = sm_tools m,
      iv_capabilities = sm_capabilities m, iv_targets = sm_targets m, iv_sensitive_targets = sm_sensitive_targets m,
      iv_external_targets = sm_external_targets m, iv_endpoint_events = sm_endpoint_events m, iv_processes = sm_processes m\<rparr>"

definition build_api_session :: "string \<Rightarrow> string \<Rightarrow> bool \<Rightarrow> store \<Rightarrow> api_data" where
  "build_api_session db_path session_id compact_form d =
     (let cx = reconstruct_from_sqlite session_id d; m = summary_from_context cx in
      if compact_form
      then CompactData \<lparr>cp_db = db_path, cp_session = session_id, cp_summary = m, cp_risk = sm_risk m,
                        cp_timeline = cx_timeline cx, cp_inventory = inventory_from_summary m\<rparr>
      else SessionData \<lparr>se_db = db_path, se_session = session_id, se_context = cx, se_summary = m,
                        se_bom = bom_from_context ''api'' cx\<rparr>)"

section \<open>Gate metrics\<close>

fun gate_review_str :: "gate_review \<Rightarrow> string" where
  "gate_review_str Rules = ''rules''"
| "gate_review_str Hybrid = ''hybrid''"

definition latency_counts :: "int list \<Rightarrow> int \<times> int \<times> rat" where
  "latency_counts ls =
     (if ls = [] then (0, 0, 0) else (Min (set ls), Max (set ls), of_int (sum_list ls) / of_nat (length ls)))"

definition build_tool_result_gate_metrics :: "store \<Rightarrow> api_data" where
  "build_tool_result_gate_metrics d =
     (let records = tool_result_gate_records d; (low, high, avg) = latency_counts (map tg_latency_ms records);
          approvals = count_if (\<lambda>r. tg_proposed r = RequireApproval) records in
      ToolGateMetrics
        \<lparr>gc_total = length records,
         gc_groups = [(''by_mode'', counts (map (gate_mode_str \<circ> tg_mode) records)),
           (''by_review'', counts (map (gate_review_str \<circ> tg_review) records)),
           (''by_verdict'', counts (map (\<lambda>r. str_or (tg_verdict r) ''not_reviewed'') records)),
           (''by_proposed_action'', counts (map (action_str \<circ> tg_proposed) records)),
           (''by_effective_action'', counts (map (action_str \<circ> tg_effective) records))],
         gc_failures = count_if (\<lambda>r. tg_error r \<noteq> None) records, gc_marked = approvals,
         gc_min_ms = low, gc_max_ms = high, gc_average_ms = avg\<rparr>
        (if records = [] then 0 else of_nat approvals / of_nat (length records)))"

definition build_runtime_gate_metrics :: "store \<Rightarrow> api_data" where
  "build_runtime_gate_metrics d =
     (let records = runtime_gate_records d; (low, high, avg) = latency_counts (map rg_latency_ms records) in
      RuntimeGateMetrics
        \<lparr>gc_total = length records,
         gc_groups = [(''by_stage'', counts (map (stage_str \<circ> rg_stage) records)),
           (''by_mode'', counts (map (gate_mode_str \<circ> rg_mode) records)),
           (''by_review'', counts (map (gate_review_str \<circ> rg_review) records)),
           (''by_effective_action'', counts (map (action_str \<circ> rg_effective) records)),
           (''by_verdict'', counts (map (\<lambda>r. str_or (rg_verdict r) ''not_reviewed'') records))],
         gc_failures = count_if (\<lambda>r. rg_error r \<noteq> None) records, gc_marked = count_if rg_compromised records,
         gc_min_ms = low, gc_max_ms = high, gc_average_ms = avg\<rparr>)"

section \<open>Reading a request\<close>

type_synonym query = "(string \<times> string list) list"

definition first_of :: "query \<Rightarrow> string \<Rightarrow> string option" where
  "first_of query name = (case map_of query name of Some (v # _) \<Rightarrow> Some v | _ \<Rightarrow> None)"

definition optional_int :: "query \<Rightarrow> string \<Rightarrow> int option" where
  "optional_int query name =
     (case first_of query name of None \<Rightarrow> None | Some v \<Rightarrow> (case py_int v of Inl _ \<Rightarrow> None | Inr n \<Rightarrow> Some n))"

definition optional_float :: "config_lib \<Rightarrow> query \<Rightarrow> string \<Rightarrow> rat option" where
  "optional_float L query name =
     (case first_of query name of None \<Rightarrow> None | Some v \<Rightarrow> (case cl_float L v of Inl _ \<Rightarrow> None | Inr x \<Rightarrow> Some x))"

definition optional_str :: "query \<Rightarrow> string \<Rightarrow> string option" where
  "optional_str query name = (case first_of query name of None \<Rightarrow> None | Some v \<Rightarrow> if v = [] then None else Some v)"

definition truthy_param :: "query \<Rightarrow> string \<Rightarrow> bool" where
  "truthy_param query name =
     (case first_of query name of None \<Rightarrow> False | Some v \<Rightarrow> lower v \<in> {''1'', ''true'', ''yes'', ''on''})"

text \<open>\<open>value or default\<close> for a number.\<close>

definition or_default :: "'n::zero option \<Rightarrow> 'n \<Rightarrow> 'n" where
  "or_default v dflt = (case v of None \<Rightarrow> dflt | Some n \<Rightarrow> if n = 0 then dflt else n)"

definition SUBRESOURCES :: "string list" where
  "SUBRESOURCES = [''evidence'', ''events'', ''findings'', ''decisions'', ''adjudications'']"

definition split_session_subresource :: "string \<Rightarrow> string \<times> string option" where
  "split_session_subresource remainder =
     (case filter (\<lambda>sub. suffix (''/'' @ sub) remainder) SUBRESOURCES of
        [] \<Rightarrow> (remainder, None)
      | sub # _ \<Rightarrow> (take (length remainder - Suc (length sub)) remainder, Some sub))"

definition not_found :: reply where
  "not_found = Problem 404 ''not_found'' ''Route not found.''"

definition management_disabled :: reply where
  "management_disabled = Problem 403 ''llm_config_management_disabled''
     ''LLM configuration management is available only on loopback API servers.''"

definition invalid_json :: reply where
  "invalid_json = Problem 400 ''invalid_json'' ''Request body must be valid JSON.''"

definition is_json_request :: "http_request \<Rightarrow> bool" where
  "is_json_request r =
     (lower (strip (fst (partition_at (CHR '';'') (str_or (rq_content_type r) [])))) = ''application/json'')"

definition unsupported_media :: reply where
  "unsupported_media = Problem 415 ''unsupported_media_type'' ''LLM configuration requests require application/json.''"

text \<open>\<open>_read_json_body\<close>: \<open>None\<close> stands for a body that is no JSON object.\<close>

definition read_json_body :: "decoder \<Rightarrow> http_request \<Rightarrow> exn + jdict option" where
  "read_json_body D r =
     (case py_int (case rq_content_length r of None \<Rightarrow> ''0'' | Some n \<Rightarrow> n) of
        Inl e \<Rightarrow> Inl e
      | Inr n \<Rightarrow>
          if n \<le> 0 then Inr (Some [])
          else case utf8_decode (take (nat n) (rq_body r)) of
            None \<Rightarrow> Inl (PyError ''UnicodeDecodeError'')
          | Some t \<Rightarrow>
              (case loads D t of
                 Inr (JObj d) \<Rightarrow> Inr (Some d)
               | Inr _ \<Rightarrow> Inr None
               | Inl (PyError c) \<Rightarrow> if c = ''JSONDecodeError'' then Inr None else Inl (PyError c)
               | Inl e \<Rightarrow> Inl e))"

section \<open>GET\<close>

text \<open>\<open>path[len(prefix):]\<close>, unquoted and without slashes at its end.\<close>

definition path_rest :: "string \<Rightarrow> string \<Rightarrow> string" where
  "path_rest pre path = rstrip_if (\<lambda>c. c = CHR ''/'') (unquote (drop (length pre) path))"

definition session_routes :: "api_server \<Rightarrow> string \<Rightarrow> query \<Rightarrow> store \<Rightarrow> reply" where
  "session_routes V path query d =
     (case split_session_subresource (path_rest ''/api/v0/sessions/'' path) of
        (session_id, sub) \<Rightarrow>
          if session_id = [] then not_found
          else if session_id \<notin> set (list_sessions d)
          then Problem 404 ''session_not_found'' (''Session not found: '' @ session_id)
          else (case sub of
              None \<Rightarrow> Json 200 (build_api_session (as_db_path V) session_id (truthy_param query ''compact'') d)
            | Some sb \<Rightarrow>
                if sb = ''evidence''
                then Json 200 (EvidenceData (evidence_from_context (optional_str query ''finding_id'')
                       (optional_str query ''rule_id'') (reconstruct_from_sqlite session_id d)))
                else if sb = ''events'' then Json 200 (EventsData session_id (events_for_session session_id d))
                else if sb = ''findings'' then Json 200 (FindingsData session_id (findings_for_session session_id d))
                else if sb = ''decisions'' then Json 200 (DecisionsData session_id (policy_decisions_for_session session_id d))
                else if sb = ''adjudications''
                then Json 200 (AdjudicationsData session_id (llm_adjudications_for_session session_id d))
                else if sb = ''tool-result-gates''
                then Json 200 (ToolGatesData session_id (tool_result_gate_records_for_session session_id d))
                else if sb = ''runtime-gates''
                then Json 200 (RuntimeGatesData session_id (runtime_gate_records_for_session session_id d))
                else not_found))"

definition approval_routes ::
  "api_server \<Rightarrow> string \<Rightarrow> 'a sys_scheme \<Rightarrow> (exn + reply) \<times> 'a sys_scheme" where
  "approval_routes V path s =
     (let approval_id = path_rest ''/api/v0/approvals/'' path in
      if approval_id = [] \<or> CHR ''/'' \<in> set approval_id then (Inr not_found, s)
      else (case build_approval_detail approval_id (Some (as_max_age V)) s of
          (Inl e, s) \<Rightarrow> (Inl e, s)
        | (Inr None, s) \<Rightarrow> (Inr (Problem 404 ''approval_not_found'' (''Approval not found: '' @ approval_id)), s)
        | (Inr (Some detail), s) \<Rightarrow> (Inr (Json 200 (ApprovalData detail)), s)))"

definition config_reply :: "(config_error + api_data) \<Rightarrow> config_error + reply" where
  "config_reply r = map_sum id (Json 200) r"

definition raised :: "(exn + 'x) \<Rightarrow> config_error + 'x" where
  "raised r = map_sum ConfigRaised id r"

definition gate_metrics_reply :: "api_lib \<Rightarrow> query \<Rightarrow> store \<Rightarrow> exn + reply" where
  "gate_metrics_reply L query d =
     (case build_gate_metrics (ai_r4 L) d (optional_str query ''session_id'')
             (or_default (optional_float (ai_config L) query ''confidence_threshold'') (85 / 100)) of
        Inr m \<Rightarrow> Inr (Json 200 (GateMetricsData m))
      | Inl (GateCalibrationError code message) \<Rightarrow> Inl (PyError ''GateCalibrationError'')
      | Inl (CalibrationRaised e) \<Rightarrow> Inl e)"

text \<open>The body of the \<open>try\<close> statement of \<open>do_GET\<close>.\<close>

definition get_route ::
  "api_server \<Rightarrow> api_lib \<Rightarrow> string \<Rightarrow> query \<Rightarrow> 'a api_state_scheme \<Rightarrow> (config_error + reply) \<times> 'a api_state_scheme" where
  "get_route V L path query s =
     (if path \<in> {''/console'', ''/console/''}
      then (case get_console_asset (ai_resource L) [] of
              Some a \<Rightarrow> (Inr (Asset 200 a), s) | None \<Rightarrow> (Inl (ConfigRaised (PyError ''ConsoleAssetNotFound'')), s))
      else if prefix ''/console/assets/'' path
      then (Inr (case get_console_asset (ai_resource L) (unquote (drop (length ''/console/assets/'') path)) of
              Some a \<Rightarrow> Asset 200 a | None \<Rightarrow> Problem 404 ''asset_not_found'' ''Console asset not found.''), s)
      else if path = ''/health'' then (Inr (Json 200 HealthData), s)
      else if path = ''/api/v0/endpoint-agent/health''
      then (let status_path = resolve_agent_status_path (ai_env L) (as_status_path V) in
            case build_agent_health (ai_fromiso L) status_path None (ai_status_file L status_path) s of
              (r, s) \<Rightarrow> (raised (map_sum id (\<lambda>h. Json 200 (AgentHealthData h)) r), s))
      else if path = ''/api/v0/llm/config''
      then (if \<not> as_management V then Inr management_disabled
            else config_reply (map_sum id ConfigData (build_llm_config_view (ai_config L) (ai_env L) (sv_config s))), s)
      else if path = ''/api/v0/llm/adjudications/metrics'' then (raised (gate_metrics_reply L query (sy_db s)), s)
      else if path = ''/api/v0/tool-result-gate/metrics''
      then (Inr (Json 200 (build_tool_result_gate_metrics (sy_db s))), s)
      else if path = ''/api/v0/runtime-gates/metrics''
      then (Inr (Json 200 (build_runtime_gate_metrics (sy_db s))), s)
      else if path = ''/api/v0/approvals''
      then (case build_approvals_index (optional_str query ''status'') (optional_int query ''limit'')
                   (or_default (optional_int query ''offset'') 0) (Some (as_max_age V)) s of
              (r, s) \<Rightarrow> (raised (map_sum id (\<lambda>x. Json 200 (ApprovalsData x)) r), s))
      else if prefix ''/api/v0/approvals/'' path
      then (case approval_routes V path s of (r, s) \<Rightarrow> (raised r, s))
      else if path = ''/api/v0/sessions''
      then (Inr (Json 200 (SessionsData (build_api_index (as_db_path V) (optional_int query ''limit'')
              (or_default (optional_int query ''offset'') 0) (sy_db s)))), s)
      else if prefix ''/api/v0/sessions/'' path then (Inr (session_routes V path query (sy_db s)), s)
      else (Inr not_found, s))"

text \<open>What escapes \<open>urlparse\<close> ends the connection; what escapes a view becomes a reply.\<close>

definition do_GET ::
  "api_server \<Rightarrow> api_lib \<Rightarrow> http_request \<Rightarrow> 'a api_state_scheme \<Rightarrow> (exn + reply) \<times> 'a api_state_scheme" where
  "do_GET V L r s =
     (case urlparse (cl_bracketed (ai_config L)) (rq_target r) of
        Inl e \<Rightarrow> (Inl e, s)
      | Inr u \<Rightarrow>
          (case get_route V L (ur_path u) (parse_qs (ur_query u)) s of
             (Inr reply, s) \<Rightarrow> (Inr reply, s)
           | (Inl (LLMConfigurationError code message), s) \<Rightarrow> (Inr (Problem 500 code message), s)
           | (Inl (ConfigRaised e), s) \<Rightarrow> (Inr (Internal 500 ''internal_error'' e), s)))"

section \<open>POST\<close>

definition text_field :: "jdict \<Rightarrow> string \<Rightarrow> string \<Rightarrow> string" where
  "text_field body name dflt = (if truthy (dget body name) then py_str (dget body name) else dflt)"

text \<open>\<open>status not in {"approved", "denied"}\<close>: a list or an object cannot be looked up.\<close>

definition requested_status :: "jdict \<Rightarrow> exn + approval_status option" where
  "requested_status body =
     (case dget body ''status'' of
        JStr t \<Rightarrow> Inr (if t = ''approved'' then Some Approved else if t = ''denied'' then Some Denied else None)
      | JList _ \<Rightarrow> Inl (PyError ''TypeError'')
      | JObj _ \<Rightarrow> Inl (PyError ''TypeError'')
      | _ \<Rightarrow> Inr None)"

definition resolve_route ::
  "api_server \<Rightarrow> api_lib \<Rightarrow> string \<Rightarrow> http_request \<Rightarrow> 'a api_state_scheme \<Rightarrow> (exn + reply) \<times> 'a api_state_scheme" where
  "resolve_route V L path r s =
     (let approval_id = rstrip_if (\<lambda>c. c = CHR ''/'')
            (unquote (take (length path - length ''/api/v0/approvals/'' - length ''/resolve'') (drop (length ''/api/v0/approvals/'') path))) in
      if approval_id = [] then (Inr not_found, s)
      else (case read_json_body (ai_decoder L) r of
          Inl e \<Rightarrow> (Inl e, s)
        | Inr None \<Rightarrow> (Inr invalid_json, s)
        | Inr (Some body) \<Rightarrow>
      (case requested_status body of
          Inl e \<Rightarrow> (Inl e, s)
        | Inr None \<Rightarrow> (Inr (Problem 400 ''invalid_status'' (''Field status must be '' @ [CHR 39] @ ''approved'' @ [CHR 39] @ '' or ''
              @ [CHR 39] @ ''denied'' @ [CHR 39] @ ''.'')), s)
        | Inr (Some status) \<Rightarrow>
      (case resolve_approval approval_id status (text_field body ''resolved_by'' ''console'')
              (case dget body ''comment'' of JStr c \<Rightarrow> Some c | _ \<Rightarrow> None) (as_trace V) (Some (as_max_age V)) s of
          (Inl (KeyError _), s) \<Rightarrow> (Inr (Problem 404 ''approval_not_found'' (''Approval not found: '' @ approval_id)), s)
        | (Inl (ApprovalAlreadyResolved _), s) \<Rightarrow>
            (Inr (Problem 409 ''approval_already_resolved'' (''Approval already resolved: '' @ approval_id)), s)
        | (Inr request, s) \<Rightarrow>
            (case build_approval_detail (ap_id request) None s of
               (Inl e, s) \<Rightarrow> (Inl e, s)
             | (Inr None, s) \<Rightarrow> (Inr (Json 200 (ApprovalOnly request)), s)
             | (Inr (Some detail), s) \<Rightarrow> (Inr (Json 200 (ApprovalData detail)), s))))))"

definition test_route ::
  "api_server \<Rightarrow> api_lib \<Rightarrow> http_request \<Rightarrow> 'a api_state_scheme \<Rightarrow> (config_error + reply) \<times> 'a api_state_scheme" where
  "test_route V L r s =
     (if \<not> as_management V then (Inr management_disabled, s)
      else if \<not> is_json_request r then (Inr unsupported_media, s)
      else case read_json_body (ai_decoder L) r of
        Inl e \<Rightarrow> (Inl (ConfigRaised e), s)
      | Inr None \<Rightarrow> (Inr invalid_json, s)
      | Inr (Some body) \<Rightarrow>
          (case test_llm_config (ai_config L) (ai_post L) (ai_schema L) (ai_transport L) (ai_env L) (sv_config s)
                  (text_field body ''target'' ''triage'') s of
             (r, s) \<Rightarrow> (config_reply (map_sum id ConnectionData r), s)))"

definition post_route ::
  "api_server \<Rightarrow> api_lib \<Rightarrow> string \<Rightarrow> http_request \<Rightarrow> 'a api_state_scheme \<Rightarrow> (config_error + reply) \<times> 'a api_state_scheme" where
  "post_route V L path r s =
     (if path = ''/api/v0/llm/config/test'' then test_route V L r s
      else if prefix ''/api/v0/approvals/'' path \<and> suffix ''/resolve'' path
      then (case resolve_route V L path r s of (x, s) \<Rightarrow> (raised x, s))
      else (Inr not_found, s))"

definition do_POST :: "api_server \<Rightarrow> api_lib \<Rightarrow> http_request \<Rightarrow> 'a api_state_scheme \<Rightarrow> (exn + reply) \<times> 'a api_state_scheme" where
  "do_POST V L r s =
     (case urlparse (cl_bracketed (ai_config L)) (rq_target r) of
        Inl e \<Rightarrow> (Inl e, s)
      | Inr u \<Rightarrow>
          (case post_route V L (ur_path u) r s of
             (Inr reply, s) \<Rightarrow> (Inr reply, s)
           | (Inl (LLMConfigurationError code message), s) \<Rightarrow> (Inr (Problem 400 code message), s)
           | (Inl (ConfigRaised (LLMProviderError code message)), s) \<Rightarrow>
               (Inr (Problem (if code = ''provider_timeout'' then 504 else 502) code message), s)
           | (Inl (ConfigRaised e), s) \<Rightarrow> (Inr (Internal 500 ''internal_error'' e), s)))"

section \<open>PUT\<close>

definition VALUE_ERRORS :: "string list" where
  "VALUE_ERRORS = [''ValueError'', ''ValidationError'', ''UnicodeDecodeError'', ''JSONDecodeError'', ''GateCalibrationError'']"

definition put_route ::
  "api_server \<Rightarrow> api_lib \<Rightarrow> string \<Rightarrow> http_request \<Rightarrow> 'a api_state_scheme \<Rightarrow> (config_error + reply) \<times> 'a api_state_scheme" where
  "put_route V L path r s =
     (if path \<noteq> ''/api/v0/llm/config'' then (Inr not_found, s)
      else if \<not> as_management V then (Inr management_disabled, s)
      else if \<not> is_json_request r then (Inr unsupported_media, s)
      else case read_json_body (ai_decoder L) r of
        Inl e \<Rightarrow> (Inl (ConfigRaised e), s)
      | Inr None \<Rightarrow> (Inr invalid_json, s)
      | Inr (Some body) \<Rightarrow>
          (case update_llm_config (ai_config L) (ai_env L) (ai_save L) body (sv_config s) of
             (r, file) \<Rightarrow> (config_reply (map_sum id ConfigData r), s\<lparr>sv_config := file\<rparr>)))"

definition do_PUT ::
  "api_server \<Rightarrow> api_lib \<Rightarrow> http_request \<Rightarrow> 'a api_state_scheme \<Rightarrow> (exn + reply) \<times> 'a api_state_scheme" where
  "do_PUT V L r s =
     (case urlparse (cl_bracketed (ai_config L)) (rq_target r) of
        Inl e \<Rightarrow> (Inl e, s)
      | Inr u \<Rightarrow>
          (case put_route V L (ur_path u) r s of
             (Inr reply, s) \<Rightarrow> (Inr reply, s)
           | (Inl (LLMConfigurationError code message), s) \<Rightarrow> (Inr (Problem 400 code ''LLM configuration is invalid.''), s)
           | (Inl (ConfigRaised (PyError c)), s) \<Rightarrow>
               (Inr (if c \<in> set VALUE_ERRORS then Problem 400 ''invalid_config'' ''LLM configuration is invalid.''
                     else Problem 500 ''internal_error'' ''Unable to save LLM configuration.''), s)
           | (Inl (ConfigRaised e), s) \<Rightarrow> (Inr (Problem 500 ''internal_error'' ''Unable to save LLM configuration.''), s)))"

section \<open>The address of the server\<close>

text \<open>\<open>loopback\<close> is \<open>ip_address(host).is_loopback\<close>, or \<open>None\<close> for no address.\<close>

definition validate_api_bind_host :: "(string \<Rightarrow> bool option) \<Rightarrow> string \<Rightarrow> bool \<Rightarrow> exn option" where
  "validate_api_bind_host loopback host allow_insecure =
     (if allow_insecure \<or> lower host = ''localhost'' then None
      else case loopback host of
        Some True \<Rightarrow> None
      | _ \<Rightarrow> Some (PyError ''ValueError''))"

definition is_loopback_host :: "(string \<Rightarrow> bool option) \<Rightarrow> string \<Rightarrow> bool" where
  "is_loopback_host loopback host = (lower host = ''localhost'' \<or> loopback host = Some True)"

definition create_api_server ::
  "(string \<Rightarrow> bool option) \<Rightarrow> string \<Rightarrow> string \<Rightarrow> string option \<Rightarrow> bool \<Rightarrow> int \<Rightarrow> bool option \<Rightarrow> api_server" where
  "create_api_server loopback db_path host status_path trace max_age management =
     \<lparr>as_db_path = db_path, as_status_path = status_path, as_trace = trace, as_max_age = max_age,
      as_management = (case management of None \<Rightarrow> is_loopback_host loopback host | Some m \<Rightarrow> m)\<rparr>"

section \<open>Routing\<close>

lemma rstrip_none: "s = [] \<or> \<not> p (last s) \<Longrightarrow> rstrip_if p s = s"
  by (cases s rule: rev_cases) (auto simp: rstrip_if_def)

lemma suffix_longer: "length a \<le> length b \<Longrightarrow> suffix a (x @ b) \<longleftrightarrow> suffix a b"
  by (auto simp: suffix_append)

definition GATE_VIEWS :: "string list" where
  "GATE_VIEWS = [''/tool-result-gates'', ''/runtime-gates'']"

lemma gate_views_are_no_subresource:
  assumes "kind \<in> set GATE_VIEWS"
  shows "split_session_subresource (x @ kind) = (x @ kind, None)"
proof -
  have "list_all (\<lambda>b. list_all (\<lambda>sub. length (''/'' @ sub) \<le> length b \<and> \<not> suffix (''/'' @ sub) b) SUBRESOURCES) GATE_VIEWS"
    by code_simp
  with assms have "\<forall>sub \<in> set SUBRESOURCES. \<not> suffix (''/'' @ sub) (x @ kind)"
    by (auto simp: list_all_iff suffix_longer simp del: append_Cons)
  then have "filter (\<lambda>sub. suffix (''/'' @ sub) (x @ kind)) SUBRESOURCES = []"
    by (simp add: filter_empty_conv)
  then show ?thesis by (simp add: split_session_subresource_def)
qed

lemma plain_path_tail: "plain_path (a @ b) \<Longrightarrow> CHR ''%'' \<notin> set b"
  by (auto simp: plain_path_def list_all_iff)

lemma do_GET_plain:
  "plain_path (rq_target r) \<Longrightarrow> do_GET V L r s =
     (case get_route V L (rq_target r) [] s of
        (Inr reply, s) \<Rightarrow> (Inr reply, s)
      | (Inl (LLMConfigurationError code message), s) \<Rightarrow> (Inr (Problem 500 code message), s)
      | (Inl (ConfigRaised e), s) \<Rightarrow> (Inr (Internal 500 ''internal_error'' e), s))"
proof -
  have q: "parse_qs [] = []" by (simp add: parse_qs_def split_at_def query_field_def partition_at_def map_filter_simps)
  show "plain_path (rq_target r) \<Longrightarrow> ?thesis" by (simp add: do_GET_def urlparse_plain q)
qed

text \<open>The two views of the gates of a session, which the server has handlers for, cannot be reached: their
  names are not among the ones the path is split at, so the request is answered as one for a session
  whose identifier ends in the name of the view.\<close>

theorem gate_views_unreachable:
  assumes "kind \<in> set GATE_VIEWS" and "rq_target r = ''/api/v0/sessions/'' @ i @ kind" and "plain_path (rq_target r)"
    and "i @ kind \<notin> set (list_sessions (sy_db s))"
  shows "do_GET V L r s = (Inr (Problem 404 ''session_not_found'' (''Session not found: '' @ i @ kind)), s)"
proof -
  let ?pre = "''/api/v0/sessions/''"
  have k: "kind \<noteq> []" "last kind = CHR ''s''" using assms(1) by (auto simp: GATE_VIEWS_def)
  have "CHR ''%'' \<notin> set (i @ kind)" using plain_path_tail [of ?pre "i @ kind"] assms(2,3) by simp
  then have "unquote (i @ kind) = i @ kind" by (rule unquote_plain)
  moreover have "rstrip_if (\<lambda>c. c = CHR ''/'') (i @ kind) = i @ kind"
    by (rule rstrip_none) (use k in simp)
  ultimately have rest: "path_rest ?pre (?pre @ i @ kind) = i @ kind" by (simp add: path_rest_def)
  have "session_routes V (?pre @ i @ kind) [] (sy_db s) = Problem 404 ''session_not_found'' (''Session not found: '' @ i @ kind)"
    unfolding session_routes_def rest using assms(4) k gate_views_are_no_subresource [OF assms(1), of i] by simp
  moreover have "get_route V L (?pre @ x) [] s = (Inr (session_routes V (?pre @ x) [] (sy_db s)), s)" for x
    by (simp add: get_route_def)
  ultimately show ?thesis
    using do_GET_plain [OF assms(3), of V L s] assms(2) by simp
qed

section \<open>What a GET changes\<close>

lemma expire_first_db:
  "sy_db (snd (expire_first a s)) = sy_db s \<or>
   (\<exists>age. a = Some age \<and> sy_db (snd (expire_first a s)) = sy_db (snd (expire_stale_pending_approvals age Hook False s)))"
  by (auto simp: expire_first_def split: option.splits prod.splits sum.splits)

lemma utc_now_config [simp]: "sv_config (snd (utc_now s)) = sv_config s"
  by (simp add: utc_now_def)

lemma monotonic_config [simp]: "sv_config (snd (monotonic s)) = sv_config s"
  by (simp add: monotonic_def)

lemma new_event_config [simp]:
  "sv_config (snd (new_event ty src se rq sv to ca cx ar re er ra s)) = sv_config s"
  by (simp add: new_event_def new_ulid_def utc_now_def Let_def)

lemma record_resolution_config [simp]: "sv_config (snd (record_approval_resolution q src tr st s)) = sv_config s"
  by (simp add: record_approval_resolution_def keep_event_def case_prod_beta Let_def)

lemma transition_config [simp]:
  "sv_config (snd (snd (transition_approval_request i st b c d s))) = sv_config s"
  by (simp add: transition_approval_request_def case_prod_beta Let_def split: option.splits)

lemma mark_expired_config: "sv_config (snd (mark_approval_expired_with_audit i src tr s)) = sv_config s"
proof -
  obtain x d s1 where "mark_approval_expired i (sy_db s) s = (x, d, s1)" by (metis prod_cases3)
  moreover from this have "sv_config s1 = sv_config s"
    unfolding mark_approval_expired_def by (metis snd_conv transition_config)
  ultimately show ?thesis
    by (simp add: mark_approval_expired_with_audit_def on_store_def case_prod_beta Let_def split: sum.splits)
qed

lemma expire_each_config: "sv_config (snd (expire_each cutoff src tr rs s)) = sv_config s"
proof (induction rs arbitrary: s)
  case (Cons q rs)
  obtain x s1 where m: "mark_approval_expired_with_audit (ap_id q) src tr s = (x, s1)" by (metis surj_pair)
  then have "sv_config s1 = sv_config s" by (metis mark_expired_config snd_conv)
  with Cons [of s1] Cons [of s] show ?case
    by (auto simp: m split: sum.splits store_error.splits prod.splits)
qed simp

lemma expire_stale_config [simp]: "sv_config (snd (expire_stale_pending_approvals age src tr s)) = sv_config s"
  by (simp add: expire_stale_pending_approvals_def case_prod_beta Let_def expire_each_config)

lemma expire_first_config [simp]: "sv_config (snd (expire_first a s)) = sv_config s"
  by (cases a) (auto simp: expire_first_def split: prod.splits sum.splits dest!: arg_cong [where f = "sv_config \<circ> snd"])

lemma agent_health_frame:
  "sy_db (snd (build_agent_health f p st fl s)) = sy_db s"
  "sv_config (snd (build_agent_health f p st fl s)) = sv_config s"
  by (auto simp: build_agent_health_def read_agent_health_def evaluate_agent_health_def status_age_seconds_def
      utc_now_def Let_def split: option.splits sum.splits json.splits prod.splits)

text \<open>What a step left of the store: all of it, or what expiring stale requests leaves.\<close>

definition only_expires :: "int \<Rightarrow> 'a api_state_scheme \<Rightarrow> 'a api_state_scheme \<Rightarrow> bool" where
  "only_expires age s s' =
     (sv_config s' = sv_config s
      \<and> (sy_db s' = sy_db s \<or> sy_db s' = sy_db (snd (expire_stale_pending_approvals age Hook False s))))"

lemma expire_first_only: "only_expires age s (snd (expire_first (Some age) s))"
  using expire_first_db [of "Some age" s] by (auto simp: only_expires_def)

lemma approvals_index_state: "snd (build_approvals_index st lim' off a s) = snd (expire_first a s)"
  by (simp add: build_approvals_index_def split: prod.splits option.splits)

lemma approval_detail_state: "snd (build_approval_detail i a s) = snd (expire_first a s)"
  by (simp add: build_approval_detail_def split: prod.splits option.splits)

lemma approval_routes_only: "only_expires (as_max_age V) s (snd (approval_routes V path s))"
proof -
  obtain x s1 where d: "build_approval_detail (path_rest ''/api/v0/approvals/'' path) (Some (as_max_age V)) s = (x, s1)"
    by (metis surj_pair)
  then have "only_expires (as_max_age V) s s1" by (metis approval_detail_state expire_first_only snd_conv)
  then show ?thesis
    by (auto simp: approval_routes_def d Let_def only_expires_def split: sum.splits option.splits)
qed

lemma get_route_only: "only_expires (as_max_age V) s (snd (get_route V L path query s))"
proof -
  have same: "only_expires (as_max_age V) s s" by (simp add: only_expires_def)
  have health: "only_expires (as_max_age V) s (snd (build_agent_health f p st fl s))" for f p st fl
    by (simp add: only_expires_def agent_health_frame)
  have index: "only_expires (as_max_age V) s (snd (build_approvals_index st n m (Some (as_max_age V)) s))" for st n m
    by (simp add: approvals_index_state expire_first_only)
  show ?thesis
    using same health index approval_routes_only [of V s path]
    by (simp add: get_route_def case_prod_beta Let_def split: option.split)
qed

lemma do_GET_only: "only_expires (as_max_age V) s (snd (do_GET V L r s))"
proof (cases "urlparse (cl_bracketed (ai_config L)) (rq_target r)")
  case (Inl e)
  then show ?thesis by (simp add: do_GET_def only_expires_def)
next
  case (Inr u)
  obtain x s1 where g: "get_route V L (ur_path u) (parse_qs (ur_query u)) s = (x, s1)" by (metis surj_pair)
  then have "only_expires (as_max_age V) s s1" by (metis get_route_only snd_conv)
  then show ?thesis by (simp add: do_GET_def Inr g split: sum.splits config_error.splits)
qed

text \<open>Whatever is asked, a GET changes nothing but stale requests: the configuration file stays, and the
  store is the old one or what expiring the pending requests beyond the server's age leaves of it.\<close>

theorem get_only_expires:
  shows "only_expires (as_max_age V) s (snd (do_GET V L r s))"
  by (rule do_GET_only)

section \<open>Resolving a request over HTTP\<close>

text \<open>What resolving a request gives, for whatever is stored under its identifier.\<close>

definition resolution_of ::
  "string \<Rightarrow> approval_status \<Rightarrow> string \<Rightarrow> string option \<Rightarrow> approval_request option \<Rightarrow> store_error + approval_request \<Rightarrow>
   approval_request option \<Rightarrow> bool" where
  "resolution_of i st who c before res after =
     (case before of
        None \<Rightarrow> res = Inl (KeyError i) \<and> after = None
      | Some a \<Rightarrow>
          if ap_status a \<noteq> Pending then res = Inl (ApprovalAlreadyResolved a) \<and> after = Some a
          else (\<exists>t. res = Inl (ApprovalAlreadyResolved (expiry t a)) \<and> after = Some (expiry t a))
             \<or> (\<exists>t. res = Inr (transitioned st who c t a) \<and> after = Some (transitioned st who c t a)))"

lemma resolution_of_aged:
  "aged c x y \<Longrightarrow> resolution_of i st who cm y res z \<Longrightarrow> resolution_of i st who cm x res z"
  by (auto simp: resolution_of_def aged_def split: option.splits if_splits)

lemma resolve_with_audit_effect:
  assumes "approvals_ok (sy_db s)" and "resolve_approval_with_audit i st who c src tr s = (res, s')"
  shows "resolution_of i st who c (get_approval_request i (sy_db s)) res (get_approval_request i (sy_db s'))"
proof -
  obtain l s1 where s1: "expire_stale_pending_approvals DEFAULT_APPROVAL_TIMEOUT Hook False s = (Inr l, s1)"
      "approvals_ok (sy_db s1)" "\<exists>b. aged b (get_approval_request i (sy_db s)) (get_approval_request i (sy_db s1))"
    using stale_effect [OF assms(1)] by (auto simp: ages_def) blast
  obtain q s2 where q: "on_store (resolve_approval_request i st who c) s1 = (q, s2)" by (metis surj_pair)
  have res: "res = q" "get_approval_request i (sy_db s') = get_approval_request i (sy_db s2)"
    using assms(2)
    by (auto simp: resolve_approval_with_audit_def s1(1) q case_prod_beta Let_def frame_simps split: sum.splits)
  have "resolution_of i st who c (get_approval_request i (sy_db s1)) q (get_approval_request i (sy_db s2))"
    using resolve_after [OF s1(2), of i st who c]
    by (auto simp: q resolution_of_def split: option.splits if_splits)
  with s1(3) show ?thesis unfolding res by (blast intro: resolution_of_aged)
qed

lemma resolve_approval_effect:
  assumes "approvals_ok (sy_db s)" and "resolve_approval i st who c tr (Some age) s = (res, s')"
  shows "resolution_of i st who c (get_approval_request i (sy_db s)) res (get_approval_request i (sy_db s'))"
proof -
  obtain l s1 where s1: "expire_stale_pending_approvals age Hook False s = (Inr l, s1)"
      "approvals_ok (sy_db s1)" "\<exists>b. aged b (get_approval_request i (sy_db s)) (get_approval_request i (sy_db s1))"
    using stale_effect [OF assms(1)] by (auto simp: ages_def) blast
  with assms(2) have "resolve_approval_with_audit i st who c Hook tr s1 = (res, s')"
    by (simp add: resolve_approval_def expire_first_def)
  from resolve_with_audit_effect [OF s1(2) this] s1(3) show ?thesis by (blast intro: resolution_of_aged)
qed

text \<open>The path that resolves the request \<open>i\<close>, for an identifier without special characters.\<close>

definition resolve_path :: "string \<Rightarrow> string" where
  "resolve_path i = ''/api/v0/approvals/'' @ i @ ''/resolve''"

definition plain_id :: "string \<Rightarrow> bool" where
  "plain_id i = (i \<noteq> [] \<and> last i \<noteq> CHR ''/'' \<and> plain_path (resolve_path i))"

lemma do_POST_plain:
  "plain_path (rq_target r) \<Longrightarrow> do_POST V L r s =
     (case post_route V L (rq_target r) r s of
        (Inr reply, s) \<Rightarrow> (Inr reply, s)
      | (Inl (LLMConfigurationError code message), s) \<Rightarrow> (Inr (Problem 400 code message), s)
      | (Inl (ConfigRaised (LLMProviderError code message)), s) \<Rightarrow>
          (Inr (Problem (if code = ''provider_timeout'' then 504 else 502) code message), s)
      | (Inl (ConfigRaised e), s) \<Rightarrow> (Inr (Internal 500 ''internal_error'' e), s))"
  by (simp add: do_POST_def urlparse_plain)

lemma resolve_path_id:
  assumes "plain_id i"
  shows "rstrip_if (\<lambda>c. c = CHR ''/'') (unquote (take (length (resolve_path i) - length ''/api/v0/approvals/'' - length ''/resolve'')
      (drop (length ''/api/v0/approvals/'') (resolve_path i)))) = i"
proof -
  have "CHR ''%'' \<notin> set i"
    using assms plain_path_tail [of "''/api/v0/approvals/''" "i @ ''/resolve''"] by (auto simp: plain_id_def resolve_path_def)
  then have "unquote i = i" by (rule unquote_plain)
  with assms show ?thesis by (simp add: resolve_path_def plain_id_def rstrip_none)
qed

definition unknown_approval :: "string \<Rightarrow> reply" where
  "unknown_approval i = Problem 404 ''approval_not_found'' (''Approval not found: '' @ i)"

definition conflict :: "string \<Rightarrow> reply" where
  "conflict i = Problem 409 ''approval_already_resolved'' (''Approval already resolved: '' @ i)"

lemma resolve_route_result:
  assumes "plain_id i" and "read_json_body (ai_decoder L) r = Inr (Some body)" and "requested_status body = Inr (Some st)"
    and "resolve_approval i st (text_field body ''resolved_by'' ''console'')
           (case dget body ''comment'' of JStr c \<Rightarrow> Some c | _ \<Rightarrow> None) (as_trace V) (Some (as_max_age V)) s = (res, s1)"
  shows "resolve_route V L (resolve_path i) r s =
     (case res of
        Inl (KeyError _) \<Rightarrow> (Inr (unknown_approval i), s1)
      | Inl (ApprovalAlreadyResolved _) \<Rightarrow> (Inr (conflict i), s1)
      | Inr q \<Rightarrow> (Inr (case get_approval_request (ap_id q) (sy_db s1) of
                    None \<Rightarrow> Json 200 (ApprovalOnly q) | Some x \<Rightarrow> Json 200 (ApprovalData (approval_payload_of (sy_db s1) x))), s1))"
proof -
  have i: "i \<noteq> []" using assms(1) by (simp add: plain_id_def)
  show ?thesis
    unfolding resolve_route_def resolve_path_id [OF assms(1)] Let_def
    using i by (simp add: assms(2-4) unknown_approval_def conflict_def build_approval_detail_def expire_first_def
        split: sum.splits store_error.splits option.splits)
qed

text \<open>The name and the comment of a resolution as the body gives them.\<close>

definition resolver_of :: "jdict \<Rightarrow> string" where
  "resolver_of body = text_field body ''resolved_by'' ''console''"

definition comment_of :: "jdict \<Rightarrow> string option" where
  "comment_of body = (case dget body ''comment'' of JStr c \<Rightarrow> Some c | _ \<Rightarrow> None)"

text \<open>What the server answers to the resolution of \<open>i\<close>, from what was stored under \<open>i\<close> before and is after.\<close>

definition answers_resolution ::
  "string \<Rightarrow> approval_status \<Rightarrow> jdict \<Rightarrow> approval_request option \<Rightarrow> exn + reply \<Rightarrow> approval_request option \<Rightarrow> bool" where
  "answers_resolution i st body before reply after =
     (case before of
        None \<Rightarrow> reply = Inr (unknown_approval i) \<and> after = None
      | Some a \<Rightarrow>
          if ap_status a \<noteq> Pending then reply = Inr (conflict i) \<and> after = Some a
          else (\<exists>t. reply = Inr (conflict i) \<and> after = Some (expiry t a))
             \<or> (\<exists>t p. reply = Inr (Json 200 (ApprovalData p)) \<and> after = Some (ay_approval p)
                  \<and> ay_approval p = transitioned st (resolver_of body) (comment_of body) t a))"

lemma resolved_detail [simp]:
  "ay_approval (approval_payload_of d q) = q" "ap_id (transitioned st who c t q) = ap_id q"
  by (simp_all add: approval_payload_of_def transitioned_def)

lemma resolved_answer:
  assumes "before = Some a" "ap_status a = Pending"
    and "reply = Inr (Json 200 (ApprovalData p))" "after = Some (ay_approval p)"
    and "ay_approval p = transitioned st (resolver_of body) (comment_of body) t a"
  shows "answers_resolution i st body before reply after"
  using assms by (auto simp: answers_resolution_def)

lemma resolve_path_routed:
  "post_route V L (resolve_path i) r s = (case resolve_route V L (resolve_path i) r s of (x, s') \<Rightarrow> (raised x, s'))"
  by (simp add: post_route_def resolve_path_def suffix_def)

text \<open>C38. \<open>POST /api/v0/approvals/<id>/resolve\<close> with a readable body and a status answers by what is stored: 404 for
  an unknown request, which stays unknown; 409 for one already resolved, which stays as it is, and for one that
  expired by then, which is stored as expired; and otherwise 200 with the request resolved as asked, by the name
  and with the comment of the body, which is what is stored. The content type of the request plays no part.\<close>

theorem http_resolution:
  assumes "approvals_ok (sy_db s)" and "plain_id i" and "rq_target r = resolve_path i"
    and "read_json_body (ai_decoder L) r = Inr (Some body)" and "requested_status body = Inr (Some st)"
    and "do_POST V L r s = (reply, s')"
  shows "answers_resolution i st body (get_approval_request i (sy_db s)) reply (get_approval_request i (sy_db s'))"
proof -
  obtain res s1 where e: "resolve_approval i st (resolver_of body) (comment_of body) (as_trace V) (Some (as_max_age V)) s = (res, s1)"
    by (metis surj_pair)
  note route = resolve_route_result [OF assms(2,4,5) e [unfolded resolver_of_def comment_of_def]]
  have effect: "resolution_of i st (resolver_of body) (comment_of body) (get_approval_request i (sy_db s)) res
      (get_approval_request i (sy_db s1))"
    by (rule resolve_approval_effect [OF assms(1) e])
  have key: "ap_id a = i" if "get_approval_request i (sy_db s) = Some a" for a
    using get_key [OF assms(1) that] .
  have plain: "plain_path (resolve_path i)" using assms(2) by (simp add: plain_id_def)
  have post: "do_POST V L r s = (case post_route V L (resolve_path i) r s of
        (Inr reply, s) \<Rightarrow> (Inr reply, s)
      | (Inl (LLMConfigurationError code message), s) \<Rightarrow> (Inr (Problem 400 code message), s)
      | (Inl (ConfigRaised (LLMProviderError code message)), s) \<Rightarrow>
          (Inr (Problem (if code = ''provider_timeout'' then 504 else 502) code message), s)
      | (Inl (ConfigRaised e), s) \<Rightarrow> (Inr (Internal 500 ''internal_error'' e), s))"
    using do_POST_plain [of r V L s] plain assms(3) by simp
  show ?thesis
  proof (cases res)
    case (Inl e)
    with assms(6) effect show ?thesis unfolding post resolve_path_routed route
      by (auto simp: answers_resolution_def resolution_of_def raised_def split: option.splits if_splits)
  next
    case (Inr q)
    with effect obtain a t where a: "get_approval_request i (sy_db s) = Some a" "ap_status a = Pending"
        "q = transitioned st (resolver_of body) (comment_of body) t a" "get_approval_request i (sy_db s1) = Some q"
      by (auto simp: resolution_of_def split: option.splits if_splits)
    with key have "ap_id q = i" by simp
    with a(4) Inr assms(6) have reply: "reply = Inr (Json 200 (ApprovalData (approval_payload_of (sy_db s1) q)))" "s' = s1"
      unfolding post resolve_path_routed route by (auto simp: raised_def)
    show ?thesis
      by (rule resolved_answer [OF a(1,2) reply(1)]) (use a(3,4) reply(2) in simp_all)
  qed
qed

section \<open>What a POST and a PUT change\<close>

lemma post_attempts_config: "sv_config (snd (post_attempts T P body dl ns s)) = sv_config s"
proof (induction ns arbitrary: s)
  case (Cons n ns)
  then show ?case
    by (simp add: post_once_def back_off_def monotonic_def provider_error_def Let_def split: http_outcome.split)
qed (simp add: provider_error_def)

lemma test_llm_config_config [simp]: "sv_config (snd (test_llm_config L post S T env fl target s)) = sv_config s"
proof -
  have retries: "sv_config (snd (post_with_retries T P b s)) = sv_config s" for P b and s :: "'a api_state_scheme"
    by (simp only: post_with_retries_def post_attempts_config monotonic_def Let_def split) simp
  have "sv_config (snd (check_connection T P m n s)) = sv_config s" for P m n
    by (auto simp: check_connection_def retries monotonic_def case_prod_beta Let_def split: sum.split exn.split json.split)
  moreover have "sv_config (snd (openai_adjudicate post S A pl ids s)) = sv_config s" for A pl ids
    by (simp add: openai_adjudicate_def monotonic_def case_prod_beta Let_def split: sum.splits)
  ultimately show ?thesis
    by (simp add: test_llm_config_def case_prod_beta split: sum.splits)
qed

lemma resolve_with_audit_config: "sv_config (snd (resolve_approval_with_audit i st who c src tr s)) = sv_config s"
proof -
  obtain x s1 where e: "expire_stale_pending_approvals DEFAULT_APPROVAL_TIMEOUT Hook False s = (x, s1)" by (metis surj_pair)
  then have s1: "sv_config s1 = sv_config s" by (metis expire_stale_config snd_conv)
  obtain q s2 where q: "on_store (resolve_approval_request i st who c) s1 = (q, s2)" by (metis surj_pair)
  then have "sv_config s2 = sv_config s1"
    by (auto simp: on_store_def resolve_approval_request_def case_prod_beta)
  with s1 show ?thesis
    by (auto simp: resolve_approval_with_audit_def e q case_prod_beta Let_def split: sum.splits)
qed

lemma resolve_approval_config [simp]: "sv_config (snd (resolve_approval i st who c tr a s)) = sv_config s"
proof -
  obtain x s1 where e: "expire_first a s = (x, s1)" by (metis surj_pair)
  then have "sv_config s1 = sv_config s" by (metis expire_first_config snd_conv)
  then show ?thesis by (simp add: resolve_approval_def e resolve_with_audit_config split: option.splits)
qed

lemma resolve_route_config: "sv_config (snd (resolve_route V L path r s)) = sv_config s"
  by (auto simp: resolve_route_def Let_def approval_detail_state case_prod_beta
      split: sum.split option.split store_error.split)

lemma test_route_config: "sv_config (snd (test_route V L r s)) = sv_config s"
  by (auto simp: test_route_def case_prod_beta split: sum.split option.split)

lemma post_route_config: "sv_config (snd (post_route V L path r s)) = sv_config s"
  by (simp add: post_route_def test_route_config resolve_route_config case_prod_beta)

text \<open>What a PUT to the route of the configuration is taken for, if it is taken.\<close>

definition accepted_update :: "api_server \<Rightarrow> api_lib \<Rightarrow> http_request \<Rightarrow> jdict option" where
  "accepted_update V L r =
     (case (urlparse (cl_bracketed (ai_config L)) (rq_target r), read_json_body (ai_decoder L) r) of
        (Inr u, Inr (Some body)) \<Rightarrow>
          if ur_path u = ''/api/v0/llm/config'' \<and> as_management V \<and> is_json_request r then Some body else None
      | _ \<Rightarrow> None)"

text \<open>C39. The configuration file changes only by a PUT to its route whose body is a JSON object, on a server that
  manages the configuration and with a request that declares itself JSON; then it is what updating it leaves. No
  GET and no POST changes it, and no PUT changes the store.\<close>

theorem config_changes_only_by_put:
  shows "sv_config (snd (do_GET V L r s)) = sv_config s
    \<and> sv_config (snd (do_POST V L r s)) = sv_config s
    \<and> sy_db (snd (do_PUT V L r s)) = sy_db s
    \<and> sv_config (snd (do_PUT V L r s)) =
        (case accepted_update V L r of
           None \<Rightarrow> sv_config s
         | Some body \<Rightarrow> snd (update_llm_config (ai_config L) (ai_env L) (ai_save L) body (sv_config s)))"
proof (intro conjI)
  show "sv_config (snd (do_GET V L r s)) = sv_config s"
    using do_GET_only [of V s L r] by (simp add: only_expires_def)
  have put: "sy_db (snd (put_route V L path r s)) = sy_db s" for path
    by (auto simp: put_route_def split: sum.split option.split prod.split)
  show "sy_db (snd (do_PUT V L r s)) = sy_db s"
    using put by (auto simp: do_PUT_def split: sum.split config_error.split exn.split prod.split) (metis snd_conv)+
  show "sv_config (snd (do_POST V L r s)) = sv_config s"
    using post_route_config [of V L _ r s]
    by (auto simp: do_POST_def split: sum.split config_error.split exn.split prod.split) (metis snd_conv)+
  show "sv_config (snd (do_PUT V L r s)) =
        (case accepted_update V L r of
           None \<Rightarrow> sv_config s
         | Some body \<Rightarrow> snd (update_llm_config (ai_config L) (ai_env L) (ai_save L) body (sv_config s)))"
    by (auto simp: do_PUT_def put_route_def accepted_update_def split: sum.splits option.splits config_error.splits exn.splits prod.splits)
qed

section \<open>A server\<close>

text \<open>A server on a loopback address with no file of configuration, whose store holds one pending request,
  for the witnesses.\<close>

definition lib0 :: api_lib where
  "lib0 = \<lparr>ai_config = lib_of saved0, ai_env = (\<lambda>_. None), ai_decoder = \<lparr>dc_float = (\<lambda>_. JNull), dc_depth = 5\<rparr>, ai_r4 = (\<lambda>x. x),
     ai_fromiso = (\<lambda>_. value_error), ai_status_file = (\<lambda>_. None), ai_resource = (\<lambda>_. []), ai_save = Written,
     ai_post = (\<lambda>_ _ _ _. HttpTimeout),
     ai_schema = \<lparr>sch_result = (\<lambda>_. value_error), sch_usage = (\<lambda>_. value_error)\<rparr>,
     ai_transport = \<lparr>tr_post = (\<lambda>_ _ _ _ _. HttpTimeout), tr_loads = (\<lambda>_. value_error), tr_result = (\<lambda>_. value_error),
       tr_usage = (\<lambda>_. value_error)\<rparr>\<rparr>"

definition server0 :: api_server where
  "server0 = create_api_server (\<lambda>_. None) ''db'' ''localhost'' None False 300000000 None"

definition api0 :: api_state where
  "api0 = \<lparr>w_ms = (\<lambda>n. n), w_rand = (\<lambda>n. n), w_ids = 0, w_wall = (\<lambda>n. 0), w_walls = 0, w_mono = (\<lambda>n. 0), w_monos = 0,
     sy_db = save_approval_request request1 empty_store, sy_trace = [], ts_posts = 0, ts_slept = [], sv_config = None\<rparr>"

definition request_to :: "string \<Rightarrow> string \<Rightarrow> string \<Rightarrow> http_request" where
  "request_to target content_type body =
     \<lparr>rq_target = target, rq_content_type = Some content_type, rq_content_length = Some (nat_str (length body)), rq_body = map ord body\<rparr>"

definition deny_body :: string where
  "deny_body = ''{'' @ [CHR 34] @ ''status'' @ [CHR 34] @ '':'' @ [CHR 34] @ ''denied'' @ [CHR 34] @ ''}''"

theorem gate_views_unreachable_witness:
  "''S'' \<in> set (list_sessions (sy_db api0))
   \<and> do_GET server0 lib0 (request_to ''/api/v0/sessions/S/runtime-gates'' [] []) api0
     = (Inr (Problem 404 ''session_not_found'' ''Session not found: S/runtime-gates''), api0)"
proof -
  have "plain_path ''/api/v0/sessions/S/runtime-gates''" "''S/runtime-gates'' \<notin> set (list_sessions (sy_db api0))"
    "''S'' \<in> set (list_sessions (sy_db api0))" by code_simp+
  then show ?thesis
    using gate_views_unreachable [of "''/runtime-gates''" "request_to ''/api/v0/sessions/S/runtime-gates'' [] []" "''S''"]
    by (simp add: GATE_VIEWS_def request_to_def)
qed

text \<open>A page of another site can send such a request without asking: its content type is a simple one.\<close>

theorem http_resolution_witness:
  "let (reply, s') = do_POST server0 lib0 (request_to (resolve_path ''A'') ''text/plain'' deny_body) api0 in
     answers_resolution ''A'' Denied [(''status'', JStr ''denied'')] (Some request1) reply (get_approval_request ''A'' (sy_db s'))"
proof -
  have "approvals_ok (sy_db api0)" "get_approval_request ''A'' (sy_db api0) = Some request1"
    using sys1_ok by (simp_all add: sys1_def api0_def)
  moreover have "plain_id ''A''" by code_simp
  moreover have "read_json_body (ai_decoder lib0) (request_to (resolve_path ''A'') ''text/plain'' deny_body) =
      Inr (Some [(''status'', JStr ''denied'')])" by code_simp
  moreover have "requested_status [(''status'', JStr ''denied'')] = Inr (Some Denied)" by code_simp
  moreover have "rq_target (request_to (resolve_path ''A'') ''text/plain'' deny_body) = resolve_path ''A''" by (simp add: request_to_def)
  ultimately show ?thesis
    using http_resolution [OF _ _ _ _ _ prod.collapse [symmetric]] by (metis (no_types, lifting) case_prod_beta)
qed

end
