(* ===== verification/Cli.thy ===== *)
theory Cli
  imports ReviewCache ApiServer StageReview EbpfCollector Proxy
begin

text \<open>
  \<open>src/zeroadr/cli/main.py\<close>: the commands over the other components, and \<open>api/demo.py\<close>. A command is the function
  \<open>_run_...\<close> of its name; its result is an exception that ends the process, or the exit code and what was
  printed, the dump of a record standing as the record. Arguments are what the parser gives; a path stands as
  the content of its file.
\<close>

section \<open>Results\<close>

datatype printed =
    ResponseOut hook_response "jdict option"
  | WaitOut jdict
  | ContextOut session_context
  | EvidenceOut evidence
  | SummaryOut summary
  | BomOut agent_bom
  | AnalysisOut llm_analysis
  | MetricsOut gate_metrics
  | EvaluationOut evaluation
  | LabelsOut string nat "string option"
  | ReadinessOut readiness
  | DogfoodOut dogfood_report
  | CompareOut run_summary run_summary run_delta
  | IndexOut sessions_index
  | SessionOut api_data
  | DemoOut string "string list" "string list"
  | IngestOut ingest_result
  | CollectOut nat string "ingest_result option"
  | StatusOut jdict
  | LinesOut "string list"
  | EventsOut "runtime_event list"
  | ErrorOut string string
  | MessageOut exn

type_synonym outcome = "exn + nat \<times> printed"

definition done_with :: "('x \<Rightarrow> printed) \<Rightarrow> exn + 'x \<Rightarrow> outcome" where
  "done_with out r = map_sum id (\<lambda>x. (0, out x)) r"

section \<open>Hooks\<close>

record cli_lib =
  cb_decoder :: decoder
  cb_validators :: validators
  cb_hook :: "jdict \<Rightarrow> exn + hook_event"
  cb_config :: config_lib
  cb_env :: environ
  cb_post :: http_post
  cb_schema :: schema
  cb_answers :: answer_lib
  cb_review :: review_schema

definition gate_config_of :: "cli_lib \<Rightarrow> config_file option \<Rightarrow> exn + openai_config option" where
  "gate_config_of C config_path = configured (resolve_llm_gate_config (cb_config C) (cb_env C) config_path config_path)"

definition adjudicator_for ::
  "cli_lib \<Rightarrow> policy_engine \<Rightarrow> config_file option \<Rightarrow> exn + 'w world_scheme adjudicator option" where
  "adjudicator_for C policy_engine config_path =
     (if has_llm_adjudication policy_engine
      then map_sum id (\<lambda>g. Some (build_llm_adjudicator (cb_post C) (cb_schema C) g)) (gate_config_of C config_path)
      else Inr None)"

definition stage_reviewer_for ::
  "cli_lib \<Rightarrow> policy_engine \<Rightarrow> config_file option \<Rightarrow> 'w world_scheme \<Rightarrow> exn + reviewer option" where
  "stage_reviewer_for C policy_engine config_path s =
     (if has_stage_review policy_engine
      then map_sum id (\<lambda>g. map_option (\<lambda>(c, n). stage_reviewer (cb_post C) (cb_answers C) c n stats0 (world.truncate s))
                              (build_stage_reviewer g)) (gate_config_of C config_path)
      else Inr None)"

definition hook_runtime ::
  "cli_lib \<Rightarrow> policy_engine \<Rightarrow> config_file option \<Rightarrow> 'a coord_scheme \<Rightarrow> exn + 'a coord_scheme service \<times> reviewer option" where
  "hook_runtime C policy_engine config_path s =
     (case adjudicator_for C policy_engine config_path of Inl e \<Rightarrow> Inl e | Inr adjudicator \<Rightarrow>
     (case stage_reviewer_for C policy_engine config_path s of Inl e \<Rightarrow> Inl e | Inr reviewer \<Rightarrow>
        Inr (\<lparr>sv_source = Hook, sv_engine = policy_engine, sv_trace = True, sv_store = True, sv_adjudicator = adjudicator\<rparr>,
             reviewer)))"

text \<open>What \<open>decide\<close> and \<open>decide-and-wait\<close> share: reading the payload, building the runtime, handling the event.\<close>

definition handle_stdin ::
  "cli_lib \<Rightarrow> json option \<Rightarrow> config_file option \<Rightarrow> hook_client \<Rightarrow> string \<Rightarrow> 'a coord_scheme \<Rightarrow>
   (exn + hook_response) \<times> 'a coord_scheme" where
  "handle_stdin C policy config_path client stdin s =
     (case loads (cb_decoder C) stdin of
        Inl e \<Rightarrow> (Inl e, s)
      | Inr (JObj payload) \<Rightarrow>
          (case from_file (cb_validators C) policy of Inl e \<Rightarrow> (Inl e, s) | Inr policy_engine \<Rightarrow>
          (case hook_runtime C policy_engine config_path s of Inl e \<Rightarrow> (Inl e, s) | Inr (runtime, reviewer) \<Rightarrow>
          (case hook_event_from_client_payload (cb_hook C) payload client of Inl e \<Rightarrow> (Inl e, s) | Inr event \<Rightarrow>
             handle_hook (cb_validators C) runtime reviewer event s)))
      | Inr _ \<Rightarrow> (Inl (PyError ''ValueError''), s))"

definition run_hook_decide ::
  "cli_lib \<Rightarrow> json option \<Rightarrow> config_file option \<Rightarrow> hook_client \<Rightarrow> string \<Rightarrow> 'a coord_scheme \<Rightarrow> outcome \<times> 'a coord_scheme" where
  "run_hook_decide C policy config_path client stdin s =
     (case handle_stdin C policy config_path client stdin s of
        (r, s) \<Rightarrow> (done_with (\<lambda>response. ResponseOut response None) r, s))"

fun raised_by :: "store_error \<Rightarrow> exn" where
  "raised_by (KeyError i) = PyError ''KeyError''"
| "raised_by (ApprovalAlreadyResolved a) = PyError ''ApprovalAlreadyResolvedError''"

text \<open>The result is \<open>None\<close> if the polls end before the wait does.\<close>

definition run_hook_wait_approval ::
  "nat \<Rightarrow> approval_op list list \<Rightarrow> string \<Rightarrow> rat \<Rightarrow> 'a sys_scheme \<Rightarrow> outcome option \<times> 'a sys_scheme" where
  "run_hook_wait_approval fuel acts approval_id timeout s =
     (case wait_for_approval_resolution fuel acts approval_id timeout False DEFAULT_APPROVAL_TIMEOUT s of
        (None, s) \<Rightarrow> (None, s)
      | (Some (Inl (KeyError _)), s) \<Rightarrow>
          (Some (Inr (1, WaitOut [(''approval_id'', JStr approval_id), (''status'', JStr ''not_found''),
                                  (''effective_action'', JStr ''block'')])), s)
      | (Some (Inl e), s) \<Rightarrow> (Some (Inl (raised_by e)), s)
      | (Some (Inr result), s) \<Rightarrow>
          (Some (Inr (if dget result ''status'' \<in> JStr ` {''expired'', ''not_found'', ''denied''} then 1 else 0, WaitOut result)), s))"

definition run_hook_decide_and_wait ::
  "cli_lib \<Rightarrow> json option \<Rightarrow> config_file option \<Rightarrow> nat \<Rightarrow> approval_op list list \<Rightarrow> hook_client \<Rightarrow> rat \<Rightarrow> string \<Rightarrow>
   'a coord_scheme \<Rightarrow> outcome option \<times> 'a coord_scheme" where
  "run_hook_decide_and_wait C policy config_path fuel acts client timeout stdin s =
     (case handle_stdin C policy config_path client stdin s of
        (Inl e, s) \<Rightarrow> (Some (Inl e), s)
      | (Inr response, s) \<Rightarrow>
          if hr_action response = RequireApproval \<and> str_or (hr_approval response) [] \<noteq> []
          then (case wait_for_approval_resolution fuel acts (str_or (hr_approval response) []) timeout True
                       DEFAULT_APPROVAL_TIMEOUT s of
                  (None, s) \<Rightarrow> (None, s)
                | (Some (Inl e), s) \<Rightarrow> (Some (Inl (raised_by e)), s)
                | (Some (Inr result), s) \<Rightarrow>
                    (Some (Inr (if dget result ''effective_action'' = JStr ''block'' then 1 else 0,
                                ResponseOut response (Some result))), s))
          else (Some (Inr (0, ResponseOut response None)), s))"

section \<open>The gateway's command\<close>

definition proxy_command :: "string list \<Rightarrow> exn + string list" where
  "proxy_command arguments =
     (let command = (case arguments of a # rest \<Rightarrow> if a = ''--'' then rest else arguments | [] \<Rightarrow> []) in
      if command = [] then Inl (PyError ''SystemExit'') else Inr command)"

text \<open>The reviewer of tool results as the gateway calls it.\<close>

definition result_reviewer_for ::
  "cli_lib \<Rightarrow> policy_engine \<Rightarrow> config_file option \<Rightarrow> exn + 'w world_scheme adjudicator option" where
  "result_reviewer_for C policy_engine config_path =
     (case pe_result_gate policy_engine of
        None \<Rightarrow> Inr None
      | Some gate \<Rightarrow>
          if trg_review gate \<noteq> Hybrid then Inr None
          else map_sum id (map_option (\<lambda>(c, retries).
                 \<lparr>aj_model = oa_model c, aj_version = Some TOOL_RESULT_REVIEW_PROMPT_VERSION,
                  aj_run = (\<lambda>payload refs w. case review_adjudicate (cb_post C) (cb_review C) c review_prompt retries payload refs
                              stats0 w of (r, st, w) \<Rightarrow> (r, w))\<rparr>))
               (build_tool_result_reviewer (cb_config C) (cb_env C) config_path))"

text \<open>The runtime that \<open>run_stdio_proxy\<close> builds before it starts the server; building it records the start of a
  session of its own.\<close>

definition gateway_runtime ::
  "cli_lib \<Rightarrow> policy_engine \<Rightarrow> config_file option \<Rightarrow> 'a gw_scheme \<Rightarrow> exn + 'a gw_scheme gateway \<times> 'a gw_scheme" where
  "gateway_runtime C policy_engine config_path s =
     (case adjudicator_for C policy_engine config_path of Inl e \<Rightarrow> Inl e | Inr adjudicator \<Rightarrow>
     (case result_reviewer_for C policy_engine config_path of Inl e \<Rightarrow> Inl e | Inr result_reviewer \<Rightarrow>
     (case stage_reviewer_for C policy_engine config_path s of Inl e \<Rightarrow> Inl e | Inr reviewer \<Rightarrow>
        (let (i, s) = new_ulid s;
             G = \<lparr>gy_session = ''sess_'' @ i, gy_server = None,
                  gy_service = \<lparr>sv_source = McpGateway, sv_engine = policy_engine, sv_trace = True, sv_store = True,
                                sv_adjudicator = adjudicator\<rparr>,
                  gy_stage_reviewer = reviewer, gy_result_reviewer = result_reviewer\<rparr> in
         Inr (G, start_session G s)))))"

text \<open>How the server process ends once the client has: whether the run is interrupted, whether all responses were
  sent within ten seconds, the code it exits with within a second after that, if it does, and the code it exits
  with when it is terminated.\<close>

record proxy_end =
  px_interrupted :: bool
  px_drained :: bool
  px_exit :: "int option"
  px_terminated :: int

definition proxy_exit_code :: "proxy_end \<Rightarrow> int" where
  "proxy_exit_code p =
     (if px_interrupted p then px_terminated p
      else let (return_code, terminated_after_clean_drain) =
                 (case px_exit p of Some code \<Rightarrow> (code, False) | None \<Rightarrow> (px_terminated p, True)) in
           if terminated_after_clean_drain \<and> return_code < 0 then 0 else return_code)"

text \<open>A server that neither answers nor ends, and has to be terminated, counts as a success.\<close>

lemma undrained_server_counts_as_success:
  "proxy_exit_code \<lparr>px_interrupted = False, px_drained = False, px_exit = None, px_terminated = - 15\<rparr> = 0"
  by (simp add: proxy_exit_code_def)

section \<open>Sessions\<close>

text \<open>A session is read from a trace, if one is given, or from the store under its identifier.\<close>

definition from_trace_or_store ::
  "(runtime_event list option \<Rightarrow> 'a sys_scheme \<Rightarrow> (exn + 'x) \<times> 'a sys_scheme) \<Rightarrow> (string \<Rightarrow> store \<Rightarrow> 'x) \<Rightarrow>
   runtime_event list option option \<Rightarrow> string option \<Rightarrow> 'a sys_scheme \<Rightarrow> (exn + 'x) \<times> 'a sys_scheme" where
  "from_trace_or_store from_trace from_store trace session_id s =
     (case trace of
        Some path \<Rightarrow> from_trace path s
      | None \<Rightarrow>
          if str_or session_id [] = [] then (Inl (PyError ''ValueError''), s)
          else (Inr (from_store (str_or session_id []) (sy_db s)), s))"

definition run_session_reconstruct ::
  "net_lib \<Rightarrow> (int \<Rightarrow> string) \<Rightarrow> runtime_event list option option \<Rightarrow> string option \<Rightarrow> 'a sys_scheme \<Rightarrow> outcome \<times> 'a sys_scheme" where
  "run_session_reconstruct N fixed1 trace session_id s =
     apfst (done_with ContextOut)
       (from_trace_or_store (reconstruct_from_trace N fixed1) reconstruct_from_sqlite trace session_id s)"

definition run_session_evidence ::
  "net_lib \<Rightarrow> (int \<Rightarrow> string) \<Rightarrow> string option \<Rightarrow> string option \<Rightarrow> runtime_event list option option \<Rightarrow> string option \<Rightarrow>
   'a sys_scheme \<Rightarrow> outcome \<times> 'a sys_scheme" where
  "run_session_evidence N fixed1 finding_id rule_id trace session_id s =
     apfst (done_with EvidenceOut)
       (from_trace_or_store (evidence_from_trace N fixed1 finding_id rule_id)
          (\<lambda>i d. evidence_from_context finding_id rule_id (reconstruct_from_sqlite i d)) trace session_id s)"

definition run_session_summary ::
  "net_lib \<Rightarrow> (int \<Rightarrow> string) \<Rightarrow> runtime_event list option option \<Rightarrow> string option \<Rightarrow> 'a sys_scheme \<Rightarrow> outcome \<times> 'a sys_scheme" where
  "run_session_summary N fixed1 trace session_id s =
     apfst (done_with SummaryOut)
       (from_trace_or_store (summary_from_trace N fixed1) summary_from_sqlite trace session_id s)"

definition run_session_bom ::
  "net_lib \<Rightarrow> (int \<Rightarrow> string) \<Rightarrow> runtime_event list option option \<Rightarrow> string option \<Rightarrow> 'a sys_scheme \<Rightarrow> outcome \<times> 'a sys_scheme" where
  "run_session_bom N fixed1 trace session_id s =
     apfst (done_with BomOut)
       (from_trace_or_store (bom_from_trace N fixed1) bom_from_sqlite trace session_id s)"

definition run_analyze_session ::
  "config_lib \<Rightarrow> transport \<Rightarrow> llm_arguments \<Rightarrow> environ \<Rightarrow> config_file option \<Rightarrow> string \<Rightarrow> 'a triage_state_scheme \<Rightarrow>
   outcome \<times> 'a triage_state_scheme" where
  "run_analyze_session L T A env config_path session_id s =
     (case resolve_llm_config L A env config_path of
        Inl (LLMConfigurationError code message) \<Rightarrow> (Inr (1, ErrorOut code message), s)
      | Inl (ConfigRaised e) \<Rightarrow> (Inl e, s)
      | Inr config \<Rightarrow>
          (case analyze_session T config None session_id s of
             (Inl (LLMTriageError code message _), s) \<Rightarrow> (Inr (1, ErrorOut code message), s)
           | (Inl (Raised e), s) \<Rightarrow> (Inl e, s)
           | (Inr analysis, s) \<Rightarrow> (Inr (0, AnalysisOut analysis), s)))"

section \<open>Calibration\<close>

definition print_gate_error :: "string \<Rightarrow> string \<Rightarrow> outcome" where
  "print_gate_error code message = Inr (1, ErrorOut code message)"

definition gate_outcome :: "('x \<Rightarrow> nat \<times> printed) \<Rightarrow> calibration_error + 'x \<Rightarrow> outcome" where
  "gate_outcome out r =
     (case r of
        Inl (GateCalibrationError code message) \<Rightarrow> print_gate_error code message
      | Inl (CalibrationRaised e) \<Rightarrow> Inl e
      | Inr payload \<Rightarrow> Inr (out payload))"

definition run_gate_metrics :: "(rat \<Rightarrow> rat) \<Rightarrow> string option \<Rightarrow> rat \<Rightarrow> store \<Rightarrow> outcome" where
  "run_gate_metrics r4 session_id confidence_threshold d =
     gate_outcome (\<lambda>m. (0, MetricsOut m)) (build_gate_metrics r4 d session_id confidence_threshold)"

definition run_gate_evaluate ::
  "(rat \<Rightarrow> rat) \<Rightarrow> decoder \<Rightarrow> string \<Rightarrow> exn + string \<Rightarrow> rat \<Rightarrow> store \<Rightarrow> outcome" where
  "run_gate_evaluate r4 D labels file threshold d =
     gate_outcome (\<lambda>e. (0, EvaluationOut e)) (evaluate_gate_labels r4 D d labels file threshold)"

definition run_gate_labels_export :: "string option \<Rightarrow> store \<Rightarrow> outcome" where
  "run_gate_labels_export session_id d =
     (let (content, records_written) = export_gate_label_template d session_id in
      Inr (0, LabelsOut content records_written session_id))"

definition run_gate_readiness ::
  "(rat \<Rightarrow> rat) \<Rightarrow> decoder \<Rightarrow> string \<Rightarrow> exn + string \<Rightarrow> rat \<Rightarrow> readiness_limits \<Rightarrow> store \<Rightarrow> outcome" where
  "run_gate_readiness r4 D labels file threshold limits d =
     gate_outcome (\<lambda>payload. (if rn_ready payload then 0 else 1, ReadinessOut payload))
       (build_gate_readiness r4 D d labels file threshold limits)"

text \<open>The configuration is resolved first, and once more for the adjudicator.\<close>

definition run_gate_dogfood_command ::
  "cli_lib \<Rightarrow> (string \<Rightarrow> exn + dogfood_case) \<Rightarrow> string \<Rightarrow> exn + string \<Rightarrow> json option \<Rightarrow> config_file option \<Rightarrow>
   bool \<Rightarrow> int option \<Rightarrow> 'a sys_scheme \<Rightarrow> outcome \<times> 'a sys_scheme" where
  "run_gate_dogfood_command C typed cases file policy config_path trace limit s =
     (case resolve_llm_gate_config (cb_config C) (cb_env C) config_path config_path of
        Inl (LLMConfigurationError code message) \<Rightarrow> (Inr (1, ErrorOut code message), s)
      | Inl (ConfigRaised e) \<Rightarrow> (Inl e, s)
      | Inr _ \<Rightarrow>
          (case gate_config_of C config_path of
             Inl e \<Rightarrow> (Inl e, s)
           | Inr config \<Rightarrow>
               apfst (gate_outcome (\<lambda>report. (0, DogfoodOut report)))
                 (run_gate_dogfood (cb_validators C) typed cases file (from_file (cb_validators C) policy)
                    (build_llm_adjudicator (cb_post C) (cb_schema C) config) trace limit s)))"

definition run_gate_compare ::
  "(rat \<Rightarrow> rat) \<Rightarrow> decoder \<Rightarrow> string \<times> store \<Rightarrow> string \<times> (exn + string) \<Rightarrow> string \<times> store \<Rightarrow> string \<times> (exn + string) \<Rightarrow>
   rat \<Rightarrow> outcome" where
  "run_gate_compare r4 D baseline_db baseline_labels candidate_db candidate_labels threshold =
     gate_outcome (\<lambda>(b, c, delta). (0, CompareOut b c delta))
       (compare_gate_runs r4 D baseline_db baseline_labels candidate_db candidate_labels threshold)"

section \<open>API\<close>

definition run_api_dump :: "string \<Rightarrow> store \<Rightarrow> outcome" where
  "run_api_dump db_path d = Inr (0, IndexOut (build_api_index db_path None 0 d))"

definition run_api_session :: "string \<Rightarrow> string \<Rightarrow> store \<Rightarrow> outcome" where
  "run_api_session db_path session_id d = Inr (0, SessionOut (build_api_session db_path session_id False d))"

text \<open>The server \<open>serve\<close> starts, if it starts one.\<close>

definition run_api_serve ::
  "(string \<Rightarrow> bool option) \<Rightarrow> string \<Rightarrow> string \<Rightarrow> string option \<Rightarrow> bool \<Rightarrow> int \<Rightarrow> bool \<Rightarrow> exn + api_server" where
  "run_api_serve loopback db_path host agent_status_file trace approval_max_age allow_insecure =
     (case validate_api_bind_host loopback host allow_insecure of
        Some e \<Rightarrow> Inl e
      | None \<Rightarrow> Inr (create_api_server loopback db_path host agent_status_file trace approval_max_age None))"

section \<open>Demo data\<close>

text \<open>A file of the demo: its path and, if it exists, its content.\<close>

definition persist_trace :: "session_trace \<Rightarrow> store \<Rightarrow> store" where
  "persist_trace trace d =
     fold save_policy_decision (st_decisions trace) (fold save_finding (st_findings trace) (fold save_event (st_events trace) d))"

fun seed_traces ::
  "net_lib \<Rightarrow> (int \<Rightarrow> string) \<Rightarrow> policy_engine \<Rightarrow> (string \<times> runtime_event list option) list \<Rightarrow> string list \<Rightarrow> 'a sys_scheme \<Rightarrow>
   (exn + string list) \<times> 'a sys_scheme" where
  "seed_traces N fixed1 policy [] sources s = (Inr sources, s)"
| "seed_traces N fixed1 policy ((path, None) # rest) sources s = seed_traces N fixed1 policy rest sources s"
| "seed_traces N fixed1 policy ((path, Some events) # rest) sources s =
     (case replay_trace N fixed1 (Some policy) (Some events) s of
        (Inl e, s) \<Rightarrow> (Inl e, s)
      | (Inr trace, s) \<Rightarrow> seed_traces N fixed1 policy rest (sources @ [path]) (s\<lparr>sy_db := persist_trace trace (sy_db s)\<rparr>))"

text \<open>An endpoint file is ingested, strictly and without a store, into a trace of its own, which is then replayed;
  \<open>read_events_jsonl\<close> of a file that was never written is empty.\<close>

fun seed_endpoint ::
  "net_lib \<Rightarrow> (int \<Rightarrow> string) \<Rightarrow> endpoint_lib \<Rightarrow> policy_engine \<Rightarrow> (string \<times> string list option) list \<Rightarrow> string list \<Rightarrow> 'a sys_scheme \<Rightarrow>
   (exn + string list) \<times> 'a sys_scheme" where
  "seed_endpoint N fixed1 E policy [] sources s = (Inr sources, s)"
| "seed_endpoint N fixed1 E policy ((path, None) # rest) sources s = seed_endpoint N fixed1 E policy rest sources s"
| "seed_endpoint N fixed1 E policy ((path, Some lines) # rest) sources s =
     (case ingest_endpoint_jsonl E True False True lines (s\<lparr>sy_trace := []\<rparr>) of
        (Inl e, s') \<Rightarrow> (Inl e, s'\<lparr>sy_trace := sy_trace s\<rparr>)
      | (Inr _, s') \<Rightarrow>
          (case replay_trace N fixed1 (Some policy) (Some (sy_trace s')) (s'\<lparr>sy_trace := sy_trace s\<rparr>) of
             (Inl e, s) \<Rightarrow> (Inl e, s)
           | (Inr trace, s) \<Rightarrow>
               seed_endpoint N fixed1 E policy rest (sources @ [path]) (s\<lparr>sy_db := persist_trace trace (sy_db s)\<rparr>)))"

definition demo_hook :: "string \<Rightarrow> string \<Rightarrow> hook_event" where
  "demo_hook session_id request_id =
     \<lparr>he_type = PreToolUse, he_session = session_id, he_request = Some (RStr request_id), he_tool = Some ''read_file'',
      he_arguments = Some [(''path'', JStr ''.env'')], he_result = JNull, he_error = None,
      he_raw = [(''source'', JStr ''demo'')]\<rparr>"

text \<open>\<open>_seed_approval_demo\<close>: one call is left pending, the other resolved; \<open>None\<close> stands for a missing policy file.\<close>

definition seed_approval_demo ::
  "validators \<Rightarrow> json option \<Rightarrow> 'a coord_scheme \<Rightarrow> (exn + string list) \<times> 'a coord_scheme" where
  "seed_approval_demo V policy s =
     (if policy = None then (Inr [], s)
      else case from_file V policy of Inl e \<Rightarrow> (Inl e, s) | Inr policy_engine \<Rightarrow>
        (let runtime = \<lparr>sv_source = Hook, sv_engine = policy_engine, sv_trace = False, sv_store = True, sv_adjudicator = None\<rparr> in
         case handle_hook V runtime None (demo_hook ''sess_demo_approval_pending'' ''demo_pending'') s of
           (Inl e, s) \<Rightarrow> (Inl e, s)
         | (Inr pending_response, s) \<Rightarrow>
         (case handle_hook V runtime None (demo_hook ''sess_demo_approval_resolved'' ''demo_resolved'') s of
           (Inl e, s) \<Rightarrow> (Inl e, s)
         | (Inr resolved_response, s) \<Rightarrow>
             (let (problem, s) =
                (if str_or (hr_approval resolved_response) [] = [] then (None, s)
                 else case resolve_approval_with_audit (str_or (hr_approval resolved_response) []) Approved ''demo''
                        (Some ''Seeded resolved approval for Console history.'') Hook False s of
                   (Inl e, s) \<Rightarrow> (Some (raised_by e), s)
                 | (Inr _, s) \<Rightarrow> (None, s));
                  sources = [''policies/approval.yaml'', ''approval:pending'']
                    @ (if str_or (hr_approval pending_response) [] = [] then []
                       else [''approval:'' @ str_or (hr_approval pending_response) []]) in
              (case problem of None \<Rightarrow> Inr sources | Some e \<Rightarrow> Inl e, s)))))"

text \<open>\<open>seed_demo_database\<close>: the store starts empty, whatever the file held.\<close>

definition seed_demo_database ::
  "net_lib \<Rightarrow> (int \<Rightarrow> string) \<Rightarrow> endpoint_lib \<Rightarrow> validators \<Rightarrow> string \<Rightarrow> (string \<times> runtime_event list option) list \<Rightarrow>
   (string \<times> string list option) list \<Rightarrow> json option \<Rightarrow> json option \<Rightarrow> 'a coord_scheme \<Rightarrow>
   (exn + string \<times> string list \<times> string list) \<times> 'a coord_scheme" where
  "seed_demo_database N fixed1 E V db_path traces endpoint policy approval_policy s =
     (let s = s\<lparr>sy_db := empty_store\<rparr> in
      case from_file V policy of Inl e \<Rightarrow> (Inl e, s) | Inr policy_engine \<Rightarrow>
     (case seed_traces N fixed1 policy_engine traces [] s of (Inl e, s) \<Rightarrow> (Inl e, s) | (Inr sources, s) \<Rightarrow>
     (case seed_endpoint N fixed1 E policy_engine endpoint sources s of (Inl e, s) \<Rightarrow> (Inl e, s) | (Inr sources, s) \<Rightarrow>
     (case seed_approval_demo V approval_policy s of (Inl e, s) \<Rightarrow> (Inl e, s) | (Inr approvals, s) \<Rightarrow>
        (Inr (db_path, list_sessions (sy_db s), sources @ approvals), s)))))"

definition run_api_seed_demo ::
  "net_lib \<Rightarrow> (int \<Rightarrow> string) \<Rightarrow> endpoint_lib \<Rightarrow> validators \<Rightarrow> string \<Rightarrow> (string \<times> runtime_event list option) list \<Rightarrow>
   (string \<times> string list option) list \<Rightarrow> json option \<Rightarrow> json option \<Rightarrow> 'a coord_scheme \<Rightarrow> outcome \<times> 'a coord_scheme" where
  "run_api_seed_demo N fixed1 E V db_path traces endpoint policy approval_policy s =
     apfst (done_with (\<lambda>(db, sessions, sources). DemoOut db sessions sources))
       (seed_demo_database N fixed1 E V db_path traces endpoint policy approval_policy s)"

section \<open>Endpoint\<close>

definition caught :: "string list \<Rightarrow> ('x \<Rightarrow> nat \<times> printed) \<Rightarrow> exn + 'x \<Rightarrow> outcome" where
  "caught classes out r =
     (case r of
        Inr x \<Rightarrow> Inr (out x)
      | Inl (PyError c) \<Rightarrow> if c \<in> set classes then Inr (1, MessageOut (PyError c)) else Inl (PyError c)
      | Inl e \<Rightarrow> Inl e)"

definition run_endpoint_ingest :: "endpoint_lib \<Rightarrow> bool \<Rightarrow> string list \<Rightarrow> 'a sys_scheme \<Rightarrow> outcome \<times> 'a sys_scheme" where
  "run_endpoint_ingest E strict lines s =
     apfst (caught [''EndpointValidationError''] (\<lambda>r. (0, IngestOut r))) (ingest_endpoint_jsonl E True True strict lines s)"

definition run_endpoint_tail ::
  "endpoint_lib \<Rightarrow> bool \<Rightarrow> rat option \<Rightarrow> bool \<Rightarrow> (nat \<Rightarrow> string) \<Rightarrow> nat \<Rightarrow> 'a tail_state_scheme \<Rightarrow>
   outcome option \<times> 'a tail_state_scheme" where
  "run_endpoint_tail E checkpoint_file stop_after_idle strict content fuel s =
     apfst (map_option (caught [''EndpointValidationError''] (\<lambda>r. (0, IngestOut r))))
       (tail_endpoint_jsonl E \<lparr>to_trace = True, to_store = True, to_checkpoint = checkpoint_file, to_idle = stop_after_idle,
          to_strict = strict\<rparr> content fuel s)"

definition build_endpoint_collector ::
  "endpoint_lib \<Rightarrow> string \<Rightarrow> string option \<Rightarrow> string option \<Rightarrow> exn + feed list \<Rightarrow> exn + feed list" where
  "build_endpoint_collector E name session_id host_id linux =
     (if name = ''mock''
      then Inr (mock_records E (str_or session_id ''sess_mock_collector'') (str_or host_id ''host_mock''))
      else if name = ''linux''
      then (case linux of
              Inl (PyError c) \<Rightarrow> Inl (PyError (if c = ''LinuxCollectorUnavailable'' then ''SystemExit'' else c))
            | r \<Rightarrow> r)
      else Inl (PyError ''ValueError''))"

text \<open>\<open>EndpointCollector.write_jsonl\<close>: the lines of the output file, each without its end, and the exception that
  ended the stream, if one did. A record beyond the limit is taken from the collector and not written.\<close>

fun write_jsonl :: "int option \<Rightarrow> nat \<Rightarrow> feed list \<Rightarrow> exn option \<times> string list" where
  "write_jsonl limit written [] = (None, [])"
| "write_jsonl limit written (Record r # rest) =
     (if (case limit of None \<Rightarrow> False | Some n \<Rightarrow> n \<le> int written) then (None, [])
      else apsnd ((#) (json_dumps (sort_keys (JObj (endpoint_record_to_mapping r))))) (write_jsonl limit (Suc written) rest))"
| "write_jsonl limit written (Fault e # rest) = (Some e, [])"
| "write_jsonl limit written (_ # rest) = write_jsonl limit written rest"

definition run_endpoint_collect ::
  "endpoint_lib \<Rightarrow> string \<Rightarrow> string \<Rightarrow> int option \<Rightarrow> string option \<Rightarrow> string option \<Rightarrow> bool \<Rightarrow> bool \<Rightarrow> exn + feed list \<Rightarrow>
   'a sys_scheme \<Rightarrow> outcome \<times> string list \<times> 'a sys_scheme" where
  "run_endpoint_collect E collector output limit session_id host_id trace strict_ingest linux s =
     (case build_endpoint_collector E collector session_id host_id linux of
        Inl e \<Rightarrow> (Inl e, [], s)
      | Inr records \<Rightarrow>
          (case write_jsonl limit 0 records of
             (Some e, lines) \<Rightarrow> (Inl e, lines, s)
           | (None, lines) \<Rightarrow>
               if trace
               then (let (r, s) = ingest_endpoint_jsonl E True True strict_ingest lines s in
                     (caught [''EndpointValidationError''] (\<lambda>i. (0, CollectOut (length lines) output (Some i))) r, lines, s))
               else (Inr (0, CollectOut (length lines) output None), lines, s)))"

text \<open>The classes of exceptions the agent's command catches: its own two, and the errors of the operating system
  and of values with their subclasses.\<close>

definition AGENT_ERRORS :: "string list" where
  "AGENT_ERRORS = [''LinuxCollectorUnavailable'', ''EndpointValidationError'', ''OSError'', ''FileNotFoundError'',
     ''PermissionError'', ''ProcessLookupError''] @ VALUE_ERRORS"

definition run_endpoint_agent_command ::
  "endpoint_lib \<Rightarrow> agent_options \<Rightarrow> exn + feed list \<Rightarrow> agent_state \<Rightarrow> outcome \<times> agent_state" where
  "run_endpoint_agent_command E A linux s =
     apfst (caught AGENT_ERRORS (\<lambda>r. (0, StatusOut r))) (run_endpoint_agent E A linux s)"

definition run_endpoint_status ::
  "(string \<Rightarrow> exn + int) \<Rightarrow> string \<Rightarrow> rat option \<Rightarrow> (exn + json) option \<Rightarrow> 'a world_scheme \<Rightarrow> outcome \<times> 'a world_scheme" where
  "run_endpoint_status fromiso status_file stale_after file s =
     apfst (map_sum id (\<lambda>r. (if truthy (dget r ''healthy'') then 0 else 1, StatusOut r)))
       (read_agent_health fromiso status_file stale_after file s)"

section \<open>Traces\<close>

definition upper_char :: "char \<Rightarrow> char" where
  "upper_char c = (if 97 \<le> ord c \<and> ord c \<le> 122 then char_of (ord c - 32) else c)"

definition upper :: "string \<Rightarrow> string" where
  "upper s = map upper_char s"

definition TARGET_KEYS :: "string list" where
  "TARGET_KEYS = [''path'', ''file'', ''filename'', ''command'', ''cmd'', ''url'', ''uri'', ''endpoint'']"

fun first_text :: "jdict \<Rightarrow> string list \<Rightarrow> string option" where
  "first_text d [] = None"
| "first_text d (key # keys) = (case dget d key of JStr v \<Rightarrow> Some v | _ \<Rightarrow> first_text d keys)"

definition event_target :: "runtime_event \<Rightarrow> string" where
  "event_target event =
     (case first_text (case ev_arguments event of None \<Rightarrow> [] | Some d \<Rightarrow> d) TARGET_KEYS of
        Some v \<Rightarrow> v
      | None \<Rightarrow> str_or (ev_tool event) ''unknown'')"

definition print_decision :: "policy_decision \<Rightarrow> string list" where
  "print_decision d =
     [''Decision: '' @ action_str (pd_action d), ''Policy: '' @ str_or (pd_policy d) ''default'']
     @ (if pd_findings d = [] then [] else [''Findings: '' @ join '', '' (pd_findings d)])
     @ [''Reason: '' @ pd_reason d]"

definition print_decision_opt :: "policy_decision option \<Rightarrow> string list" where
  "print_decision_opt d = (case d of None \<Rightarrow> [] | Some x \<Rightarrow> print_decision x)"

definition findings_by_event :: "finding list \<Rightarrow> string \<Rightarrow> finding list" where
  "findings_by_event findings e = concat (map (\<lambda>f. replicate (count_list (fi_events f) e) f) findings)"

definition decisions_by_event :: "policy_decision list \<Rightarrow> string \<Rightarrow> policy_decision option" where
  "decisions_by_event decisions e = map_of (rev (map (\<lambda>d. (pd_event d, d)) decisions)) e"

definition finding_lines :: "finding \<Rightarrow> string list" where
  "finding_lines f =
     [''['' @ upper (severity_str (fi_severity f)) @ ''] '' @ fi_title f, ''Rule: '' @ fi_rule f, ''Target: '' @ fi_target f]"

text \<open>What is printed for one event.\<close>

definition event_lines :: "finding list \<Rightarrow> policy_decision list \<Rightarrow> runtime_event \<Rightarrow> string list" where
  "event_lines findings decisions event =
     (let event_findings = findings_by_event findings (ev_id event);
          decision = decisions_by_event decisions (ev_id event) in
      if ev_type event \<noteq> ToolCallRequested then []
      else if event_findings = []
      then [''['' @ (case decision of None \<Rightarrow> ''ALLOW'' | Some d \<Rightarrow> upper (action_str (pd_action d))) @ ''] ''
              @ str_or (ev_capability event) ''unknown'',
            ''Target: '' @ event_target event] @ print_decision_opt decision
      else concat (map (\<lambda>f. finding_lines f @ print_decision_opt decision) event_findings))"

definition printed_decisions :: "finding list \<Rightarrow> policy_decision list \<Rightarrow> runtime_event list \<Rightarrow> string list" where
  "printed_decisions findings decisions events =
     concat (map (\<lambda>event. if ev_type event = ToolCallRequested \<and> decisions_by_event decisions (ev_id event) \<noteq> None
                          then map fi_id (findings_by_event findings (ev_id event)) else []) events)"

definition skipped_decision :: "string list \<Rightarrow> policy_decision list \<Rightarrow> policy_decision \<Rightarrow> bool" where
  "skipped_decision printed decisions d =
     ((pd_findings d \<noteq> [] \<and> list_all (\<lambda>i. i \<in> set printed) (pd_findings d))
      \<or> (decisions_by_event decisions (pd_event d) \<noteq> None \<and> pd_findings d = []))"

definition print_trace_summary :: "session_trace \<Rightarrow> string list" where
  "print_trace_summary trace =
     (let events = st_events trace; findings = st_findings trace; decisions = st_decisions trace;
          printed = printed_decisions findings decisions events in
      [''ZeroADR Session: '' @ st_session trace, ''Events: '' @ nat_str (length events)]
      @ concat (map (event_lines findings decisions) events)
      @ concat (map print_decision (filter (\<lambda>d. \<not> skipped_decision printed decisions d) decisions)))"

definition run_replay ::
  "net_lib \<Rightarrow> (int \<Rightarrow> string) \<Rightarrow> validators \<Rightarrow> json option \<Rightarrow> runtime_event list option \<Rightarrow> 'a world_scheme \<Rightarrow>
   outcome \<times> 'a world_scheme" where
  "run_replay N fixed1 V policy trace s =
     (case from_file V policy of
        Inl e \<Rightarrow> (Inl e, s)
      | Inr policy_engine \<Rightarrow> apfst (done_with (LinesOut \<circ> print_trace_summary)) (replay_trace N fixed1 (Some policy_engine) trace s))"

definition run_inspect :: "store \<Rightarrow> outcome" where
  "run_inspect d = Inr (0, LinesOut (list_sessions d))"

text \<open>\<open>export\<close>: what is printed, and the new content of the output file, if one is given and written.\<close>

definition run_export :: "string \<Rightarrow> bool \<Rightarrow> store \<Rightarrow> outcome \<times> runtime_event list option" where
  "run_export session_id output d =
     (let events = events_for_session session_id d in
      if output then (Inr (0, EventsOut []), if events = [] then None else Some (fold write_event_jsonl events []))
      else (Inr (0, EventsOut events), None))"

section \<open>The exit code of a held call\<close>

lemma hook_runtime_service:
  assumes "hook_runtime C E config s = Inr (runtime, reviewer)"
  shows "sv_store runtime \<and> lawful (sv_adjudicator runtime)"
proof -
  have "lawful (Some (build_llm_adjudicator post S g))" for post S g
    using unavailable.adjudicating_axioms openai.adjudicating_axioms
    by (auto simp: lawful_def build_llm_adjudicator_def UnavailableLLMAdjudicator_def OpenAICompatibleAdjudicator_def
        split: option.split)
  moreover have "lawful None" by (simp add: lawful_def)
  ultimately show ?thesis
    using assms by (auto simp: hook_runtime_def adjudicator_for_def map_sum_Inr split: sum.splits if_splits)
qed

lemma ulid_nonempty [simp]: "fst (new_ulid w) \<noteq> []"
proof -
  have "length (fst (new_ulid w)) = 26" by (simp add: new_ulid_def ulid_of_def)
  then show ?thesis by (metis list.size(3) zero_neq_numeral)
qed

lemma request_id_nonempty [simp]: "ap_id (fst (new_approval_request d se ev rq p r fs t c a sg rp ep s)) \<noteq> []"
  using ulid_nonempty [of s] by (auto simp: new_approval_request_def Let_def case_prod_beta)

lemma consult_db: "lawful aj \<Longrightarrow> sy_db (snd (consult aj prepared s)) = sy_db s"
proof (cases aj)
  case (Some a)
  assume "lawful aj"
  with Some obtain n where "snd (aj_run a (pp_payload prepared) (pp_refs prepared) s) = s\<lparr>w_monos := n\<rparr>"
    using adjudicating.frame by (fastforce simp: lawful_def)
  with Some show ?thesis by (auto simp: consult_def split: prod.splits sum.splits)
qed (simp add: consult_def)

lemma run_gate_db:
  assumes "lawful (sv_adjudicator S)"
  shows "sy_db (snd (run_gate S g e fs d s)) = sy_db s"
  using consult_db [OF assms, of "build_adjudication_payload e fs (str_or (pd_policy d) ''unnamed-policy'')" "snd (new_ulid s)"]
  by (auto simp: run_gate_def Let_def case_prod_beta frame_simps split: prod.splits sum.splits exn.splits)

lemma gated_approvals:
  assumes "lawful (sv_adjudicator S)"
  shows "db_approvals (sy_db (snd (gated_decision S gate e fs d s))) = db_approvals (sy_db s)"
proof (cases gate)
  case (Some g)
  obtain r s1 where r: "run_gate S g e fs d s = (r, s1)" by (metis surj_pair)
  then have "sy_db s1 = sy_db s" using run_gate_db [OF assms] by (metis snd_conv)
  then show ?thesis
    using Some by (auto simp: gated_decision_def r Let_def case_prod_beta decision_with_action_def update_db_def frame_simps
        save_llm_adjudication_def note_session_def split: sum.splits)
qed (simp add: gated_decision_def)

lemma assess_approvals: "db_approvals (sy_db (snd (snd (assess S e s)))) = db_approvals (sy_db s)"
  by (simp add: assess_def record_event_def Let_def case_prod_beta update_db_def frame_simps)

lemma conclude_approvals_ok:
  assumes "approvals_ok (sy_db s)"
  shows "approvals_ok (sy_db (snd (conclude S e fs d ad s)))"
proof -
  have same: "approvals_ok (sy_db (snd (save_decision S e d s)))"
    using assms approvals_ok_same [of "save_policy_decision d (sy_db s)" "sy_db s"]
    by (auto simp: save_decision_def open_approval_def update_db_def Let_def case_prod_beta frame_simps
        save_policy_decision_def note_session_def intro!: approvals_ok_save)
  show ?thesis
    using approvals_ok_same [THEN iffD2, OF _ same]
    by (simp add: conclude_def record_event_def Let_def case_prod_beta frame_simps)
qed

lemma evaluate_approvals_ok:
  assumes "approvals_ok (sy_db s)" "lawful (sv_adjudicator S)"
  shows "approvals_ok (sy_db (snd (service_evaluate V S e s)))"
proof -
  obtain fs d s1 where a: "assess S e s = (fs, d, s1)" by (metis prod_cases3)
  then have s1: "approvals_ok (sy_db s1)"
    using assms(1) assess_approvals [of S e s] by (metis approvals_ok_same snd_conv)
  have "approvals_ok (sy_db (snd (gated_decision S gate e fs d s1)))" for gate
    using s1 gated_approvals [OF assms(2)] approvals_ok_same by blast
  then show ?thesis
    using s1 by (auto simp: service_evaluate_def a Let_def case_prod_beta split: sum.splits prod.splits
        intro!: conclude_approvals_ok dest!: arg_cong [where f = snd])
qed

lemma approval_id_nonempty:
  assumes "service_evaluate V S e s = (Inr rd, s')" "rd_approval rd = Some a"
  shows "ap_id a \<noteq> []"
proof -
  from assms(1) obtain s3 where "conclude S e (rd_findings rd) (rd_decision rd) (rd_adjudication rd) s3 = (rd, s')"
    by (rule service_evaluate_steps)
  moreover have "rd_approval (fst (conclude S e fs d ad s3)) = fst (save_decision S e d s3)" for fs d ad
    by (simp add: conclude_def Let_def case_prod_beta)
  ultimately have "rd_approval rd = fst (save_decision S e (rd_decision rd) s3)" by (metis fst_conv)
  with assms(2) show ?thesis
    by (auto simp: save_decision_def open_approval_def Let_def case_prod_beta split: if_splits)
qed

lemma agent_input_approvals: "db_approvals (sy_db (snd (review_agent_input C e s))) = db_approvals (sy_db s)"
  by (simp add: review_agent_input_def Let_def case_prod_beta frame_simps split: json.split option.split)

lemma agent_input_stored:
  assumes "approvals_ok (sy_db s)" "handle_agent_input S review e s = (Inr response, s')" "sv_store S"
  shows "approvals_ok (sy_db s') \<and>
    (hr_action response = RequireApproval \<longrightarrow>
       (\<exists>a. hr_approval response = Some (ap_id a) \<and> ap_id a \<noteq> [] \<and> get_approval_request (ap_id a) (sy_db s') = Some a))"
proof (cases "pe_input_gate (sv_engine S) = None")
  case True
  have "approvals_ok (sy_db (record_event S e s))"
    using assms(1) approvals_ok_same by (simp add: record_event_def frame_simps approvals_ok_def)
  with True assms(2) show ?thesis by (auto simp: handle_agent_input_def plain_response_def)
next
  case False
  obtain g s1 where g: "review_agent_input (hook_coordinator S review) e s = (Inr g, s1)"
    using assms(2) False by (auto simp: handle_agent_input_def split: sum.splits prod.splits)
  then have ok: "approvals_ok (sy_db s1)"
    using assms(1) agent_input_approvals [of "hook_coordinator S review" e s] by (metis approvals_ok_same snd_conv)
  then have "approvals_ok (save_policy_decision d (sy_db s1))" for d
    by (simp add: approvals_ok_def save_policy_decision_def note_session_def)
  then show ?thesis
    using assms(2,3) False g
    by (auto simp: handle_agent_input_def Let_def case_prod_beta update_db_def frame_simps get_approval_request_save
        intro!: approvals_ok_save split: if_splits)
qed

lemma held_request_stored:
  assumes "approvals_ok (sy_db s)" "handle_hook V S review h s = (Inr response, s')" "sv_store S" "lawful (sv_adjudicator S)"
  shows "approvals_ok (sy_db s') \<and>
    (hr_action response = RequireApproval \<longrightarrow>
       (\<exists>a. hr_approval response = Some (ap_id a) \<and> ap_id a \<noteq> [] \<and> get_approval_request (ap_id a) (sy_db s') = Some a))"
proof -
  obtain event s1 where e: "hook_event_to_runtime_event h s = (event, s1)" by (metis surj_pair)
  then have s1: "sy_db s1 = sy_db s" by (auto simp: hook_event_to_runtime_event_def Let_def frame_simps dest!: arg_cong [where f = snd])
  show ?thesis
  proof (cases "he_type h = AgentInput")
    case False
    then obtain rd where rd: "service_evaluate V S event s1 = (Inr rd, s')"
        "hr_action response = pd_action (rd_decision rd)" "hr_approval response = map_option ap_id (rd_approval rd)"
      using assms(2) by (auto simp: handle_hook_def e split: sum.splits prod.splits)
    from rd(1) obtain s3 where c: "conclude S event (rd_findings rd) (rd_decision rd) (rd_adjudication rd) s3 = (rd, s')"
      by (rule service_evaluate_steps)
    have "approvals_ok (sy_db s')"
      using evaluate_approvals_ok [of s1 S V event] assms(1,4) rd(1) s1 by simp
    then show ?thesis
      using conclude_stored [OF assms(3) c] approval_id_nonempty [OF rd(1)] rd(2,3) by (auto split: option.splits)
  next
    case True
    then have "handle_agent_input S review event s1 = (Inr response, s')" using assms(2) by (simp add: handle_hook_def e)
    then show ?thesis using agent_input_stored [of s1] assms(1,3) s1 by simp
  qed
qed

lemma handled_request_stored:
  assumes "approvals_ok (sy_db s)" "handle_stdin C policy config client stdin s = (Inr response, s')"
  shows "approvals_ok (sy_db s') \<and>
    (hr_action response = RequireApproval \<longrightarrow>
       (\<exists>a. hr_approval response = Some (ap_id a) \<and> ap_id a \<noteq> [] \<and> get_approval_request (ap_id a) (sy_db s') = Some a))"
proof -
  from assms(2) obtain E runtime reviewer event where
    "hook_runtime C E config s = Inr (runtime, reviewer)" "handle_hook (cb_validators C) runtime reviewer event s = (Inr response, s')"
    by (auto simp: handle_stdin_def split: sum.splits json.splits prod.splits)
  then show ?thesis using held_request_stored [OF assms(1)] hook_runtime_service by blast
qed

text \<open>C40. A call handled by \<open>decide-and-wait\<close> ends with an exit code: 0 at once, whatever the action, if no approval
  is required; otherwise, when the clock passes the deadline within the given number of polls and whatever other
  processes do meanwhile, 0 if the request that was stored for the call ends approved and 1 if it ends denied or
  expired. The request printed is the one the store holds in the end.\<close>

theorem held_call_exit_code:
  assumes "approvals_ok (sy_db s)" and "handle_stdin C policy config client stdin s = (Inr response, s1)"
    and "\<forall>ps\<in>set acts. \<forall>p\<in>set ps. keeps_identity (str_or (hr_approval response) []) p"
    and "\<exists>k<fuel. w_mono s1 (w_monos s1) + timeout \<le> w_mono s1 (Suc (w_monos s1) + k)"
  shows "case run_hook_decide_and_wait C policy config fuel acts client timeout stdin s of
      (result, s') \<Rightarrow>
        if hr_action response \<noteq> RequireApproval then result = Some (Inr (0, ResponseOut response None)) \<and> s' = s1
        else \<exists>b. result = Some (Inr (if ap_status b = Approved then 0 else 1,
                                  ResponseOut response (Some (build_wait_approval_response b))))
               \<and> get_approval_request (str_or (hr_approval response) []) (sy_db s') = Some b \<and> ap_status b \<noteq> Pending
               \<and> hr_approval response = Some (ap_id b)"
proof (cases "hr_action response = RequireApproval")
  case True
  from handled_request_stored [OF assms(1,2)] True obtain a where
    a: "approvals_ok (sy_db s1)" "hr_approval response = Some (ap_id a)" "ap_id a \<noteq> []"
      "get_approval_request (ap_id a) (sy_db s1) = Some a" by blast
  then have i: "str_or (hr_approval response) [] = ap_id a" by (simp add: str_or_def)
  from wait_final [OF a(1,4) assms(3) [unfolded i] assms(4), of True DEFAULT_APPROVAL_TIMEOUT] obtain b s' where
    w: "wait_for_approval_resolution fuel acts (ap_id a) timeout True DEFAULT_APPROVAL_TIMEOUT s1 =
        (Some (Inr (build_wait_approval_response b)), s')"
      "get_approval_request (ap_id a) (sy_db s') = Some b" "same_question a b" "ap_status b \<noteq> Pending" by blast
  have "ap_id b = ap_id a" using w(3) by (metis approval_request.select_convs(1) approval_request.surjective approval_request.update_convs same_question_def)
  moreover have "dget (build_wait_approval_response b) ''effective_action'' = JStr ''block'' \<longleftrightarrow> ap_status b \<noteq> Approved"
    using w(4) by (cases "ap_status b") (simp_all add: dget_def build_wait_approval_response_def effective_action_for_status_def)
  ultimately show ?thesis
    using assms(2) True a(2,3) w(1,2,4) by (simp add: run_hook_decide_and_wait_def i str_or_def)
qed (use assms(2) in \<open>simp add: run_hook_decide_and_wait_def\<close>)

section \<open>A held call\<close>

text \<open>A policy that asks for an approval of every call of one tool, and a world that draws the first numbers
  and shows the same time for ever, for the witness.\<close>

definition ask_engine :: policy_engine where
  "ask_engine = empty_engine\<lparr>pe_policies :=
     [\<lparr>pol_fields = [(''id'', JStr ''p''), (''action'', JStr ''require_approval''), (''match'', JObj [(''tool_name'', JStr ''t'')])],
       pol_match = [(''tool_name'', JStr ''t'')]\<rparr>]\<rparr>"

definition ask_policy :: json where
  "ask_policy = JObj [(''policies'', JList [JObj (pol_fields (hd (pe_policies ask_engine)))])]"

definition asked_hook :: hook_event where
  "asked_hook = \<lparr>he_type = PreToolUse, he_session = ''S'', he_request = None, he_tool = Some ''t'', he_arguments = None,
     he_result = JNull, he_error = None, he_raw = []\<rparr>"

definition cli0 :: cli_lib where
  "cli0 = \<lparr>cb_decoder = ai_decoder lib0, cb_validators = no_validators, cb_hook = (\<lambda>_. Inr asked_hook),
     cb_config = ai_config lib0, cb_env = ai_env lib0, cb_post = ai_post lib0, cb_schema = ai_schema lib0,
     cb_answers = \<lparr>nb_parse = (\<lambda>_. None), nb_div = (\<lambda>_ _. None), al_float = (\<lambda>_. JNull), al_depth = 5, al_schema = (\<lambda>_. Inl [])\<rparr>,
     cb_review = no_schema\<rparr>"

definition still0 :: coord where
  "still0 = \<lparr>w_ms = (\<lambda>_. 0), w_rand = (\<lambda>_. 0), w_ids = 0, w_wall = (\<lambda>_. 0), w_walls = 0, w_mono = (\<lambda>_. 0), w_monos = 0,
     sy_db = empty_store, sy_trace = [], co_sessions = []\<rparr>"

definition ask_service :: "coord service" where
  "ask_service = \<lparr>sv_source = Hook, sv_engine = ask_engine, sv_trace = True, sv_store = True, sv_adjudicator = None\<rparr>"

lemma clock_kept:
  "w_mono (snd (snd (assess S e s))) = w_mono s" "w_mono (snd (conclude S e fs d ad s)) = w_mono s"
  "w_mono (snd (hook_event_to_runtime_event h s)) = w_mono s"
  by (simp_all add: assess_def conclude_def hook_event_to_runtime_event_def save_decision_def open_approval_def
      new_approval_request_def record_event_def Let_def case_prod_beta update_db_def frame_simps new_ulid_def
      evaluate_def evaluate_policies_deciding new_policy_decision_def utc_now_def engine.world_after split: option.split)

lemma ask_engine_asks:
  assumes "ev_tool e = Some ''t''"
  shows "deciding (pe_policies ask_engine) e fs = Some (hd (pe_policies ask_engine))"
    "llm_adjudication_for V ask_engine e fs = Inr None"
    "policy_action (hd (pe_policies ask_engine)) = RequireApproval"
proof -
  have "event_policy_matches [(''tool_name'', JStr ''t'')] e fs"
    using assms by (simp add: event_policy_matches_def dget_def matches_value_def)
  then show "deciding (pe_policies ask_engine) e fs = Some (hd (pe_policies ask_engine))"
    "llm_adjudication_for V ask_engine e fs = Inr None"
    by (simp_all add: deciding_def ask_engine_def llm_adjudication_for_def dget_def validate_opt_def)
  show "policy_action (hd (pe_policies ask_engine)) = RequireApproval" by code_simp
qed

lemma ask_service_asks:
  assumes "ev_tool e = Some ''t''"
  shows "\<exists>rd s'. service_evaluate V ask_service e s = (Inr rd, s') \<and> pd_action (rd_decision rd) = RequireApproval
    \<and> w_mono s' = w_mono s"
proof -
  obtain fs d s1 where a: "assess ask_service e s = (fs, d, s1)" by (metis prod_cases3)
  have d: "pd_action d = RequireApproval"
    using a ask_engine_asks [OF assms]
    by (auto simp: assess_def Let_def case_prod_beta evaluate_def evaluate_policies_deciding new_policy_decision_def ask_service_def)
  obtain rd s' where c: "conclude ask_service e fs d None s1 = (rd, s')" by (metis surj_pair)
  then have "service_evaluate V ask_service e s = (Inr rd, s')"
    using a ask_engine_asks(2) [OF assms] by (simp add: service_evaluate_def gated_decision_def ask_service_def)
  moreover have "rd_decision rd = d" using c by (auto simp: conclude_def Let_def case_prod_beta)
  moreover have "w_mono s' = w_mono s" using a c clock_kept by (metis snd_conv)
  ultimately show ?thesis using d by blast
qed

lemma ask_stdin:
  "\<exists>response s1. handle_stdin cli0 (Some ask_policy) None Generic ''{}'' still0 = (Inr response, s1)
     \<and> hr_action response = RequireApproval \<and> w_mono s1 = (\<lambda>_. 0)"
proof -
  have fields: "cb_decoder cli0 = ai_decoder lib0" "cb_validators cli0 = no_validators" "cb_hook cli0 = (\<lambda>_. Inr asked_hook)"
      "he_type asked_hook \<noteq> AgentInput" "w_mono still0 = (\<lambda>_. 0)"
    by (simp_all add: cli0_def asked_hook_def still0_def)
  have l: "loads (ai_decoder lib0) ''{}'' = Inr (JObj [])" by code_simp
  have p: "from_file no_validators (Some ask_policy) = Inr ask_engine"
    by (simp add: from_file_def ask_policy_def from_dict_def ask_engine_def empty_engine_def dget_def dget_or_def validate_opt_def policy_entry_def)
  have r: "hook_runtime cli0 ask_engine None still0 = Inr (ask_service, None)"
    by (simp add: hook_runtime_def adjudicator_for_def stage_reviewer_for_def has_llm_adjudication_def has_stage_review_def ask_engine_def empty_engine_def dget_def ask_service_def)
  obtain e s1 where e: "hook_event_to_runtime_event asked_hook still0 = (e, s1)" by (metis surj_pair)
  then have "ev_tool e = Some ''t''" "w_mono s1 = w_mono still0"
    using clock_kept(3) [of asked_hook still0]
    by (auto simp: hook_event_to_runtime_event_def Let_def case_prod_beta new_event_def asked_hook_def)
  then show ?thesis
    using ask_service_asks [of e no_validators s1]
    by (auto simp: handle_stdin_def fields l p r hook_event_from_client_payload_def handle_hook_def e)
qed
text \<open>Another process denies the call while the command waits.\<close>

theorem held_call_exit_code_witness:
  "\<exists>response b s'. run_hook_decide_and_wait cli0 (Some ask_policy) None 3 [[ResolveApproval ''x'' Denied ''bob'' None]] Generic 0 ''{}'' still0
     = (Some (Inr (if ap_status b = Approved then 0 else 1, ResponseOut response (Some (build_wait_approval_response b)))), s')
     \<and> hr_action response = RequireApproval \<and> ap_status b \<noteq> Pending"
proof -
  obtain response s1 where h: "handle_stdin cli0 (Some ask_policy) None Generic ''{}'' still0 = (Inr response, s1)"
      "hr_action response = RequireApproval" "w_mono s1 = (\<lambda>_. 0)"
    using ask_stdin by blast
  have "approvals_ok (sy_db still0)" by (simp add: still0_def approvals_ok_def empty_store_def)
  moreover have "\<exists>k<3. w_mono s1 (w_monos s1) + 0 \<le> w_mono s1 (Suc (w_monos s1) + k)"
    by (intro exI [of _ 0]) (simp add: h(3))
  moreover obtain result s' where r: "run_hook_decide_and_wait cli0 (Some ask_policy) None 3
      [[ResolveApproval ''x'' Denied ''bob'' None]] Generic 0 ''{}'' still0 = (result, s')" by (metis surj_pair)
  ultimately obtain b where "result = Some (Inr (if ap_status b = Approved then 0 else 1,
      ResponseOut response (Some (build_wait_approval_response b))))" "ap_status b \<noteq> Pending"
    using held_call_exit_code [OF _ h(1), of "[[ResolveApproval ''x'' Denied ''bob'' None]]" 3 0] h(2) by auto
  with r h(2) show ?thesis by blast
qed

section \<open>What a summary leaves out\<close>

text \<open>A decision is skipped at the end if its findings were printed, whatever decision was printed with them, and of
  the decisions on one event only the last one is ever printed with it. The decision on an injection chain, whose
  first event is a result, is therefore not printed at all once the call it leads to has a decision.\<close>

definition summary_event :: "event_type \<Rightarrow> string \<Rightarrow> runtime_event" where
  "summary_event ty i = fst (new_event ty Hook ''S'' None None (Some ''t'') None None None JNull None [] still0)\<lparr>ev_id := i\<rparr>"

definition summary_finding :: "string \<Rightarrow> string list \<Rightarrow> finding" where
  "summary_finding i es = \<lparr>fi_id = i, fi_rule = ''r'', fi_title = ''t'', fi_severity = High, fi_confidence = 1, fi_session = ''S'',
     fi_events = es, fi_capability = ''c'', fi_target = ''x'', fi_explanation = ''e''\<rparr>"

definition summary_decision :: "policy_action \<Rightarrow> string \<Rightarrow> string list \<Rightarrow> policy_decision" where
  "summary_decision a e fs = \<lparr>pd_id = ''D'', pd_policy = None, pd_action = a, pd_reason = ''r'', pd_session = ''S'', pd_event = e,
     pd_findings = fs, pd_created = 0\<rparr>"

definition chain_trace :: session_trace where
  "chain_trace = \<lparr>st_session = ''S'', st_events = [summary_event ToolCallCompleted ''E'', summary_event ToolCallRequested ''F''],
     st_findings = [summary_finding ''chain'' [''E'', ''F'']],
     st_decisions = [summary_decision Allow ''E'' [], summary_decision Allow ''F'' [], summary_decision Block ''E'' [''chain'']]\<rparr>"

lemma summary_event_fields:
  "ev_id (summary_event ty i) = i" "ev_type (summary_event ty i) = ty" "ev_capability (summary_event ty i) = None"
  by (simp_all add: summary_event_def new_event_def case_prod_beta Let_def)

lemmas summary_simps = print_trace_summary_def event_lines_def finding_lines_def printed_decisions_def skipped_decision_def
  findings_by_event_def decisions_by_event_def print_decision_opt_def print_decision_def summary_finding_def summary_decision_def
  summary_event_fields str_or_def

lemma chain_decision_not_printed:
  "''Decision: block'' \<notin> set (print_trace_summary chain_trace)" "''Decision: allow'' \<in> set (print_trace_summary chain_trace)"
  by (simp_all add: chain_trace_def summary_simps)

text \<open>A blocked call whose data later leave is summarised with the decision on the sequence alone.\<close>

definition exfil_trace :: session_trace where
  "exfil_trace = \<lparr>st_session = ''S'', st_events = [summary_event ToolCallRequested ''E'', summary_event ToolCallRequested ''F''],
     st_findings = [summary_finding ''read'' [''E''], summary_finding ''exfil'' [''E'', ''F'']],
     st_decisions = [summary_decision Block ''E'' [''read''], summary_decision Allow ''F'' [], summary_decision Alert ''E'' [''exfil'']]\<rparr>"

lemma blocked_call_summarised_as_alert:
  "''Decision: block'' \<notin> set (print_trace_summary exfil_trace)" "''Decision: alert'' \<in> set (print_trace_summary exfil_trace)"
  by (simp_all add: exfil_trace_def summary_simps)

section \<open>Where the API is served\<close>

text \<open>Without the flag that allows it, the API is served on the local machine only; and wherever it is served, the
  configuration is managed exactly on loopback addresses.\<close>

lemma served_on_loopback:
  assumes "run_api_serve loopback db host status trace age allow = Inr V"
  shows "allow \<or> is_loopback_host loopback host" "as_management V = is_loopback_host loopback host"
  using assms
  by (auto simp: run_api_serve_def validate_api_bind_host_def is_loopback_host_def create_api_server_def
      split: if_splits option.splits bool.splits)

end
