(* ===== verification/Spec2Isabelle.thy ===== *)
theory Spec2Isabelle
  imports Proxy EbpfCollector StageReview ReviewCache ApiServer Cli
begin

text \<open>
  ZeroADR watches and guards tool-using AI agents. Hooks of an agent, a gateway between an agent and
  its MCP servers, and a sensor on the host turn what happens into \<open>RuntimeEvent\<close>s; detectors turn
  events into findings; a policy file turns events and findings into decisions; gates may ask a
  language model or a person before a call passes; everything is written to an SQLite store and a
  JSONL trace, from which sessions are replayed, reconstructed and analysed. This development models
  the Python package \<open>src/src/zeroadr\<close>; paths below are relative to it.

  \<^bold>\<open>How the parts hang together.\<close> An agent hook (\<open>hook/adapter.py\<close>, theory HookAdapter) and the MCP
  gateway (\<open>gateway/stdio_proxy.py\<close>: Framing for the byte streams, Gateway for the inspection of a
  message, Proxy for the two relay tasks and the ordered response queue) build events and hand them to
  the decision service (\<open>runtime/service.py\<close>, Service) and to the security coordinator
  (\<open>runtime/security_coordinator.py\<close>, Coordinator). Both run the detection engine
  (\<open>detection/\<close>: TextDetect, FileDetect, ShellDetect, SecretDetect, Detection) after redaction
  (\<open>security/redaction.py\<close>, Redaction) and the policies (\<open>policy/engine.py\<close>, Policy). The service asks an
  adjudicator (\<open>llm/adjudication.py\<close>, Adjudication), the coordinator a reviewer
  (\<open>llm/tool_result_review.py\<close>, ToolResultReview; \<open>llm/stage_review.py\<close>, StageReview). A decision that
  needs a person becomes an approval request in the store (\<open>storage/database.py\<close>, Storage) that the
  gateway or hook waits for while others resolve or expire it (\<open>runtime/approvals.py\<close>,
  \<open>hook/approval_wait.py\<close>, Approvals). The endpoint sensor (\<open>endpoint/collectors/\<close>, EbpfCollector) feeds the
  agent (\<open>endpoint/agent.py\<close>: OutputFiles for rotation and retention, EndpointAgent for the run, its
  retries and its status file); its records are ingested or followed (\<open>endpoint/contracts.py\<close>,
  \<open>lite.py\<close>, Endpoint; \<open>tailer.py\<close>, Tailer). Afterwards a trace is replayed through detectors, sequence
  detectors and policies (\<open>replay/runner.py\<close>, Replay; \<open>detection/injection_chain.py\<close>, \<open>exfiltration.py\<close>,
  \<open>code_injection.py\<close>, SequenceDetect), a session is rebuilt (\<open>reconstruction/session.py\<close>,
  \<open>process_tree.py\<close>, \<open>correlation.py\<close>, Reconstruct), reported (\<open>evidence.py\<close>, \<open>summary.py\<close>,
  \<open>agent_bom.py\<close>, Reports) and triaged by a language model (\<open>llm/payload.py\<close>, \<open>provider.py\<close>, \<open>service.py\<close>,
  Triage). The language models are configured by arguments, environment and a private file
  (\<open>llm/config.py\<close>, \<open>api/llm_settings.py\<close>, LlmConfig); the verdicts of the gate are measured against labels and
  tried out in shadow mode (\<open>llm/calibration.py\<close>, \<open>llm/dogfood.py\<close>, Calibration), and reviews of tool results
  are cached in a file (ReviewCache). An HTTP server shows the store, resolves approvals and changes the
  configuration (\<open>api/\<close>, ApiServer), and the command line runs all of it (\<open>cli/main.py\<close>, \<open>api/demo.py\<close>, Cli).
\<close>

text \<open>
  \<^bold>\<open>Shared theories.\<close> Prelude holds the text functions of Python's \<open>str\<close>, ordered dictionaries, the
  clock and randomness of a \<open>world\<close>, and the collection of their lemmas. Json holds dynamic values;
  JsonParse the scanner of \<open>json.loads\<close>; PyStd \<open>json.dumps\<close>, UTF-8, SHA-256, ISO times and \<open>round\<close>;
  PyRegex the used fragment of \<open>re\<close>; PyUrl that of \<open>urllib.parse\<close>. Core holds the records of \<open>core/\<close>, Normalization the capability
  mapper, LlmModels the records of \<open>llm/models.py\<close>, Evidence the bounded text walk that several modules
  repeat.

  \<^bold>\<open>State and operations.\<close> A dataclass or pydantic model is a record, a literal type a datatype, a method
  a function from its object's state to a result and the state after it. An exception is an \<open>Inl\<close> of the
  result. \<open>sys\<close> (Approvals) is the state that processes share: clock, identifiers, store and trace;
  the coordinator, gateway, reviewer, triage and API server extend it. Concurrency is explicit: approval operations of
  other processes are lists of acts between polls, the tasks of the proxy are the rules of an inductive
  step relation, the probes of the sensor deliver per round.

  \<^bold>\<open>Interfaces.\<close> \<open>keyed_table\<close> and \<open>write_once\<close> (Storage) say what a table and a resolution promise,
  \<open>detector\<close> (Detection) and \<open>sequence_detector\<close> what a detector may report, \<open>chunker\<close> (Evidence) what a
  text splitter keeps, \<open>adjudicating\<close> (Adjudication) what an adjudicator returns, \<open>untouched\<close> (Gateway)
  which steps leave a part of the state alone, \<open>byte_reader\<close> (Framing) what reading from a stream
  consumes, \<open>response_queue\<close> (Proxy) the abstract FIFO, \<open>sliding_log\<close> (OutputFiles) what rotation may drop.
  Each is interpreted on the code's own definitions.

  \<^bold>\<open>What the groups of lemmas show.\<close> Storage and Approvals: a pending request is resolved at most once under
  any interleaving, and waiting ends with the stored decision. Redaction, Service, Reconstruct, Adjudication
  and Triage: only the marker stands under sensitive keys in what is stored, shown or sent. Policy, Service,
  Coordinator, StageReview, Adjudication: which policy decides, when a gate asks, and that a missing, failing
  or doubtful answer never opens an enforcing gate. Gateway, Proxy, Framing: what is forwarded was
  inspected, byte for byte, answers come in request order, the queue refines a FIFO. Detection and
  SequenceDetect: exact characterisations of reports. Endpoint, Tailer, OutputFiles, EndpointAgent,
  EbpfCollector: what is kept, in which order, within which bounds, and that losses are counted. Replay,
  Reconstruct, Reports: determinism, independence of order, well-formed process trees. LlmConfig and
  ReviewCache: what is written to a file is read back, and a resolved configuration is usable. Calibration: the
  tables count every label once and predict the enforcing gate, and a dogfood run changes no decision.
  ApiServer and Cli: which request may change the configuration, what resolving an approval over HTTP answers
  and leaves in the store, and with which exit code a held call ends.
\<close>

text \<open>
  \<^bold>\<open>Bounds and fuel.\<close> Structural recursion and \<open>termination\<close> proofs are used wherever the code's loop ends by
  itself (frames of a buffer, flushing of the queue, scanning of JSON, retries). Counters stand for loops
  that the environment ends: \<open>wait_loop\<close> counts polls and the liveness theorem gives the number that is
  enough from the deadline; \<open>tail_loop\<close> counts calls of \<open>readline\<close> and \<open>session_loop\<close> rounds of a collector,
  and their theorems hold for every count; \<open>review_attempts\<close> is bounded by the configured retries.

  \<^bold>\<open>Parameters.\<close> Code outside the package is an argument: HTTP clients (the outcome of each request), the
  schema library (which values a model accepts), the YAML reader, URL and address parsing of the
  exfiltration detector, the check of bracketed hosts in a URL and of loopback addresses, the rounding to four
  digits, the reading of a float from a text, the environment, the files of the console, the formatting of floats, the decoding of JSON floats and the recursion limit, the
  probe library and \<open>/proc\<close>.

  \<^bold>\<open>Representation.\<close> A \<open>str\<close> is a list of Latin-1 characters; a wider code point that the code can create
  stands as U+00FF, and phrases in other scripts are left out of the phrase lists. Times are microseconds,
  floats rationals or decimals. \<open>model_dump\<close> is the record itself, or its JSON form where the code looks
  into it. A reply of the server is its status and the record its body dumps; infinite numbers and NaN are no
  settings. Positions in files count characters; the status file is the JSON value it holds. A call in a
  worker thread is atomic; signals and heartbeats fall between records. SQL statements are operations on
  tables and a transaction is one step.

  \<^bold>\<open>Not modelled.\<close> The argument parser of the command line with its defaults, the dispatch of \<open>main\<close> and the bytes
  that are printed; the socket loop of the HTTP server and the bytes of its replies, so that requests are
  handled one after the other; start, stop and standard error of server processes; schema creation of the
  store; the C programs of the probes and installation of signal handlers.
\<close>

end
